(* ===== verification/Net.thy ===== *)
theory Net
  imports Prelude
begin

text \<open>
  The standard library's addresses as the crate uses them: \<open>IpAddr\<close> and \<open>SocketAddr\<close>, the
  tests \<open>is_loopback\<close>, \<open>is_unspecified\<close> and \<open>to_ipv4_mapped\<close>, the text \<open>parse\<close> reads
  (the recursive-descent reader of \<open>core::net\<close>) and the text \<open>to_string\<close> writes.
\<close>

unbundle bit_operations_syntax

type_synonym u8 = "8 word"
type_synonym u16 = "16 word"
type_synonym u64 = "64 word"

datatype ip_addr = V4 "32 word" | V6 "128 word"

record socket_addr =
  sa_ip :: ip_addr
  sa_port :: u16

definition set_ip :: "ip_addr \<Rightarrow> socket_addr \<Rightarrow> socket_addr" where
  "set_ip ip a = a\<lparr>sa_ip := ip\<rparr>"

definition ipv4 :: "nat \<Rightarrow> nat \<Rightarrow> nat \<Rightarrow> nat \<Rightarrow> ip_addr" where
  "ipv4 a b c d = V4 (of_nat (((a * 256 + b) * 256 + c) * 256 + d))"

abbreviation localhost :: ip_addr where "localhost \<equiv> ipv4 127 0 0 1"

fun is_loopback :: "ip_addr \<Rightarrow> bool" where
  "is_loopback (V4 w) \<longleftrightarrow> drop_bit 24 w = 127"
| "is_loopback (V6 w) \<longleftrightarrow> w = 1"

fun is_unspecified :: "ip_addr \<Rightarrow> bool" where
  "is_unspecified (V4 w) \<longleftrightarrow> w = 0"
| "is_unspecified (V6 w) \<longleftrightarrow> w = 0"

text \<open>\<open>Ipv6Addr::to_ipv4_mapped\<close>: \<open>::ffff:a.b.c.d\<close>.\<close>

definition to_ipv4_mapped :: "128 word \<Rightarrow> 32 word option" where
  "to_ipv4_mapped w = (if drop_bit 32 w = 0xffff then Some (ucast w) else None)"

section \<open>Reading an address\<close>

text \<open>A reader takes text and gives a value and what is left of the text, or nothing.\<close>

type_synonym 'a reader = "string \<Rightarrow> ('a \<times> string) option"

fun read_given_char :: "char \<Rightarrow> unit reader" where
  "read_given_char c [] = None"
| "read_given_char c (x # xs) = (if x = c then Some ((), xs) else None)"

definition read_separator :: "char \<Rightarrow> nat \<Rightarrow> 'a reader \<Rightarrow> 'a reader" where
  "read_separator sep i inner s =
     (if 0 < i
      then case read_given_char sep s of None \<Rightarrow> None | Some (_, s') \<Rightarrow> inner s'
      else inner s)"

definition digits_value :: "nat \<Rightarrow> string \<Rightarrow> nat" where
  "digits_value radix ds =
     foldl (\<lambda>v c. v * radix + (case to_digit radix c of None \<Rightarrow> 0 | Some d \<Rightarrow> d)) 0 ds"

definition read_number :: "nat \<Rightarrow> nat option \<Rightarrow> bool \<Rightarrow> nat \<Rightarrow> nat reader" where
  "read_number radix max_digits allow_zero_prefix bound s =
     (let ds = takeWhile (\<lambda>c. to_digit radix c \<noteq> None) s;
          rest = drop (length ds) s;
          too_long = (case max_digits of None \<Rightarrow> False | Some m \<Rightarrow> m < length ds)
      in if too_long \<or> ds = [] then None
         else if \<not> allow_zero_prefix \<and> hd ds = CHR ''0'' \<and> 1 < length ds then None
         else if digits_value radix ds < bound then Some (digits_value radix ds, rest)
         else None)"

definition read_octet :: "nat \<Rightarrow> nat reader" where
  "read_octet i = read_separator CHR ''.'' i (read_number 10 (Some 3) False 256)"

definition read_ipv4_addr :: "(nat \<times> nat \<times> nat \<times> nat) reader" where
  "read_ipv4_addr s =
     (case read_octet 0 s of None \<Rightarrow> None | Some (a, s1) \<Rightarrow>
      case read_octet 1 s1 of None \<Rightarrow> None | Some (b, s2) \<Rightarrow>
      case read_octet 2 s2 of None \<Rightarrow> None | Some (c, s3) \<Rightarrow>
      case read_octet 3 s3 of None \<Rightarrow> None | Some (d, s4) \<Rightarrow> Some ((a, b, c, d), s4))"

text \<open>
  Up to \<open>room\<close> groups, the \<open>i\<close>-th next: an embedded IPv4 address where two groups of room are
  left ends them, as does the first thing that is not a group.
\<close>

fun read_groups :: "nat \<Rightarrow> nat \<Rightarrow> string \<Rightarrow> nat list \<times> bool \<times> string" where
  "read_groups room i s =
     (if room = 0 then ([], False, s) else
      case (if 1 < room then read_separator CHR '':'' i read_ipv4_addr s else None) of
        Some ((a, b, c, d), s') \<Rightarrow> ([a * 256 + b, c * 256 + d], True, s')
      | None \<Rightarrow>
          (case read_separator CHR '':'' i (read_number 16 (Some 4) True 65536) s of
             None \<Rightarrow> ([], False, s)
           | Some (g, s') \<Rightarrow>
               (case read_groups (room - 1) (Suc i) s' of (gs, v4, s'') \<Rightarrow> (g # gs, v4, s''))))"

declare read_groups.simps [simp del]

definition read_ipv6_addr :: "nat list reader" where
  "read_ipv6_addr s =
     (case read_groups 8 0 s of (front, front_ipv4, s1) \<Rightarrow>
        if length front = 8 then Some (front, s1)
        else if front_ipv4 then None
        else case read_given_char CHR '':'' s1 of None \<Rightarrow> None | Some (_, s2) \<Rightarrow>
             case read_given_char CHR '':'' s2 of None \<Rightarrow> None | Some (_, s3) \<Rightarrow>
             case read_groups (8 - (length front + 1)) 0 s3 of (back, _, s4) \<Rightarrow>
               Some (front @ replicate (8 - length front - length back) 0 @ back, s4))"

definition groups_to_word :: "nat list \<Rightarrow> 128 word" where
  "groups_to_word gs = of_nat (foldl (\<lambda>v g. v * 65536 + g) 0 gs)"

definition read_ip_addr :: "ip_addr reader" where
  "read_ip_addr s =
     (case read_ipv4_addr s of
        Some ((a, b, c, d), s') \<Rightarrow> Some (ipv4 a b c d, s')
      | None \<Rightarrow>
          (case read_ipv6_addr s of
             None \<Rightarrow> None
           | Some (gs, s') \<Rightarrow> Some (V6 (groups_to_word gs), s')))"

definition read_port :: "nat reader" where
  "read_port s =
     (case read_given_char CHR '':'' s of None \<Rightarrow> None
      | Some (_, s') \<Rightarrow> read_number 10 None True 65536 s')"

text \<open>A scope id is read and dropped; a bad one is left where it is (the \<open>]\<close> then fails).\<close>

definition read_scope_id :: "string \<Rightarrow> string" where
  "read_scope_id s =
     (case read_given_char CHR ''%'' s of None \<Rightarrow> s
      | Some (_, s') \<Rightarrow>
          (case read_number 10 None True (2 ^ 32) s' of None \<Rightarrow> s | Some (_, s'') \<Rightarrow> s''))"

definition read_socket_addr_v6 :: "(ip_addr \<times> nat) reader" where
  "read_socket_addr_v6 s =
     (case read_given_char CHR ''['' s of None \<Rightarrow> None | Some (_, s1) \<Rightarrow>
      case read_ipv6_addr s1 of None \<Rightarrow> None | Some (gs, s2) \<Rightarrow>
      case read_given_char CHR '']'' (read_scope_id s2) of None \<Rightarrow> None | Some (_, s3) \<Rightarrow>
      case read_port s3 of None \<Rightarrow> None | Some (p, s4) \<Rightarrow>
        Some ((V6 (groups_to_word gs), p), s4))"

definition read_socket_addr :: "(ip_addr \<times> nat) reader" where
  "read_socket_addr s =
     (case (case read_ipv4_addr s of None \<Rightarrow> None | Some ((a, b, c, d), s1) \<Rightarrow>
            case read_port s1 of None \<Rightarrow> None | Some (p, s2) \<Rightarrow> Some ((ipv4 a b c d, p), s2)) of
        Some r \<Rightarrow> Some r
      | None \<Rightarrow> read_socket_addr_v6 s)"

text \<open>\<open>parse\<close> wants all of the text read.\<close>

definition whole :: "'a reader \<Rightarrow> string \<Rightarrow> 'a option" where
  "whole r s = (case r s of Some (x, []) \<Rightarrow> Some x | _ \<Rightarrow> None)"

definition parse_ip_addr :: "string \<Rightarrow> ip_addr option" where
  "parse_ip_addr = whole read_ip_addr"

definition parse_socket_addr :: "string \<Rightarrow> socket_addr option" where
  "parse_socket_addr s =
     map_option (\<lambda>(ip, p). \<lparr>sa_ip = ip, sa_port = of_nat p\<rparr>) (whole read_socket_addr s)"

section \<open>Writing an address\<close>

definition octets :: "32 word \<Rightarrow> nat list" where
  "octets w = [unat w div 16777216, unat w div 65536 mod 256, unat w div 256 mod 256, unat w mod 256]"

definition show_ipv4 :: "32 word \<Rightarrow> string" where
  "show_ipv4 w = join_with ''.'' (map show_nat (octets w))"

definition hex_char :: "nat \<Rightarrow> char" where
  "hex_char d = (if d < 10 then char_of (48 + d) else char_of (87 + d))"

fun show_hex :: "nat \<Rightarrow> string" where
  "show_hex n = (if n < 16 then [hex_char n] else show_hex (n div 16) @ [hex_char (n mod 16)])"

declare show_hex.simps [simp del]

definition segments :: "128 word \<Rightarrow> nat list" where
  "segments w = map (\<lambda>i. unat w div 65536 ^ (7 - i) mod 65536) [0..<8]"

text \<open>The first of the longest runs of zero groups, as (start, length).\<close>

fun longest_zero_run :: "nat \<Rightarrow> nat \<times> nat \<Rightarrow> nat \<times> nat \<Rightarrow> nat list \<Rightarrow> nat \<times> nat" where
  "longest_zero_run i cur best [] = best"
| "longest_zero_run i cur best (g # gs) =
     (if g = 0
      then let cur' = (if snd cur = 0 then (i, 1) else (fst cur, Suc (snd cur)))
           in longest_zero_run (Suc i) cur' (if snd best < snd cur' then cur' else best) gs
      else longest_zero_run (Suc i) (0, 0) best gs)"

definition show_ipv6 :: "128 word \<Rightarrow> string" where
  "show_ipv6 w =
     (case to_ipv4_mapped w of
        Some v4 \<Rightarrow> ''::ffff:'' @ show_ipv4 v4
      | None \<Rightarrow>
          (let gs = segments w; run = longest_zero_run 0 (0, 0) (0, 0) gs in
           if 1 < snd run
           then join_with '':'' (map show_hex (take (fst run) gs)) @ ''::'' @
                join_with '':'' (map show_hex (drop (fst run + snd run) gs))
           else join_with '':'' (map show_hex gs)))"

fun show_ip :: "ip_addr \<Rightarrow> string" where
  "show_ip (V4 w) = show_ipv4 w"
| "show_ip (V6 w) = show_ipv6 w"

section \<open>Evaluation on closed text\<close>

lemma replicate_rec: "replicate n x = (if n = 0 then [] else x # replicate (n - 1) x)"
  by (cases n) auto

lemmas net_eval =
  parse_ip_addr_def parse_socket_addr_def whole_def read_ip_addr_def read_ipv4_addr_def
  read_octet_def read_separator_def read_number_def digits_value_def to_digit_def code_def
  read_ipv6_addr_def read_groups.simps groups_to_word_def ipv4_def read_socket_addr_def
  read_socket_addr_v6_def read_port_def read_scope_id_def replicate_rec

lemma parse_ip_examples:
  "parse_ip_addr ''198.51.100.4'' = Some (ipv4 198 51 100 4)"
  "parse_ip_addr ''not-an-ip'' = None"
  "parse_ip_addr ''1.2.3.04'' = None"
  "parse_ip_addr ''2001:db8::1'' = Some (V6 0x20010db8000000000000000000000001)"
  "parse_ip_addr ''::ffff:127.0.0.1'' = Some (V6 0xffff7f000001)"
  by (simp_all add: net_eval)

lemma parse_socket_examples:
  "parse_socket_addr ''198.51.100.4:4431'' = Some \<lparr>sa_ip = ipv4 198 51 100 4, sa_port = 4431\<rparr>"
  "parse_socket_addr ''[2001:db8::1]:443'' =
     Some \<lparr>sa_ip = V6 0x20010db8000000000000000000000001, sa_port = 443\<rparr>"
  "parse_socket_addr ''198.51.100.4'' = None"
  by (simp_all add: net_eval)

lemmas show_eval =
  show_ipv4_def show_ipv6_def octets_def segments_def to_ipv4_mapped_def show_nat.simps
  show_hex.simps digit_char_def hex_char_def ipv4_def upt_rec char_of_def bit_iff_odd

lemma show_ip_examples:
  "show_ip localhost = ''127.0.0.1''"
  "show_ip (V6 1) = ''::1''"
  "show_ip (V6 0x20010db8000000000000000000000001) = ''2001:db8::1''"
  by (simp_all add: show_eval)

end
