(* ===== verification/Guard.thy ===== *)
theory Guard
  imports Net
begin

text \<open>
  ws/guard.rs (RPC-6): the reader between the socket and tungstenite that keeps the message cap.
  It follows each frame's header; a frame within the cap goes on as it came, a fragmented
  message's frames are held to its last, a message past the cap is dropped and counted, and a
  length with its top bit set fails the read.

  The socket is the list of what its next reads answer (\<open>arrival\<close>); past the list it is at its
  end. One read takes at most the room it is given of the next chunk. How much spare room
  \<open>BytesMut\<close> has after its \<open>reserve\<close> is that crate's: it is an argument, \<open>spare\<close>.
\<close>

type_synonym bytes = "u8 list"

datatype guard_in = Header_in | Pass u64 | Hold u64 | Skip u64

datatype guard_msg = No_msg | Holding u64 | Skipping

record header =
  hd_fin :: bool
  hd_opcode :: u8
  hd_len :: u64
  hd_size :: nat

definition u64_max :: nat where
  "u64_max = 2 ^ 64 - 1"

text \<open>\<open>u64::saturating_add\<close> and \<open>u64::checked_add\<close>.\<close>

definition saturating_add :: "u64 \<Rightarrow> u64 \<Rightarrow> u64" where
  "saturating_add a b = (if unat a + unat b \<le> u64_max then a + b else of_nat u64_max)"

definition checked_add :: "u64 \<Rightarrow> u64 \<Rightarrow> u64 option" where
  "checked_add a b = (if unat a + unat b \<le> u64_max then Some (a + b) else None)"

definition total :: "header \<Rightarrow> u64" where
  "total h = saturating_add (of_nat (hd_size h)) (hd_len h)"

definition illegal_length :: "bytes \<Rightarrow> bool" where
  "illegal_length b =
     (case b of
        _ # second # third # _ \<Rightarrow> second AND 0x7f = 127 \<and> third AND 0x80 \<noteq> 0
      | _ \<Rightarrow> False)"

text \<open>\<open>from_be_bytes\<close>.\<close>

definition be_value :: "bytes \<Rightarrow> nat" where
  "be_value bs = foldl (\<lambda>v b. v * 256 + unat b) 0 bs"

definition length_field :: "bytes \<Rightarrow> (u64 \<times> nat) option" where
  "length_field b =
     (let n = (b ! 1) AND 0x7f in
      if n = 126
      then if length b < 4 then None else Some (of_nat (be_value (take 2 (drop 2 b))), 4)
      else if n = 127
      then if length b < 10 then None else Some (of_nat (be_value (take 8 (drop 2 b))), 10)
      else Some (ucast n, 2))"

definition header :: "bytes \<Rightarrow> header option" where
  "header b =
     (if length b < 2 then None
      else case length_field b of
             None \<Rightarrow> None
           | Some (len, size0) \<Rightarrow>
               (let size = (if (b ! 1) AND 0x80 \<noteq> 0 then size0 + 4 else size0) in
                if size \<le> length b
                then Some \<lparr>hd_fin = (b ! 0) AND 0x80 \<noteq> 0, hd_opcode = (b ! 0) AND 0x0f,
                           hd_len = len, hd_size = size\<rparr>
                else None))"

record guard =
  g_cap :: u64
  g_buf :: bytes
  g_ready :: bytes
  g_hold :: bytes
  g_state :: guard_in
  g_msg :: guard_msg
  g_release :: bool
  g_dropped :: nat

definition guard_new :: "u64 \<Rightarrow> guard" where
  "guard_new cap =
     \<lparr>g_cap = cap, g_buf = [], g_ready = [], g_hold = [], g_state = Header_in, g_msg = No_msg,
      g_release = False, g_dropped = 0\<rparr>"

definition advance :: "nat \<Rightarrow> guard \<Rightarrow> guard" where
  "advance k g = g\<lparr>g_buf := drop k (g_buf g)\<rparr>"

definition dropped_one :: "guard \<Rightarrow> guard" where
  "dropped_one g = g\<lparr>g_dropped := g_dropped g + 1\<rparr>"

definition release_hold :: "guard \<Rightarrow> guard" where
  "release_hold g = g\<lparr>g_ready := g_ready g @ g_hold g, g_hold := []\<rparr>"

definition end_hold :: "guard \<Rightarrow> guard" where
  "end_hold g =
     (let g1 = g\<lparr>g_state := Header_in\<rparr> in
      if g_release g then (release_hold g1)\<lparr>g_msg := No_msg, g_release := False\<rparr> else g1)"

definition hold_frame :: "header \<Rightarrow> guard \<Rightarrow> guard" where
  "hold_frame h g =
     (let g1 = (advance (hd_size h) g)
                 \<lparr>g_hold := g_hold g @ take (hd_size h) (g_buf g), g_release := hd_fin h,
                  g_state := Hold (hd_len h)\<rparr>
      in if hd_len h = 0 then end_hold g1 else g1)"

definition over_cap :: "guard \<Rightarrow> u64 \<Rightarrow> bool" where
  "over_cap g len \<longleftrightarrow> g_cap g < len"

definition decide :: "header \<Rightarrow> guard \<Rightarrow> guard" where
  "decide h g =
     (if hd_opcode h AND 0x08 \<noteq> 0 then g\<lparr>g_state := Pass (total h)\<rparr>
      else if hd_opcode h = 0 then
        (case g_msg g of
           Skipping \<Rightarrow>
             (advance (hd_size h) g)
               \<lparr>g_state := Skip (hd_len h), g_msg := (if hd_fin h then No_msg else Skipping)\<rparr>
         | Holding len \<Rightarrow>
             (case Option.bind (checked_add len (hd_len h))
                     (\<lambda>t. if over_cap g t then None else Some t) of
                None \<Rightarrow>
                  dropped_one ((advance (hd_size h) g)
                    \<lparr>g_hold := [], g_state := Skip (hd_len h),
                     g_msg := (if hd_fin h then No_msg else Skipping)\<rparr>)
              | Some t \<Rightarrow> hold_frame h (g\<lparr>g_msg := Holding t\<rparr>))
         | No_msg \<Rightarrow> g\<lparr>g_msg := No_msg, g_state := Pass (total h)\<rparr>)
      else
        (case g_msg g of
           Holding _ \<Rightarrow> (release_hold g)\<lparr>g_msg := No_msg, g_state := Pass (total h)\<rparr>
         | Skipping \<Rightarrow> g\<lparr>g_msg := No_msg, g_state := Pass (total h)\<rparr>
         | No_msg \<Rightarrow>
             if over_cap g (hd_len h) then
               dropped_one ((advance (hd_size h) g)
                 \<lparr>g_state := Skip (hd_len h), g_msg := (if hd_fin h then No_msg else Skipping)\<rparr>)
             else if hd_fin h then g\<lparr>g_state := Pass (total h)\<rparr>
             else hold_frame h (g\<lparr>g_hold := [], g_msg := Holding (hd_len h)\<rparr>)))"

section \<open>Reading\<close>

datatype arrival = Chunk bytes | Not_yet | Lost

datatype 'a poll = Ready 'a | Pending_poll

datatype read_error = Frame_refused | Socket_lost

definition is_refused :: "read_error \<Rightarrow> bool" where
  "is_refused e \<longleftrightarrow> e = Frame_refused"

fun io_read :: "nat \<Rightarrow> arrival list \<Rightarrow> (unit + bytes) poll \<times> arrival list" where
  "io_read room [] = (Ready (Ok []), [])"
| "io_read room (Not_yet # io) = (Pending_poll, io)"
| "io_read room (Lost # io) = (Ready (Err ()), io)"
| "io_read room (Chunk bs # io) =
     (Ready (Ok (take room bs)), if drop room bs = [] then io else Chunk (drop room bs) # io)"

text \<open>
  One turn of \<open>poll_read\<close>'s loop: it goes round again, or the poll is over with what it put in
  the reader's buffer (\<open>room\<close> bytes), an error, or \<open>Pending\<close>.
\<close>

datatype turn = Again guard "arrival list" | Over guard "arrival list" "(read_error + bytes) poll"

definition fill :: "(bytes \<Rightarrow> nat) \<Rightarrow> guard \<Rightarrow> arrival list \<Rightarrow> turn" where
  "fill spare g io =
     (case io_read (spare (g_buf g)) io of
        (Pending_poll, io') \<Rightarrow> Over g io' Pending_poll
      | (Ready (Inl e), io') \<Rightarrow> Over g io' (Ready (Err Socket_lost))
      | (Ready (Inr bs), io') \<Rightarrow>
          if bs = [] then Over g io' (Ready (Ok [])) else Again (g\<lparr>g_buf := g_buf g @ bs\<rparr>) io')"

definition pass_on :: "nat \<Rightarrow> u64 \<Rightarrow> guard \<Rightarrow> arrival list \<Rightarrow> turn" where
  "pass_on room n g io =
     (if g_buf g \<noteq> [] then
        (let k = min (min (unat n) (length (g_buf g))) room in
         Over ((advance k g)\<lparr>g_state := Pass (n - of_nat k)\<rparr>) io (Ready (Ok (take k (g_buf g)))))
      else if room = 0 then Over g io (Ready (Ok []))
      else case io_read (min (unat n) room) io of
             (Pending_poll, io') \<Rightarrow> Over g io' Pending_poll
           | (Ready (Inl e), io') \<Rightarrow> Over g io' (Ready (Err Socket_lost))
           | (Ready (Inr bs), io') \<Rightarrow>
               Over (if bs = [] then g else g\<lparr>g_state := Pass (n - of_nat (length bs))\<rparr>) io'
                 (Ready (Ok bs)))"

definition guard_turn :: "(bytes \<Rightarrow> nat) \<Rightarrow> nat \<Rightarrow> guard \<Rightarrow> arrival list \<Rightarrow> turn" where
  "guard_turn spare room g io =
     (if g_ready g \<noteq> [] then
        (let k = min (length (g_ready g)) room in
         Over (g\<lparr>g_ready := drop k (g_ready g)\<rparr>) io (Ready (Ok (take k (g_ready g)))))
      else case g_state g of
        Pass n \<Rightarrow> if n = 0 then Again (g\<lparr>g_state := Header_in\<rparr>) io else pass_on room n g io
      | Hold n \<Rightarrow>
          if n = 0 then Again (end_hold g) io
          else if g_buf g \<noteq> [] then
            (let k = min (unat n) (length (g_buf g));
                 g1 = (advance k g)
                        \<lparr>g_hold := g_hold g @ take k (g_buf g), g_state := Hold (n - of_nat k)\<rparr>
             in Again (if unat n = k then end_hold g1 else g1) io)
          else fill spare g io
      | Skip n \<Rightarrow>
          if n = 0 then Again (g\<lparr>g_state := Header_in\<rparr>) io
          else if g_buf g \<noteq> [] then
            (let k = min (unat n) (length (g_buf g)) in
             Again ((advance k g)\<lparr>g_state := Skip (n - of_nat k)\<rparr>) io)
          else fill spare g io
      | Header_in \<Rightarrow>
          if illegal_length (g_buf g)
          then Over (g\<lparr>g_hold := []\<rparr>) io (Ready (Err Frame_refused))
          else case header (g_buf g) of
                 Some h \<Rightarrow> Again (decide h g) io
               | None \<Rightarrow> fill spare g io)"

text \<open>
  The loop ends: a turn that goes round again has read from the socket, or taken bytes out of
  \<open>buf\<close>, or gone from a finished frame to its header, or from a header to a frame handed on.
\<close>

fun io_size :: "arrival list \<Rightarrow> nat" where
  "io_size [] = 0"
| "io_size (Chunk bs # io) = Suc (length bs + io_size io)"
| "io_size (_ # io) = Suc (io_size io)"

definition turn_rank :: "guard_in \<Rightarrow> nat" where
  "turn_rank s = (case s of Header_in \<Rightarrow> 1 | Pass n \<Rightarrow> if n = 0 then 2 else 0
                   | Hold n \<Rightarrow> if n = 0 then 2 else 0 | Skip n \<Rightarrow> if n = 0 then 2 else 0)"

lemma io_read_size: "io_read room io = (Ready (Ok bs), io') \<Longrightarrow> bs \<noteq> [] \<Longrightarrow> io_size io' < io_size io"
  by (cases "(room, io)" rule: io_read.cases) (auto split: if_splits)

lemma header_size: "header b = Some h \<Longrightarrow> 2 \<le> hd_size h \<and> hd_size h \<le> length b \<and> hd_size h \<le> 14"
  by (auto simp: header_def length_field_def Let_def split: if_splits option.splits)

lemma total_not_zero: "header b = Some h \<Longrightarrow> total h \<noteq> 0"
proof -
  assume "header b = Some h"
  then have s: "2 \<le> hd_size h" "hd_size h \<le> 14" using header_size by blast+
  then have u: "unat (of_nat (hd_size h) :: u64) = hd_size h"
    by (simp add: unat_of_nat)
  have "unat (total h) \<noteq> 0"
  proof (cases "unat (of_nat (hd_size h) :: u64) + unat (hd_len h) \<le> u64_max")
    case True
    then have "unat (of_nat (hd_size h) + hd_len h) = hd_size h + unat (hd_len h)"
      using u by (subst unat_add_lem [THEN iffD1]) (auto simp: u64_max_def)
    then show ?thesis using True s by (simp add: total_def saturating_add_def)
  next
    case False
    then show ?thesis by (simp add: total_def saturating_add_def u64_max_def)
  qed
  then show ?thesis by auto
qed

lemma end_hold_buf [simp]: "g_buf (end_hold g) = g_buf g"
  by (simp add: end_hold_def release_hold_def Let_def)

lemma end_hold_state [simp]: "g_state (end_hold g) = Header_in"
  by (simp add: end_hold_def release_hold_def Let_def)

lemma hold_frame_buf [simp]: "g_buf (hold_frame h g) = drop (hd_size h) (g_buf g)"
  by (simp add: hold_frame_def advance_def Let_def)

lemma decide_shrinks:
  assumes "header (g_buf g) = Some h"
  shows "length (g_buf (decide h g)) < length (g_buf g) \<or>
         g_buf (decide h g) = g_buf g \<and> turn_rank (g_state (decide h g)) = 0"
  using header_size [OF assms] total_not_zero [OF assms]
  by (auto simp: decide_def advance_def dropped_one_def release_hold_def turn_rank_def
      split: guard_msg.split option.split)

lemma guard_turn_shrinks:
  assumes "guard_turn spare room g io = Again g' io'"
  shows "io_size io' < io_size io \<or>
         io' = io \<and> (length (g_buf g') < length (g_buf g) \<or>
           g_buf g' = g_buf g \<and> turn_rank (g_state g') < turn_rank (g_state g))"
proof (cases "g_state g")
  case Header_in
  then show ?thesis
    using assms decide_shrinks [of g]
    by (fastforce simp: guard_turn_def fill_def turn_rank_def Let_def
        split: if_splits option.splits prod.splits poll.splits sum.splits dest: io_read_size)
next
  case (Pass n)
  then show ?thesis
    using assms
    by (auto simp: guard_turn_def pass_on_def turn_rank_def Let_def
        split: if_splits prod.splits poll.splits sum.splits)
next
  case (Hold n)
  then have "n \<noteq> 0 \<Longrightarrow> g_buf g \<noteq> [] \<Longrightarrow> 0 < min (unat n) (length (g_buf g))"
    by (simp add: unat_gt_0)
  with Hold show ?thesis
    using assms
    by (auto simp: guard_turn_def fill_def advance_def turn_rank_def Let_def
        split: if_splits prod.splits poll.splits sum.splits dest: io_read_size)
next
  case (Skip n)
  then have "n \<noteq> 0 \<Longrightarrow> g_buf g \<noteq> [] \<Longrightarrow> 0 < min (unat n) (length (g_buf g))"
    by (simp add: unat_gt_0)
  with Skip show ?thesis
    using assms
    by (auto simp: guard_turn_def fill_def advance_def turn_rank_def Let_def
        split: if_splits prod.splits poll.splits sum.splits dest: io_read_size)
qed

function poll_read ::
  "(bytes \<Rightarrow> nat) \<Rightarrow> nat \<Rightarrow> guard \<Rightarrow> arrival list \<Rightarrow> (read_error + bytes) poll \<times> guard \<times> arrival list"
where
  "poll_read spare room g io =
     (case guard_turn spare room g io of
        Again g' io' \<Rightarrow> poll_read spare room g' io'
      | Over g' io' r \<Rightarrow> (r, g', io'))"
  by pat_completeness auto

termination
  by (relation "measures [\<lambda>(_, _, g, io). io_size io, \<lambda>(_, _, g, io). length (g_buf g),
      \<lambda>(_, _, g, io). turn_rank (g_state g)]")
    (auto dest: guard_turn_shrinks)

declare poll_read.simps [simp del]

end
