(* ===== verification/Guard_Stream.thy ===== *)
theory Guard_Stream
  imports Guard
begin

text \<open>
  What the guard does to a whole stream, whatever chunks it arrives in and whatever room its
  reader has. \<open>drain\<close> is the reference: the guard with every byte already in its buffer and
  a reader with all the room. Every poll hands on a prefix of what \<open>drain\<close> says is to come,
  and leaves the rest (\<open>poll_read_drains\<close>); a stream of frames is then a fold over frames
  (\<open>frames_out\<close>), and a stream of messages a filter (\<open>messages_out\<close>).
\<close>

section \<open>The reference\<close>

fun emit :: "bytes \<Rightarrow> bytes \<times> guard \<times> bool \<Rightarrow> bytes \<times> guard \<times> bool" where
  "emit bs (out, g, refused) = (bs @ out, g, refused)"

lemma emit_Nil [simp]: "emit [] x = x"
  by (cases x) simp

lemma emit_emit: "emit a (emit b x) = emit (a @ b) x"
  by (cases x) simp

lemma fst_emit: "fst (emit a x) = a @ fst x"
  by (cases x) simp

lemma snd_emit [simp]: "snd (emit a x) = snd x"
  by (cases x) simp

definition held_some :: "nat \<Rightarrow> u64 \<Rightarrow> guard \<Rightarrow> guard" where
  "held_some k n g =
     (let g1 = (advance k g)\<lparr>g_hold := g_hold g @ take k (g_buf g), g_state := Hold (n - of_nat k)\<rparr>
      in if unat n = k then end_hold g1 else g1)"

function drain :: "guard \<Rightarrow> bytes \<times> guard \<times> bool" where
  "drain g =
     (if g_ready g \<noteq> [] then emit (g_ready g) (drain (g\<lparr>g_ready := []\<rparr>))
      else case g_state g of
        Pass n \<Rightarrow>
          if n = 0 then drain (g\<lparr>g_state := Header_in\<rparr>)
          else if g_buf g = [] then ([], g, False)
          else (let k = min (unat n) (length (g_buf g)) in
                emit (take k (g_buf g)) (drain ((advance k g)\<lparr>g_state := Pass (n - of_nat k)\<rparr>)))
      | Hold n \<Rightarrow>
          if n = 0 then drain (end_hold g)
          else if g_buf g = [] then ([], g, False)
          else drain (held_some (min (unat n) (length (g_buf g))) n g)
      | Skip n \<Rightarrow>
          if n = 0 then drain (g\<lparr>g_state := Header_in\<rparr>)
          else if g_buf g = [] then ([], g, False)
          else (let k = min (unat n) (length (g_buf g)) in
                drain ((advance k g)\<lparr>g_state := Skip (n - of_nat k)\<rparr>))
      | Header_in \<Rightarrow>
          if illegal_length (g_buf g) then ([], g\<lparr>g_hold := []\<rparr>, True)
          else case header (g_buf g) of
                 Some h \<Rightarrow> drain (decide h g)
               | None \<Rightarrow> ([], g, False))"
  by pat_completeness auto

lemma held_some_buf [simp]: "g_buf (held_some k n g) = drop k (g_buf g)"
  by (simp add: held_some_def advance_def Let_def)

lemma min_pos: "n \<noteq> (0 :: u64) \<Longrightarrow> xs \<noteq> [] \<Longrightarrow> 0 < min (unat n) (length xs)"
  by (simp add: unat_gt_0)

termination drain
proof (relation "measures [\<lambda>g. length (g_buf g), \<lambda>g. turn_rank (g_state g), \<lambda>g. length (g_ready g)]")
  fix g :: guard and h
  assume "g_state g = Header_in" and "header (g_buf g) = Some h"
  then show "(decide h g, g) \<in> measures [\<lambda>g. length (g_buf g), \<lambda>g. turn_rank (g_state g), \<lambda>g. length (g_ready g)]"
    using decide_shrinks [of g h] by (auto simp: turn_rank_def)
next
  fix g :: guard and n :: u64
  assume "n \<noteq> 0" and "g_buf g \<noteq> []"
  then have "0 < min (unat n) (length (g_buf g))" by (rule min_pos)
  then show "(held_some (min (unat n) (length (g_buf g))) n g, g) \<in>
      measures [\<lambda>g. length (g_buf g), \<lambda>g. turn_rank (g_state g), \<lambda>g. length (g_ready g)]"
    by auto
qed (auto simp: advance_def turn_rank_def unat_gt_0 dest: min_pos)

declare drain.simps [simp del]

text \<open>The guard with more of the stream in its buffer.\<close>

definition onto :: "guard \<Rightarrow> bytes \<Rightarrow> guard" where
  "onto g bs = g\<lparr>g_buf := g_buf g @ bs\<rparr>"

lemma onto_fields [simp]:
  "g_buf (onto g bs) = g_buf g @ bs" "g_ready (onto g bs) = g_ready g"
  "g_state (onto g bs) = g_state g" "g_msg (onto g bs) = g_msg g" "g_hold (onto g bs) = g_hold g"
  "g_cap (onto g bs) = g_cap g" "g_release (onto g bs) = g_release g"
  "g_dropped (onto g bs) = g_dropped g"
  by (simp_all add: onto_def)

lemma onto_Nil [simp]: "onto g [] = g"
  by (simp add: onto_def)

lemma onto_onto: "onto (g\<lparr>g_buf := g_buf g @ a\<rparr>) b = onto g (a @ b)"
  by (simp add: onto_def)

lemma onto_updates:
  "(onto g bs)\<lparr>g_state := s\<rparr> = onto (g\<lparr>g_state := s\<rparr>) bs"
  "(onto g bs)\<lparr>g_msg := m\<rparr> = onto (g\<lparr>g_msg := m\<rparr>) bs"
  "(onto g bs)\<lparr>g_hold := h\<rparr> = onto (g\<lparr>g_hold := h\<rparr>) bs"
  "(onto g bs)\<lparr>g_ready := r\<rparr> = onto (g\<lparr>g_ready := r\<rparr>) bs"
  "(onto g bs)\<lparr>g_release := b\<rparr> = onto (g\<lparr>g_release := b\<rparr>) bs"
  "(onto g bs)\<lparr>g_dropped := d\<rparr> = onto (g\<lparr>g_dropped := d\<rparr>) bs"
  by (cases g; simp add: onto_def)+

lemma advance_onto: "k \<le> length (g_buf g) \<Longrightarrow> advance k (onto g bs) = onto (advance k g) bs"
  by (simp add: advance_def onto_def)

lemma release_hold_onto: "release_hold (onto g bs) = onto (release_hold g) bs"
  by (simp add: release_hold_def onto_updates)

lemma end_hold_onto: "end_hold (onto g bs) = onto (end_hold g) bs"
  by (simp add: end_hold_def release_hold_onto onto_updates Let_def)

lemma hold_frame_onto:
  "hd_size h \<le> length (g_buf g) \<Longrightarrow> hold_frame h (onto g bs) = onto (hold_frame h g) bs"
  by (simp add: hold_frame_def end_hold_onto advance_onto onto_updates Let_def)

lemma decide_onto:
  "hd_size h \<le> length (g_buf g) \<Longrightarrow> decide h (onto g bs) = onto (decide h g) bs"
  by (simp add: decide_def over_cap_def dropped_one_def advance_onto release_hold_onto
      hold_frame_onto onto_updates split: guard_msg.split option.split)

lemma nth_append_less: "i < length b \<Longrightarrow> (b @ c) ! i = b ! i"
  by (simp add: nth_append)

lemma length_field_append:
  "length_field b = Some r \<Longrightarrow> 2 \<le> length b \<Longrightarrow> length_field (b @ c) = Some r"
  by (auto simp: length_field_def nth_append Let_def split: if_splits)

lemma header_append: "header b = Some h \<Longrightarrow> header (b @ c) = Some h"
  by (auto simp: header_def nth_append Let_def split: if_splits option.splits
      dest: length_field_append [where c = c])

lemma illegal_append: "illegal_length b \<Longrightarrow> illegal_length (b @ c)"
  by (auto simp: illegal_length_def split: list.splits)

lemma illegal_header_append:
  assumes "header b = Some h" and "\<not> illegal_length b"
  shows "\<not> illegal_length (b @ c)"
proof -
  obtain x y r where b: "b = x # y # r" using header_size [OF assms(1)] by (cases b rule: remdups_adj.cases) auto
  show ?thesis
  proof (cases "y AND 0x7f = 127")
    case True
    then have "10 \<le> length b" using assms(1) b
      by (auto simp: header_def length_field_def split: if_splits)
    then obtain z s where "r = z # s" using b by (cases r) auto
    then show ?thesis using assms(2) b by (simp add: illegal_length_def)
  next
    case False
    then show ?thesis using b by (simp add: illegal_length_def split: list.splits)
  qed
qed

section \<open>A part of a frame now, the rest later\<close>

lemma word_minus_of_nat: "k \<le> unat (n :: u64) \<Longrightarrow> unat (n - of_nat k) = unat n - k"
proof -
  assume k: "k \<le> unat n"
  then have "k < 2 ^ 64" using unsigned_less [of n, where 'a = nat] by simp
  then have "unat (of_nat k :: u64) = k" by (simp add: unat_of_nat)
  with k show ?thesis by (simp add: unat_sub_if')
qed

lemma word_minus_pos: "k < unat (n :: u64) \<Longrightarrow> n - of_nat k \<noteq> 0"
  using word_minus_of_nat [of k n] by (metis diff_is_0_eq not_le unat_0 less_imp_le)

lemma drain_Pass:
  "g_ready g = [] \<Longrightarrow> g_state g = Pass n \<Longrightarrow> n \<noteq> 0 \<Longrightarrow> g_buf g \<noteq> [] \<Longrightarrow>
   K = min (unat n) (length (g_buf g)) \<Longrightarrow>
   drain g = emit (take K (g_buf g)) (drain ((advance K g)\<lparr>g_state := Pass (n - of_nat K)\<rparr>))"
  by (subst drain.simps) (simp add: Let_def)

lemma drain_Skip:
  "g_ready g = [] \<Longrightarrow> g_state g = Skip n \<Longrightarrow> n \<noteq> 0 \<Longrightarrow> g_buf g \<noteq> [] \<Longrightarrow>
   K = min (unat n) (length (g_buf g)) \<Longrightarrow>
   drain g = drain ((advance K g)\<lparr>g_state := Skip (n - of_nat K)\<rparr>)"
  by (subst drain.simps) (simp add: Let_def)

lemma drain_Hold:
  "g_ready g = [] \<Longrightarrow> g_state g = Hold n \<Longrightarrow> n \<noteq> 0 \<Longrightarrow> g_buf g \<noteq> [] \<Longrightarrow>
   K = min (unat n) (length (g_buf g)) \<Longrightarrow> drain g = drain (held_some K n g)"
  by (subst drain.simps) (simp add: Let_def)

lemma state_same: "g_state g = s \<Longrightarrow> (g :: guard)\<lparr>g_state := s\<rparr> = g"
  by (cases g) simp

lemma advance_0 [simp]: "advance 0 g = g"
  by (cases g) (simp add: advance_def)

lemma advance_advance: "advance j ((advance k g)\<lparr>g_state := s\<rparr>) = (advance (k + j) g)\<lparr>g_state := s\<rparr>"
  by (cases g) (simp add: advance_def add.commute)

lemma drain_pass:
  assumes "g_ready g = []" and "g_state g = Pass n" and "k \<le> unat n" and "k \<le> length (g_buf g)"
  shows "drain g = emit (take k (g_buf g)) (drain ((advance k g)\<lparr>g_state := Pass (n - of_nat k)\<rparr>))"
  (is "_ = emit _ (drain ?g')")
proof -
  let ?K = "min (unat n) (length (g_buf g))"
  consider "k = 0" | "0 < k" "k = ?K" | "0 < k" "k < ?K" using assms(3,4) by linarith
  then show ?thesis
  proof cases
    case 1
    then show ?thesis using assms(2) by (simp add: state_same)
  next
    case 2
    then have "n \<noteq> 0" "g_buf g \<noteq> []" by auto
    with 2 show ?thesis using assms(1,2) by (intro drain_Pass)
  next
    case 3
    then have k: "k < unat n" "k < length (g_buf g)" by simp_all
    have nz: "n - of_nat k \<noteq> 0" using k(1) by (rule word_minus_pos)
    have "drain ?g' = emit (take (?K - k) (g_buf ?g'))
        (drain ((advance (?K - k) ?g')\<lparr>g_state := Pass (n - of_nat k - of_nat (?K - k))\<rparr>))"
    proof (rule drain_Pass)
      show "?K - k = min (unat (n - of_nat k)) (length (g_buf ?g'))"
        using k word_minus_of_nat [of k n] by (simp add: advance_def)
    qed (use assms(1) nz k in \<open>simp_all add: advance_def\<close>)
    moreover have "n - of_nat k - of_nat (?K - k) = n - of_nat ?K"
      using 3 by (simp add: of_nat_diff del: of_nat_min)
    moreover have "take ?K (g_buf g) = take k (g_buf g) @ take (?K - k) (drop k (g_buf g))"
      using 3 by (simp flip: take_add)
    moreover have "drain g = emit (take ?K (g_buf g)) (drain ((advance ?K g)\<lparr>g_state := Pass (n - of_nat ?K)\<rparr>))"
      using assms(1,2) k by (intro drain_Pass) auto
    ultimately show ?thesis using 3
      by (simp add: emit_emit advance_advance advance_def del: of_nat_min)
  qed
qed

lemma drain_skip:
  assumes "g_ready g = []" and "g_state g = Skip n" and "k \<le> unat n" and "k \<le> length (g_buf g)"
  shows "drain g = drain ((advance k g)\<lparr>g_state := Skip (n - of_nat k)\<rparr>)"
  (is "_ = drain ?g'")
proof -
  let ?K = "min (unat n) (length (g_buf g))"
  consider "k = 0" | "0 < k" "k = ?K" | "0 < k" "k < ?K" using assms(3,4) by linarith
  then show ?thesis
  proof cases
    case 1
    then show ?thesis using assms(2) by (simp add: state_same)
  next
    case 2
    then have "n \<noteq> 0" "g_buf g \<noteq> []" by auto
    with 2 show ?thesis using assms(1,2) by (intro drain_Skip)
  next
    case 3
    then have k: "k < unat n" "k < length (g_buf g)" by simp_all
    have nz: "n - of_nat k \<noteq> 0" using k(1) by (rule word_minus_pos)
    have "drain ?g' =
        drain ((advance (?K - k) ?g')\<lparr>g_state := Skip (n - of_nat k - of_nat (?K - k))\<rparr>)"
    proof (rule drain_Skip)
      show "?K - k = min (unat (n - of_nat k)) (length (g_buf ?g'))"
        using k word_minus_of_nat [of k n] by (simp add: advance_def)
    qed (use assms(1) nz k in \<open>simp_all add: advance_def\<close>)
    moreover have "n - of_nat k - of_nat (?K - k) = n - of_nat ?K"
      using 3 by (simp add: of_nat_diff del: of_nat_min)
    moreover have "drain g = drain ((advance ?K g)\<lparr>g_state := Skip (n - of_nat ?K)\<rparr>)"
      using assms(1,2) k by (intro drain_Skip) auto
    ultimately show ?thesis using 3 by (simp add: advance_advance del: of_nat_min)
  qed
qed

lemma held_some_held_some:
  assumes "k < K" and "K \<le> unat n" and "K \<le> length (g_buf g)"
  shows "held_some (K - k) (n - of_nat k) (held_some k n g) = held_some K n g"
proof -
  have "unat (n - of_nat k) = unat n - k" using assms by (intro word_minus_of_nat) simp
  moreover have "n - of_nat k - of_nat (K - k) = n - of_nat K" using assms by (simp add: of_nat_diff)
  moreover have "take K (g_buf g) = take k (g_buf g) @ take (K - k) (drop k (g_buf g))"
    using assms by (simp flip: take_add)
  ultimately show ?thesis
    using assms by (cases g) (auto simp: held_some_def advance_def Let_def)
qed

lemma drain_hold:
  assumes "g_ready g = []" and "g_state g = Hold n" and "n \<noteq> 0" and "0 < k"
    and "k \<le> unat n" and "k \<le> length (g_buf g)"
  shows "drain g = drain (held_some k n g)"
proof -
  let ?K = "min (unat n) (length (g_buf g))"
  have K: "drain g = drain (held_some ?K n g)"
    using assms by (intro drain_Hold) auto
  show ?thesis
  proof (cases "k = ?K")
    case False
    then have k: "k < ?K" using assms(5,6) by linarith
    then have "drain (held_some k n g) = drain (held_some (?K - k) (n - of_nat k) (held_some k n g))"
      using assms(1) word_minus_of_nat [of k n] word_minus_pos [of k n]
      by (intro drain_Hold) (auto simp: held_some_def advance_def Let_def)
    also have "held_some (?K - k) (n - of_nat k) (held_some k n g) = held_some ?K n g"
      using k by (intro held_some_held_some) auto
    finally show ?thesis using K by simp
  qed (use K in simp)
qed

section \<open>Every poll hands on what is to come\<close>

fun arrived :: "arrival \<Rightarrow> bytes" where
  "arrived (Chunk bs) = bs"
| "arrived Not_yet = []"
| "arrived Lost = []"

definition stream_of :: "arrival list \<Rightarrow> bytes" where
  "stream_of io = concat (map arrived io)"

lemma io_read_stream:
  "io_read room io = (Ready (Ok bs), io') \<Longrightarrow> stream_of io = bs @ stream_of io'"
  "io_read room io = (Ready (Err e), io') \<Longrightarrow> stream_of io = stream_of io'"
  "io_read room io = (Pending_poll, io') \<Longrightarrow> stream_of io = stream_of io'"
  by (cases "(room, io)" rule: io_read.cases;
      auto simp: stream_of_def append_take_drop_id [symmetric] simp del: append_take_drop_id split: if_splits)+

lemma io_read_room: "io_read room io = (Ready (Ok bs), io') \<Longrightarrow> length bs \<le> room"
  by (cases "(room, io)" rule: io_read.cases) auto

fun handed :: "(read_error + bytes) poll \<Rightarrow> bytes" where
  "handed (Ready (Inr bs)) = bs"
| "handed (Ready (Inl e)) = []"
| "handed Pending_poll = []"

definition to_come :: "guard \<Rightarrow> arrival list \<Rightarrow> bytes \<times> guard \<times> bool" where
  "to_come g io = drain (onto g (stream_of io))"

lemma fill_Again:
  assumes "fill spare g io = Again g' io'"
  shows "to_come g' io' = to_come g io"
proof -
  obtain bs where "io_read (spare (g_buf g)) io = (Ready (Ok bs), io')" "g' = g\<lparr>g_buf := g_buf g @ bs\<rparr>"
    using assms by (auto simp: fill_def split: prod.splits poll.splits sum.splits if_splits)
  then show ?thesis using io_read_stream(1) by (simp add: to_come_def onto_onto)
qed

lemma fill_Over:
  assumes "fill spare g io = Over g' io' r"
  shows "to_come g io = emit (handed r) (to_come g' io')"
  using assms
  by (auto simp: fill_def to_come_def split: prod.splits poll.splits sum.splits if_splits
      dest: io_read_stream)

lemma pass_on_Over:
  assumes "pass_on room n g io = Over g' io' r"
    and "g_ready g = []" and "g_state g = Pass n" and "n \<noteq> 0"
  shows "to_come g io = emit (handed r) (to_come g' io')"
proof (cases "g_buf g = []")
  case False
  define k where "k = min (min (unat n) (length (g_buf g))) room"
  have r: "g' = (advance k g)\<lparr>g_state := Pass (n - of_nat k)\<rparr>" "io' = io"
      "handed r = take k (g_buf g)"
    using assms(1) False by (auto simp: pass_on_def k_def Let_def simp del: of_nat_min)
  have "drain (onto g (stream_of io)) =
      emit (take k (g_buf (onto g (stream_of io))))
        (drain ((advance k (onto g (stream_of io)))\<lparr>g_state := Pass (n - of_nat k)\<rparr>))"
    using assms(2,3) by (intro drain_pass) (auto simp: k_def)
  then show ?thesis
    using r by (simp add: to_come_def advance_onto onto_updates k_def)
next
  case True
  show ?thesis
  proof (cases "\<exists>bs. bs \<noteq> [] \<and> io_read (min (unat n) room) io = (Ready (Ok bs), io') \<and> room \<noteq> 0")
    case False
    then show ?thesis using assms(1) True
      by (auto simp: pass_on_def to_come_def split: prod.splits poll.splits sum.splits if_splits
          dest: io_read_stream)
  next
    case read: True
    then obtain bs where bs: "bs \<noteq> []" "io_read (min (unat n) room) io = (Ready (Ok bs), io')" "room \<noteq> 0"
      by blast
    then have r: "g' = g\<lparr>g_state := Pass (n - of_nat (length bs))\<rparr>" "handed r = bs"
      using assms(1) True by (auto simp: pass_on_def)
    have "drain (onto g (stream_of io)) =
        emit (take (length bs) (g_buf (onto g (stream_of io))))
          (drain ((advance (length bs) (onto g (stream_of io)))\<lparr>g_state := Pass (n - of_nat (length bs))\<rparr>))"
      using assms(2,3) True io_read_room [OF bs(2)] io_read_stream(1) [OF bs(2)]
      by (intro drain_pass) auto
    then show ?thesis using r True io_read_stream(1) [OF bs(2)]
      by (cases g) (simp add: to_come_def advance_def onto_def)
  qed
qed

lemma drain_ready:
  "g_ready g \<noteq> [] \<Longrightarrow> drain g = emit (g_ready g) (drain (g\<lparr>g_ready := []\<rparr>))"
  by (subst drain.simps) simp

lemma drain_ready_some:
  "drain g = emit (take k (g_ready g)) (drain (g\<lparr>g_ready := drop k (g_ready g)\<rparr>))"
proof (cases "g_ready g = []")
  case True
  then show ?thesis by (cases g) simp
next
  case False
  then show ?thesis
    using drain_ready [of g] drain_ready [of "g\<lparr>g_ready := drop k (g_ready g)\<rparr>"]
    by (cases "drop k (g_ready g) = []") (simp_all add: emit_emit)
qed

lemma guard_turn_Over:
  assumes "guard_turn spare room g io = Over g' io' r"
  shows "to_come g io = emit (handed r) (to_come g' io')"
proof (cases "g_ready g = []")
  case False
  then show ?thesis
    using assms drain_ready_some [of "onto g (stream_of io)" "min (length (g_ready g)) room"]
    by (auto simp: guard_turn_def to_come_def onto_updates Let_def)
next
  case True
  show ?thesis
  proof (cases "g_state g")
    case Header_in
    show ?thesis
    proof (cases "illegal_length (g_buf g)")
      case bad: True
      then have "illegal_length (g_buf g @ stream_of io)" by (rule illegal_append)
      then have "drain (onto g (stream_of io)) = ([], (onto g (stream_of io))\<lparr>g_hold := []\<rparr>, True)"
          "drain (onto (g\<lparr>g_hold := []\<rparr>) (stream_of io)) = ([], onto (g\<lparr>g_hold := []\<rparr>) (stream_of io), True)"
        using True Header_in by (subst drain.simps, simp add: onto_updates onto_def)+
      then show ?thesis
        using assms True Header_in bad by (auto simp: guard_turn_def to_come_def onto_updates)
    next
      case False
      then show ?thesis using assms True Header_in
        by (auto simp: guard_turn_def split: option.splits intro: fill_Over)
    qed
  qed (use assms True in \<open>auto simp: guard_turn_def Let_def split: if_splits
        intro: fill_Over pass_on_Over\<close>)
qed

lemma guard_turn_Again:
  assumes "guard_turn spare room g io = Again g' io'"
  shows "to_come g' io' = to_come g io"
proof (cases "g_ready g = []")
  case False
  then show ?thesis using assms by (simp add: guard_turn_def Let_def)
next
  case ready: True
  show ?thesis
  proof (cases "g_state g")
    case Header_in
    show ?thesis
    proof (cases "header (g_buf g)")
      case None
      then show ?thesis using assms ready Header_in
        by (auto simp: guard_turn_def split: if_splits intro: fill_Again)
    next
      case (Some h)
      then have "g' = decide h g" "io' = io" and legal: "\<not> illegal_length (g_buf g)"
        using assms ready Header_in by (auto simp: guard_turn_def split: if_splits)
      moreover have "drain (onto g (stream_of io)) = drain (decide h (onto g (stream_of io)))"
        using ready Header_in header_append [OF Some] illegal_header_append [OF Some legal]
        by (subst drain.simps) simp
      ultimately show ?thesis
        using decide_onto header_size [OF Some] by (simp add: to_come_def)
    qed
  next
    case (Pass n)
    then show ?thesis using assms ready
      by (auto simp: guard_turn_def pass_on_def to_come_def onto_updates Let_def drain.simps [of "onto g b" for b]
          split: if_splits prod.splits poll.splits sum.splits)
  next
    case (Hold n)
    show ?thesis
    proof (cases "n = 0 \<or> g_buf g = []")
      case True
      moreover have "n = 0 \<Longrightarrow> to_come g' io' = to_come g io"
        using assms ready Hold
        by (auto simp: guard_turn_def to_come_def end_hold_onto drain.simps [of "onto g b" for b])
      moreover have "n \<noteq> 0 \<Longrightarrow> g_buf g = [] \<Longrightarrow> to_come g' io' = to_come g io"
        using assms ready Hold by (auto simp: guard_turn_def intro: fill_Again)
      ultimately show ?thesis by blast
    next
      case False
      define k where "k = min (unat n) (length (g_buf g))"
      have g': "g' = held_some k n g" "io' = io"
        using assms ready Hold False
        by (simp_all add: guard_turn_def held_some_def k_def Let_def del: of_nat_min)
      have "0 < k" unfolding k_def by (rule min_pos) (use False in auto)
      then have "drain (onto g (stream_of io)) = drain (held_some k n (onto g (stream_of io)))"
        using ready Hold False by (intro drain_hold) (auto simp: k_def)
      moreover have "held_some k n (onto g (stream_of io)) = onto (held_some k n g) (stream_of io)"
        by (simp add: held_some_def advance_onto onto_updates end_hold_onto k_def Let_def)
      ultimately show ?thesis using g' by (simp add: to_come_def)
    qed
  next
    case (Skip n)
    show ?thesis
    proof (cases "n = 0 \<or> g_buf g = []")
      case True
      moreover have "n = 0 \<Longrightarrow> to_come g' io' = to_come g io"
        using assms ready Skip
        by (auto simp: guard_turn_def to_come_def onto_updates drain.simps [of "onto g b" for b])
      moreover have "n \<noteq> 0 \<Longrightarrow> g_buf g = [] \<Longrightarrow> to_come g' io' = to_come g io"
        using assms ready Skip by (auto simp: guard_turn_def intro: fill_Again)
      ultimately show ?thesis by blast
    next
      case False
      define k where "k = min (unat n) (length (g_buf g))"
      have "g' = (advance k g)\<lparr>g_state := Skip (n - of_nat k)\<rparr>" "io' = io"
        using assms ready Skip False by (simp_all add: guard_turn_def k_def Let_def del: of_nat_min)
      moreover have "drain (onto g (stream_of io)) =
          drain ((advance k (onto g (stream_of io)))\<lparr>g_state := Skip (n - of_nat k)\<rparr>)"
        using ready Skip by (intro drain_skip) (auto simp: k_def)
      ultimately show ?thesis by (simp add: to_come_def advance_onto onto_updates k_def)
    qed
  qed
qed

lemma poll_read_drains:
  "poll_read spare room g io = (r, g', io') \<Longrightarrow> to_come g io = emit (handed r) (to_come g' io')"
proof (induction spare room g io rule: poll_read.induct)
  case (1 spare room g io)
  then show ?case
    by (subst (asm) (2) poll_read.simps)
      (auto split: turn.splits dest: guard_turn_Again guard_turn_Over)
qed

section \<open>Reading a socket to its end\<close>

fun polls ::
  "(bytes \<Rightarrow> nat) \<Rightarrow> nat list \<Rightarrow> guard \<Rightarrow> arrival list \<Rightarrow>
   (read_error + bytes) poll list \<times> guard \<times> arrival list"
where
  "polls spare [] g io = ([], g, io)"
| "polls spare (room # rooms) g io =
     (case poll_read spare room g io of (r, g1, io1) \<Rightarrow>
      case polls spare rooms g1 io1 of (rs, g2, io2) \<Rightarrow> (r # rs, g2, io2))"

lemma polls_drain:
  "polls spare rooms g io = (rs, g', io') \<Longrightarrow>
   to_come g io = emit (concat (map handed rs)) (to_come g' io')"
proof (induction rooms arbitrary: g io rs)
  case (Cons room rooms)
  then show ?case
    by (fastforce simp: emit_emit split: prod.splits dest!: poll_read_drains)
qed simp

text \<open>A socket that always has something to read, until its end.\<close>

definition flowing :: "arrival list \<Rightarrow> bool" where
  "flowing io \<longleftrightarrow> (\<forall>a\<in>set io. case a of Chunk bs \<Rightarrow> bs \<noteq> [] | _ \<Rightarrow> False)"

lemma flowing_read:
  assumes "flowing io" and "io_read room io = (r, io')" and "0 < room"
  shows "flowing io' \<and> (\<exists>bs. r = Ready (Ok bs) \<and> (bs = [] \<longrightarrow> io = [] \<and> io' = []))"
  using assms by (cases "(room, io)" rule: io_read.cases) (auto simp: flowing_def split: if_splits)

lemma drain_stuck:
  "g_ready g = [] \<Longrightarrow> g_buf g = [] \<Longrightarrow> (case g_state g of Header_in \<Rightarrow> True | Pass n \<Rightarrow> n \<noteq> 0
     | Hold n \<Rightarrow> n \<noteq> 0 | Skip n \<Rightarrow> n \<noteq> 0) \<Longrightarrow> drain g = ([], g, False)"
  by (subst drain.simps) (auto simp: illegal_length_def header_def split: guard_in.splits)

lemma drain_header_stuck:
  "g_ready g = [] \<Longrightarrow> g_state g = Header_in \<Longrightarrow> header (g_buf g) = None \<Longrightarrow>
   \<not> illegal_length (g_buf g) \<Longrightarrow> drain g = ([], g, False)"
  by (subst drain.simps) simp

text \<open>A poll that handed on nothing: nothing is to come, and it failed if the guard refused.\<close>

definition nothing_to_come :: "(read_error + bytes) poll \<Rightarrow> guard \<Rightarrow> arrival list \<Rightarrow> bool" where
  "nothing_to_come r g io \<longleftrightarrow>
     fst (to_come g io) = [] \<and> g_dropped (fst (snd (to_come g io))) = g_dropped g \<and>
     (snd (snd (to_come g io)) \<longleftrightarrow> r = Ready (Err Frame_refused))"

lemma guard_turn_flowing:
  assumes "flowing io" and "\<And>b. 0 < spare b" and "0 < room"
  shows "guard_turn spare room g io = Again g' io' \<Longrightarrow> flowing io'"
    and "guard_turn spare room g io = Over g' io' r \<Longrightarrow>
         flowing io' \<and> (handed r = [] \<longrightarrow> nothing_to_come r g' io')"
proof -
  assume "guard_turn spare room g io = Again g' io'"
  then show "flowing io'" using assms flowing_read [OF assms(1)]
    by (fastforce simp: guard_turn_def fill_def pass_on_def Let_def
        split: if_splits guard_in.splits prod.splits poll.splits sum.splits option.splits)
next
  assume over: "guard_turn spare room g io = Over g' io' r"
  have fill: "flowing io' \<and> (handed r = [] \<longrightarrow> nothing_to_come r g' io')"
    if "fill spare g io = Over g' io' r" and "g_ready g = []"
      and "g_buf g = [] \<and> (case g_state g of Header_in \<Rightarrow> True | Pass n \<Rightarrow> n \<noteq> 0 | Hold n \<Rightarrow> n \<noteq> 0 | Skip n \<Rightarrow> n \<noteq> 0) \<or>
           g_state g = Header_in \<and> header (g_buf g) = None \<and> \<not> illegal_length (g_buf g)"
    using that flowing_read [OF assms(1), of "spare (g_buf g)"] assms(2)
    by (auto simp: fill_def nothing_to_come_def to_come_def stream_of_def drain_stuck drain_header_stuck
        split: prod.splits poll.splits sum.splits if_splits)
  have pass: "flowing io' \<and> (handed r = [] \<longrightarrow> nothing_to_come r g' io')"
    if "pass_on room n g io = Over g' io' r" and "g_ready g = []" and "g_state g = Pass n" and "n \<noteq> 0" for n
  proof (cases "g_buf g = []")
    case False
    then have "take (min (min (unat n) (length (g_buf g))) room) (g_buf g) \<noteq> []"
      using assms(3) that(4) by (simp add: unat_gt_0)
    moreover have "handed r = take (min (min (unat n) (length (g_buf g))) room) (g_buf g)" "io' = io"
      using that False by (auto simp: pass_on_def Let_def)
    ultimately show ?thesis using assms(1) by metis
  next
    case True
    have "0 < min (unat n) room" using assms(3) that(4) by (simp add: unat_gt_0)
    then show ?thesis
      using that True flowing_read [OF assms(1), of "min (unat n) room"] assms(3)
      by (auto simp: pass_on_def nothing_to_come_def to_come_def stream_of_def drain_stuck
          split: prod.splits poll.splits sum.splits if_splits)
  qed
  show "flowing io' \<and> (handed r = [] \<longrightarrow> nothing_to_come r g' io')"
  proof (cases "g_ready g = []")
    case False
    then have "take (min (length (g_ready g)) room) (g_ready g) \<noteq> []" using assms(3) by simp
    moreover have "handed r = take (min (length (g_ready g)) room) (g_ready g)" "io' = io"
      using over False by (auto simp: guard_turn_def Let_def)
    ultimately show ?thesis using assms(1) by metis
  next
    case ready: True
    show ?thesis
    proof (cases "g_state g")
      case Header_in
      show ?thesis
      proof (cases "illegal_length (g_buf g)")
        case True
        then have "drain (onto (g\<lparr>g_hold := []\<rparr>) (stream_of io)) =
            ([], (onto (g\<lparr>g_hold := []\<rparr>) (stream_of io))\<lparr>g_hold := []\<rparr>, True)"
          using ready Header_in illegal_append by (subst drain.simps) simp
        then show ?thesis using over ready Header_in True assms(1)
          by (auto simp: guard_turn_def nothing_to_come_def to_come_def)
      next
        case False
        then show ?thesis using over ready Header_in fill
          by (auto simp: guard_turn_def split: option.splits)
      qed
    next
      case (Pass n)
      then show ?thesis using over ready pass by (auto simp: guard_turn_def split: if_splits)
    next
      case (Hold n)
      then show ?thesis using over ready fill by (auto simp: guard_turn_def Let_def split: if_splits)
    next
      case (Skip n)
      then show ?thesis using over ready fill by (auto simp: guard_turn_def Let_def split: if_splits)
    qed
  qed
qed

lemma poll_read_flowing:
  "poll_read spare room g io = (r, g', io') \<Longrightarrow> flowing io \<Longrightarrow> (\<And>b. 0 < spare b) \<Longrightarrow> 0 < room \<Longrightarrow>
   flowing io' \<and> (handed r = [] \<longrightarrow> nothing_to_come r g' io')"
proof (induction spare room g io rule: poll_read.induct)
  case (1 spare room g io)
  then show ?case
    by (subst (asm) (2) poll_read.simps)
      (auto split: turn.splits dest: guard_turn_flowing)
qed

lemma polls_length: "polls spare rooms g io = (rs, g', io') \<Longrightarrow> length rs = length rooms"
  by (induction rooms arbitrary: g io rs) (auto split: prod.splits)

lemma polls_all:
  assumes "polls spare rooms g io = (rs, g', io')" and "flowing io" and "\<And>b. 0 < spare b"
    and "\<forall>room\<in>set rooms. 0 < room" and "length (fst (to_come g io)) < length rooms"
  shows "concat (map handed rs) = fst (to_come g io) \<and>
         g_dropped g' = g_dropped (fst (snd (to_come g io))) \<and>
         (last rs = Ready (Err Frame_refused) \<longleftrightarrow> snd (snd (to_come g io)))"
  using assms
proof (induction rooms arbitrary: g io rs)
  case (Cons room rooms)
  obtain r g1 io1 where p: "poll_read spare room g io = (r, g1, io1)"
    by (cases "poll_read spare room g io") auto
  obtain rs' where rs: "polls spare rooms g1 io1 = (rs', g', io')" "rs = r # rs'"
    using Cons.prems(1) p by (auto split: prod.splits)
  have out: "to_come g io = emit (handed r) (to_come g1 io1)"
    using poll_read_drains [OF p] by simp
  have f: "flowing io1" "handed r = [] \<longrightarrow> nothing_to_come r g1 io1"
    using poll_read_flowing [OF p Cons.prems(2,3)] Cons.prems(4) by auto
  show ?case
  proof (cases "rooms = []")
    case True
    then have "handed r = []" using Cons.prems(5) out by (simp add: fst_emit)
    then show ?thesis using True f(2) out rs by (auto simp: nothing_to_come_def)
  next
    case False
    then have ne: "rs' \<noteq> []" using polls_length [OF rs(1)] by auto
    have "length (fst (to_come g1 io1)) < length rooms"
      using False f(2) Cons.prems(5) out
      by (cases "handed r") (auto simp: nothing_to_come_def fst_emit)
    then show ?thesis
      using Cons.IH [OF rs(1) f(1) Cons.prems(3)] Cons.prems(4) out rs ne by (simp add: fst_emit)
  qed
qed simp

end
