(* ===== verification/Guard_Frames.thy ===== *)
theory Guard_Frames
  imports Guard_Stream
begin

text \<open>
  The guard's contract, over frames and then over messages: \<open>frame_step\<close> says what becomes of
  each frame, and \<open>items_out\<close> what becomes of a client's messages. The byte-level reader
  refines both.
\<close>

section \<open>Frames on the wire\<close>

record frame =
  fr_head :: bytes
  fr_payload :: bytes

definition wire :: "frame \<Rightarrow> bytes" where
  "wire f = fr_head f @ fr_payload f"

definition frame_header :: "frame \<Rightarrow> header" where
  "frame_header f = the (header (fr_head f))"

definition wf_frame :: "frame \<Rightarrow> bool" where
  "wf_frame f \<longleftrightarrow> \<not> illegal_length (fr_head f) \<and>
     (case header (fr_head f) of
        None \<Rightarrow> False
      | Some h \<Rightarrow> hd_size h = length (fr_head f) \<and> unat (hd_len h) = length (fr_payload f))"

definition is_control :: "frame \<Rightarrow> bool" where
  "is_control f \<longleftrightarrow> hd_opcode (frame_header f) AND 0x08 \<noteq> 0"

definition is_continuation :: "frame \<Rightarrow> bool" where
  "is_continuation f \<longleftrightarrow> hd_opcode (frame_header f) = 0"

definition is_last :: "frame \<Rightarrow> bool" where
  "is_last f \<longleftrightarrow> hd_fin (frame_header f)"

definition payload_len :: "frame \<Rightarrow> nat" where
  "payload_len f = length (fr_payload f)"

lemma wf_frameD:
  "wf_frame f \<Longrightarrow> header (fr_head f) = Some (frame_header f)"
  "wf_frame f \<Longrightarrow> hd_size (frame_header f) = length (fr_head f)"
  "wf_frame f \<Longrightarrow> unat (hd_len (frame_header f)) = payload_len f"
  "wf_frame f \<Longrightarrow> \<not> illegal_length (fr_head f)"
  by (auto simp: wf_frame_def frame_header_def payload_len_def split: option.splits)

text \<open>A length that is not refused is below \<open>2 ^ 63\<close>: no sum the guard makes wraps.\<close>

lemma be_value_snoc: "be_value (bs @ [b]) = be_value bs * 256 + unat b"
  by (simp add: be_value_def)

lemma be_value_less: "be_value bs < 256 ^ length bs"
proof (induction bs rule: rev_induct)
  case (snoc b bs)
  have "unat b < 256" using unsigned_less [of b, where 'a = nat] by simp
  with snoc have "be_value bs * 256 + unat b < (be_value bs + 1) * 256" by simp
  also have "\<dots> \<le> 256 ^ length bs * 256" using snoc by (intro mult_le_mono1) simp
  finally show ?case by (simp add: be_value_snoc mult.commute)
qed (simp add: be_value_def)

lemma be_value_Cons: "be_value (b # bs) = unat b * 256 ^ length bs + be_value bs"
proof (induction bs rule: rev_induct)
  case (snoc c bs)
  have "be_value (b # bs @ [c]) = be_value (b # bs) * 256 + unat c"
    using be_value_snoc [of "b # bs" c] by simp
  with snoc show ?case by (simp add: be_value_snoc algebra_simps)
qed (simp add: be_value_def)

lemma top_bit_clear: "(b :: u8) AND 0x80 = 0 \<Longrightarrow> unat b < 128"
proof -
  assume a: "b AND 0x80 = 0"
  have "\<not> bit b 7"
  proof
    assume "bit b 7"
    then have "bit (b AND 0x80) 7" by (simp add: bit_and_iff)
    with a show False by simp
  qed
  then have "take_bit 7 b = b"
    by (intro bit_word_eqI) (auto simp: bit_take_bit_iff less_Suc_eq numeral_eq_Suc)
  then have "take_bit 7 (unat b) = unat b" by (metis unsigned_take_bit_eq)
  then show ?thesis using take_bit_nat_less_exp [of 7 "unat b"] by simp
qed

lemma legal_length_bound:
  assumes "header b = Some h" and "\<not> illegal_length b"
  shows "unat (hd_len h) < 2 ^ 63"
proof -
  obtain n where lf: "length_field b = Some (hd_len h, n)" and len: "2 \<le> length b"
    using assms(1) by (auto simp: header_def Let_def split: if_splits option.splits)
  consider (two) "(b ! 1) AND 0x7f = 126" | (eight) "(b ! 1) AND 0x7f = 127"
    | (small) "(b ! 1) AND 0x7f \<noteq> 126" "(b ! 1) AND 0x7f \<noteq> 127" by blast
  then show ?thesis
  proof cases
    case two
    then have "hd_len h = of_nat (be_value (take 2 (drop 2 b)))" "4 \<le> length b"
      using lf by (auto simp: length_field_def Let_def split: if_splits)
    moreover have "be_value (take 2 (drop 2 b)) < 256 ^ 2"
      using be_value_less [of "take 2 (drop 2 b)"] \<open>4 \<le> length b\<close> by simp
    ultimately show ?thesis by (simp add: unat_of_nat)
  next
    case eight
    then have l: "hd_len h = of_nat (be_value (take 8 (drop 2 b)))" "10 \<le> length b"
      using lf by (auto simp: length_field_def Let_def split: if_splits)
    then obtain x y z r where b: "b = x # y # z # r" "9 \<le> length (y # z # r)"
      by (cases b; cases "tl b"; cases "tl (tl b)") auto
    then have "unat z < 128" using eight assms(2) by (intro top_bit_clear) (simp add: illegal_length_def)
    moreover have "be_value (take 7 r) < 256 ^ 7"
      using be_value_less [of "take 7 r"] b l(2) by simp
    moreover have "be_value (z # take 7 r) = unat z * 256 ^ 7 + be_value (take 7 r)"
      using be_value_Cons [of z "take 7 r"] b l(2) by simp
    moreover have "take 8 (drop 2 b) = z # take 7 r" using b by simp
    ultimately have "be_value (take 8 (drop 2 b)) < 2 ^ 63" by simp
    then show ?thesis using l(1) by (simp add: unat_of_nat)
  next
    case small
    then have "hd_len h = ucast ((b ! 1) AND 0x7f)"
      using lf by (auto simp: length_field_def Let_def)
    then show ?thesis
      using unsigned_less [of "(b ! 1) AND 0x7f", where 'a = nat]
      by (simp add: unsigned_ucast_eq take_bit_nat_eq_self)
  qed
qed

lemma total_exact:
  assumes "wf_frame f"
  shows "unat (total (frame_header f)) = length (wire f)"
proof -
  let ?h = "frame_header f"
  have "unat (hd_len ?h) < 2 ^ 63" and "hd_size ?h \<le> 14"
    using legal_length_bound wf_frameD(1,4) header_size assms by blast+
  moreover from this have "unat (of_nat (hd_size ?h) :: u64) = hd_size ?h"
    by (simp add: unat_of_nat)
  ultimately show ?thesis
    using wf_frameD(2,3) [OF assms]
    by (simp add: total_def saturating_add_def u64_max_def unat_word_ariths wire_def payload_len_def)
qed

section \<open>What becomes of a frame\<close>

datatype filtering = Between | Held bytes nat | Dropping

definition frame_step :: "nat \<Rightarrow> filtering \<times> nat \<Rightarrow> frame \<Rightarrow> (filtering \<times> nat) \<times> bytes" where
  "frame_step cap s f =
     (case s of (st, dropped) \<Rightarrow>
      if is_control f then (s, wire f)
      else if is_continuation f then
        (case st of
           Between \<Rightarrow> (s, wire f)
         | Dropping \<Rightarrow> ((if is_last f then Between else Dropping, dropped), [])
         | Held hold n \<Rightarrow>
             if cap < n + payload_len f
             then ((if is_last f then Between else Dropping, dropped + 1), [])
             else if is_last f then ((Between, dropped), hold @ wire f)
             else ((Held (hold @ wire f) (n + payload_len f), dropped), []))
      else
        (case st of
           Between \<Rightarrow>
             if cap < payload_len f
             then ((if is_last f then Between else Dropping, dropped + 1), [])
             else if is_last f then (s, wire f)
             else ((Held (wire f) (payload_len f), dropped), [])
         | Dropping \<Rightarrow> ((Between, dropped), wire f)
         | Held hold n \<Rightarrow> ((Between, dropped), hold @ wire f)))"

fun frames_out :: "nat \<Rightarrow> filtering \<times> nat \<Rightarrow> frame list \<Rightarrow> bytes \<times> filtering \<times> nat" where
  "frames_out cap s [] = ([], s)"
| "frames_out cap s (f # fs) =
     (case frame_step cap s f of (s1, out) \<Rightarrow>
      case frames_out cap s1 fs of (outs, s2) \<Rightarrow> (out @ outs, s2))"

text \<open>The guard stands at a frame's header, in the state the filter is in.\<close>

fun stands :: "guard \<Rightarrow> filtering \<Rightarrow> bool" where
  "stands g Between \<longleftrightarrow> g_msg g = No_msg"
| "stands g Dropping \<longleftrightarrow> g_msg g = Skipping"
| "stands g (Held hold n) \<longleftrightarrow>
     (\<exists>len. g_msg g = Holding len \<and> unat len = n) \<and> n \<le> unat (g_cap g) \<and> g_hold g = hold"

definition at_header :: "guard \<Rightarrow> filtering \<times> nat \<Rightarrow> bool" where
  "at_header g s \<longleftrightarrow>
     g_ready g = [] \<and> g_state g = Header_in \<and> stands g (fst s) \<and> g_dropped g = snd s"

lemma drain_pass_all:
  assumes "g_ready g = []" and "g_state g = Pass n" and "g_buf g = a @ rest" and "length a = unat n"
  shows "drain g = emit a (drain (g\<lparr>g_buf := rest, g_state := Header_in\<rparr>))"
proof -
  have "drain g = emit a (drain ((advance (unat n) g)\<lparr>g_state := Pass 0\<rparr>))"
    using drain_pass [of g n "unat n"] assms by simp
  also have "drain ((advance (unat n) g)\<lparr>g_state := Pass 0\<rparr>) = drain (g\<lparr>g_buf := rest, g_state := Header_in\<rparr>)"
    using assms by (subst drain.simps) (simp add: advance_def)
  finally show ?thesis .
qed

lemma drain_skip_all:
  assumes "g_ready g = []" and "g_state g = Skip n" and "g_buf g = a @ rest" and "length a = unat n"
  shows "drain g = drain (g\<lparr>g_buf := rest, g_state := Header_in\<rparr>)"
proof -
  have "drain g = drain ((advance (unat n) g)\<lparr>g_state := Skip 0\<rparr>)"
    using drain_skip [of g n "unat n"] assms by simp
  also have "\<dots> = drain (g\<lparr>g_buf := rest, g_state := Header_in\<rparr>)"
    using assms by (subst drain.simps) (simp add: advance_def)
  finally show ?thesis .
qed

lemma end_hold_same:
  "end_hold (g\<lparr>g_state := s\<rparr>) = end_hold g"
  by (cases g) (simp add: end_hold_def release_hold_def Let_def)

lemma drain_hold_frame:
  assumes "g_ready g = []" and "g_buf g = head @ payload @ rest"
    and "hd_size h = length head" and "unat (hd_len h) = length payload"
  shows "drain (hold_frame h g) =
    drain (end_hold (g\<lparr>g_buf := rest, g_hold := g_hold g @ head @ payload, g_release := hd_fin h\<rparr>))"
proof (cases "hd_len h = 0")
  case True
  then have "payload = []" using assms(4) by simp
  then show ?thesis using assms True
    by (cases g) (simp add: hold_frame_def advance_def end_hold_def release_hold_def Let_def)
next
  case False
  then have p: "0 < length payload" using assms(4) by (metis gr0I unat_eq_zero)
  have "drain (hold_frame h g) = drain (held_some (length payload) (hd_len h) (hold_frame h g))"
    using assms False p by (intro drain_hold) (auto simp: hold_frame_def advance_def Let_def)
  moreover have "held_some (length payload) (hd_len h) (hold_frame h g) =
      end_hold (g\<lparr>g_buf := rest, g_hold := g_hold g @ head @ payload, g_release := hd_fin h\<rparr>)"
    using assms False
    by (cases g) (simp add: held_some_def hold_frame_def advance_def end_hold_def release_hold_def Let_def)
  ultimately show ?thesis by simp
qed

lemma drain_decide:
  assumes "at_header g s" and "wf_frame f" and "g_buf g = wire f @ rest"
  shows "drain g = drain (decide (frame_header f) g)"
proof -
  have "header (g_buf g) = Some (frame_header f)" and "\<not> illegal_length (g_buf g)"
    using assms wf_frameD header_append illegal_header_append by (simp_all add: wire_def)
  then show ?thesis using assms(1) by (subst drain.simps) (simp add: at_header_def)
qed

lemma drain_passed:
  assumes "wf_frame f" and "g_buf g = wire f @ rest" and "g_state g = Pass (total (frame_header f))"
  shows "drain g = emit (g_ready g @ wire f) (drain (g\<lparr>g_ready := [], g_buf := rest, g_state := Header_in\<rparr>))"
proof -
  let ?g = "g\<lparr>g_ready := []\<rparr>"
  have "drain ?g = emit (wire f) (drain (?g\<lparr>g_buf := rest, g_state := Header_in\<rparr>))"
    using assms total_exact [OF assms(1)] by (intro drain_pass_all) auto
  then show ?thesis
    using drain_ready_some [of g "length (g_ready g)"] by (simp add: emit_emit)
qed

text \<open>The frame's three fates, as the guard's next stand at a header.\<close>

definition next_stand :: "guard \<Rightarrow> frame \<Rightarrow> bytes \<Rightarrow> filtering \<times> nat \<Rightarrow> bytes \<Rightarrow> bool" where
  "next_stand g f rest s out \<longleftrightarrow>
     (\<exists>g'. drain g = emit out (drain g') \<and> at_header g' s \<and> g_buf g' = rest \<and> g_cap g' = g_cap g)"

lemma next_standI:
  "drain g = emit out (drain g') \<Longrightarrow> at_header g' s \<Longrightarrow> g_buf g' = rest \<Longrightarrow> g_cap g' = g_cap g \<Longrightarrow>
   next_stand g f rest s out"
  by (auto simp: next_stand_def)

lemma frame_passed:
  assumes "at_header g s" and "wf_frame f" and "g_buf g = wire f @ rest"
    and "decide (frame_header f) g = g\<lparr>g_msg := m, g_state := Pass (total (frame_header f))\<rparr>"
    and "stands (g\<lparr>g_msg := m\<rparr>) st" and "d = snd s"
  shows "next_stand g f rest (st, d) (wire f)"
proof (rule next_standI)
  show "drain g = emit (wire f) (drain (g\<lparr>g_msg := m, g_ready := [], g_buf := rest, g_state := Header_in\<rparr>))"
    using drain_decide [OF assms(1-3)] assms(1,4)
      drain_passed [OF assms(2), of "g\<lparr>g_msg := m, g_state := Pass (total (frame_header f))\<rparr>" rest]
      assms(3) by (cases g) (simp add: at_header_def)
qed (use assms in \<open>cases st; auto simp: at_header_def\<close>)+

lemma frame_skipped:
  assumes "at_header g s" and "wf_frame f" and "g_buf g = wire f @ rest"
    and "decide (frame_header f) g =
      (advance (hd_size (frame_header f)) g)
        \<lparr>g_hold := h, g_state := Skip (hd_len (frame_header f)), g_msg := m, g_dropped := d\<rparr>"
    and "st = (if m = No_msg then Between else Dropping)" and "m \<noteq> No_msg \<Longrightarrow> m = Skipping"
  shows "next_stand g f rest (st, d) []"
proof (rule next_standI)
  let ?g = "(advance (hd_size (frame_header f)) g)
        \<lparr>g_hold := h, g_state := Skip (hd_len (frame_header f)), g_msg := m, g_dropped := d\<rparr>"
  have "drain ?g = drain (?g\<lparr>g_buf := rest, g_state := Header_in\<rparr>)"
    using assms(1,3) wf_frameD(2,3) [OF assms(2)]
    by (intro drain_skip_all [where a = "fr_payload f"])
      (auto simp: at_header_def advance_def wire_def payload_len_def)
  then show "drain g = emit [] (drain (?g\<lparr>g_buf := rest, g_state := Header_in\<rparr>))"
    using drain_decide [OF assms(1-3)] assms(4) by simp
qed (use assms in \<open>auto simp: at_header_def advance_def\<close>)+

lemma frame_held:
  assumes "at_header g s" and "wf_frame f" and "g_buf g = wire f @ rest"
    and "decide (frame_header f) g =
      hold_frame (frame_header f) (g\<lparr>g_hold := hold, g_msg := Holding len\<rparr>)"
    and "unat len \<le> unat (g_cap g)" and "d = snd s"
  shows "next_stand g f rest
    (if is_last f then Between else Held (hold @ wire f) (unat len), d)
    (if is_last f then hold @ wire f else [])"
proof -
  let ?g = "g\<lparr>g_hold := hold, g_msg := Holding len\<rparr>"
  let ?g1 = "?g\<lparr>g_buf := rest, g_hold := hold @ wire f, g_release := is_last f\<rparr>"
  have "drain (hold_frame (frame_header f) ?g) = drain (end_hold ?g1)"
    using drain_hold_frame [of ?g "fr_head f" "fr_payload f" rest "frame_header f"] assms(1,3)
      wf_frameD(2,3) [OF assms(2)]
    by (simp add: at_header_def wire_def is_last_def payload_len_def)
  then have d: "drain g = drain (end_hold ?g1)"
    using drain_decide [OF assms(1-3)] assms(4) by simp
  show ?thesis
  proof (cases "is_last f")
    case False
    show ?thesis
    proof (rule next_standI)
      show "drain g = emit (if is_last f then hold @ wire f else []) (drain (end_hold ?g1))"
        using d False by simp
    qed (use False assms in \<open>auto simp: at_header_def end_hold_def Let_def\<close>)
  next
    case True
    have r: "g_ready (end_hold ?g1) = hold @ wire f"
      using True assms(1) by (simp add: end_hold_def release_hold_def at_header_def Let_def)
    show ?thesis
    proof (rule next_standI)
      show "drain g = emit (if is_last f then hold @ wire f else []) (drain ((end_hold ?g1)\<lparr>g_ready := []\<rparr>))"
        using d True r drain_ready_some [of "end_hold ?g1" "length (hold @ wire f)"] by simp
    qed (use True assms in \<open>auto simp: at_header_def end_hold_def release_hold_def Let_def\<close>)
  qed
qed

lemma frame_released:
  assumes "at_header g s" and "wf_frame f" and "g_buf g = wire f @ rest"
    and "decide (frame_header f) g =
      (release_hold g)\<lparr>g_msg := No_msg, g_state := Pass (total (frame_header f))\<rparr>"
    and "g_hold g = hold" and "d = snd s"
  shows "next_stand g f rest (Between, d) (hold @ wire f)"
proof (rule next_standI)
  let ?g = "(release_hold g)\<lparr>g_msg := No_msg, g_state := Pass (total (frame_header f))\<rparr>"
  have "drain ?g = emit (g_ready ?g @ wire f) (drain (?g\<lparr>g_ready := [], g_buf := rest, g_state := Header_in\<rparr>))"
    using assms(2,3) by (intro drain_passed) (auto simp: release_hold_def)
  then show "drain g = emit (hold @ wire f) (drain (?g\<lparr>g_ready := [], g_buf := rest, g_state := Header_in\<rparr>))"
    using drain_decide [OF assms(1-3)] assms(1,4,5) by (simp add: release_hold_def at_header_def)
qed (use assms in \<open>auto simp: at_header_def release_hold_def\<close>)+

lemma keep_fields:
  "(g :: guard)\<lparr>g_msg := g_msg g\<rparr> = g" "g\<lparr>g_hold := g_hold g\<rparr> = g"
  "g\<lparr>g_dropped := g_dropped g\<rparr> = g"
  by (cases g; simp)+

lemma checked_total:
  assumes "unat len \<le> unat (g_cap g)"
  shows "Option.bind (checked_add len n) (\<lambda>t. if over_cap g t then None else Some t) =
    (if unat (g_cap g) < unat len + unat n then None else Some (len + n))"
proof (cases "unat len + unat n \<le> u64_max")
  case True
  then have "unat (len + n) = unat len + unat n" by (simp add: u64_max_def unat_word_ariths)
  then show ?thesis using True by (simp add: checked_add_def over_cap_def word_less_nat_alt)
next
  case False
  have "unat (g_cap g) \<le> u64_max"
    using unsigned_less [of "g_cap g", where 'a = nat] by (simp add: u64_max_def)
  with False show ?thesis by (simp add: checked_add_def)
qed

lemma sum_exact: "unat (len :: u64) + unat n \<le> unat (c :: u64) \<Longrightarrow> unat (len + n) = unat len + unat n"
  using unsigned_less [of c, where 'a = nat] by (simp add: unat_word_ariths)

lemma drain_continuation:
  assumes "at_header g (st, d)" and "wf_frame f" and "g_buf g = wire f @ rest"
    and "\<not> is_control f" and "is_continuation f"
    and "frame_step (unat (g_cap g)) (st, d) f = (s', out)"
  shows "next_stand g f rest s' out"
proof -
  have op: "hd_opcode (frame_header f) = 0" "hd_opcode (frame_header f) AND 8 = 0"
    using assms(4,5) by (simp_all add: is_control_def is_continuation_def)
  have dr: "g_dropped g = d" using assms(1) by (simp add: at_header_def)
  show ?thesis
  proof (cases st)
    case Between
    then have m: "g_msg g = No_msg" using assms(1) by (simp add: at_header_def)
    have "next_stand g f rest (Between, d) (wire f)"
      using assms(1-3) m op by (intro frame_passed [where m = No_msg]) (auto simp: decide_def)
    then show ?thesis using assms(4-6) Between by (simp add: frame_step_def)
  next
    case Dropping
    then have m: "g_msg g = Skipping" using assms(1) by (simp add: at_header_def)
    have "next_stand g f rest (if is_last f then Between else Dropping, d) []"
      using assms(1-3) m op dr
      by (intro frame_skipped [where h = "g_hold g" and m = "if is_last f then No_msg else Skipping"])
        (auto simp: decide_def is_last_def advance_def)
    then show ?thesis using assms(4-6) Dropping by (simp add: frame_step_def)
  next
    case (Held hold n)
    then obtain len where m: "g_msg g = Holding len" "unat len = n" "n \<le> unat (g_cap g)" "g_hold g = hold"
      using assms(1) by (auto simp: at_header_def)
    note chk = checked_total [of len g "hd_len (frame_header f)", unfolded wf_frameD(3) [OF assms(2)]]
    show ?thesis
    proof (cases "unat (g_cap g) < n + payload_len f")
      case True
      have "next_stand g f rest (if is_last f then Between else Dropping, d + 1) []"
        using assms(1-3) m op dr chk True
        by (intro frame_skipped [where h = "[]" and m = "if is_last f then No_msg else Skipping"])
          (auto simp: decide_def is_last_def advance_def dropped_one_def)
      then show ?thesis using assms(4-6) Held True by (simp add: frame_step_def)
    next
      case False
      then have u: "unat (len + hd_len (frame_header f)) = n + payload_len f"
        using sum_exact [of len "hd_len (frame_header f)" "g_cap g"] m(2) wf_frameD(3) [OF assms(2)] by simp
      have "decide (frame_header f) g =
          hold_frame (frame_header f) (g\<lparr>g_hold := hold, g_msg := Holding (len + hd_len (frame_header f))\<rparr>)"
        using m op chk False by (simp add: decide_def keep_fields flip: m(4))
      from frame_held [OF assms(1-3) this, of d]
      have "next_stand g f rest
          (if is_last f then Between else Held (hold @ wire f) (n + payload_len f), d)
          (if is_last f then hold @ wire f else [])"
        unfolding u using False by simp
      then show ?thesis using assms(4-6) Held False by (auto simp: frame_step_def split: if_splits)
    qed
  qed
qed

lemma drain_opening:
  assumes "at_header g (st, d)" and "wf_frame f" and "g_buf g = wire f @ rest"
    and "\<not> is_control f" and "\<not> is_continuation f"
    and "frame_step (unat (g_cap g)) (st, d) f = (s', out)"
  shows "next_stand g f rest s' out"
proof -
  have op: "hd_opcode (frame_header f) \<noteq> 0" "hd_opcode (frame_header f) AND 8 = 0"
    using assms(4,5) by (simp_all add: is_control_def is_continuation_def)
  have dr: "g_dropped g = d" using assms(1) by (simp add: at_header_def)
  have over: "over_cap g (hd_len (frame_header f)) \<longleftrightarrow> unat (g_cap g) < payload_len f"
    using wf_frameD(3) [OF assms(2)] by (simp add: over_cap_def word_less_nat_alt)
  show ?thesis
  proof (cases st)
    case Dropping
    then have m: "g_msg g = Skipping" using assms(1) by (simp add: at_header_def)
    have "next_stand g f rest (Between, d) (wire f)"
      using assms(1-3) m op by (intro frame_passed [where m = No_msg]) (auto simp: decide_def)
    then show ?thesis using assms(4-6) Dropping by (simp add: frame_step_def)
  next
    case (Held hold n)
    then have m: "\<exists>len. g_msg g = Holding len" "g_hold g = hold"
      using assms(1) by (auto simp: at_header_def)
    have "next_stand g f rest (Between, d) (hold @ wire f)"
      using m op assms(1-3) by (intro frame_released) (auto simp: decide_def)
    then show ?thesis using assms(4-6) Held by (simp add: frame_step_def)
  next
    case Between
    then have m: "g_msg g = No_msg" using assms(1) by (simp add: at_header_def)
    consider (over) "unat (g_cap g) < payload_len f"
      | (whole) "payload_len f \<le> unat (g_cap g)" "is_last f"
      | (first) "payload_len f \<le> unat (g_cap g)" "\<not> is_last f" by linarith
    then show ?thesis
    proof cases
      case over
      have "next_stand g f rest (if is_last f then Between else Dropping, d + 1) []"
        using assms(1-3) m op dr \<open>over_cap g _ = _\<close> over
        by (intro frame_skipped [where h = "g_hold g" and m = "if is_last f then No_msg else Skipping"])
          (auto simp: decide_def is_last_def advance_def dropped_one_def)
      then show ?thesis using assms(4-6) Between over by (simp add: frame_step_def)
    next
      case whole
      have "g\<lparr>g_msg := No_msg\<rparr> = g" using keep_fields(1) [of g] m by simp
      then have "next_stand g f rest (Between, d) (wire f)"
        using assms(1-3) m op over whole
        by (intro frame_passed [where m = No_msg]) (auto simp: decide_def is_last_def)
      then show ?thesis using assms(4-6) Between whole by (simp add: frame_step_def)
    next
      case first
      have "decide (frame_header f) g =
          hold_frame (frame_header f) (g\<lparr>g_hold := [], g_msg := Holding (hd_len (frame_header f))\<rparr>)"
        using m op over first by (simp add: decide_def is_last_def)
      then have "next_stand g f rest (Held (wire f) (payload_len f), d) []"
        using frame_held [OF assms(1-3), where hold = "[]" and len = "hd_len (frame_header f)" and d = d] first
          wf_frameD(3) [OF assms(2)] by simp
      then show ?thesis using assms(4-6) Between first by (simp add: frame_step_def)
    qed
  qed
qed

lemma drain_control:
  assumes "at_header g (st, d)" and "wf_frame f" and "g_buf g = wire f @ rest" and "is_control f"
  shows "next_stand g f rest (st, d) (wire f)"
proof (rule frame_passed [OF assms(1-3), where m = "g_msg g"])
  show "decide (frame_header f) g = g\<lparr>g_msg := g_msg g, g_state := Pass (total (frame_header f))\<rparr>"
    using assms(4) by (simp add: decide_def is_control_def keep_fields)
qed (use assms(1) in \<open>simp_all add: at_header_def keep_fields\<close>)

text \<open>The reader, frame by frame, is the filter.\<close>

lemma drain_frame:
  assumes "at_header g s" and "wf_frame f" and "g_buf g = wire f @ rest"
    and "frame_step (unat (g_cap g)) s f = (s', out)"
  shows "next_stand g f rest s' out"
proof (cases "is_control f")
  case True
  then show ?thesis using drain_control [of g "fst s" "snd s" f rest] assms by (simp add: frame_step_def split: prod.splits)
next
  case False
  then show ?thesis
    using drain_continuation [of g "fst s" "snd s" f rest s' out]
      drain_opening [of g "fst s" "snd s" f rest s' out] assms by auto
qed

lemma drain_frames:
  assumes "at_header g s" and "\<forall>f\<in>set fs. wf_frame f" and "g_buf g = concat (map wire fs) @ rest"
    and "frames_out (unat (g_cap g)) s fs = (out, s')"
  shows "\<exists>g'. drain g = emit out (drain g') \<and> at_header g' s' \<and> g_buf g' = rest"
  using assms
proof (induction fs arbitrary: g s out)
  case Nil
  then show ?case by (intro exI [of _ g]) simp
next
  case (Cons f fs)
  obtain s1 o1 where step: "frame_step (unat (g_cap g)) s f = (s1, o1)"
    by (cases "frame_step (unat (g_cap g)) s f")
  obtain o2 where rest: "frames_out (unat (g_cap g)) s1 fs = (o2, s')" and out: "out = o1 @ o2"
    using Cons.prems(4) step by (auto split: prod.splits)
  have "next_stand g f (concat (map wire fs) @ rest) s1 o1"
    using Cons.prems step by (intro drain_frame) auto
  then obtain g' where g': "drain g = emit o1 (drain g')" "at_header g' s1"
      "g_buf g' = concat (map wire fs) @ rest" "g_cap g' = g_cap g"
    by (auto simp: next_stand_def)
  obtain g2 where "drain g' = emit o2 (drain g2)" "at_header g2 s'" "g_buf g2 = rest"
    using Cons.IH [of g' s1 o2] Cons.prems(2) g' \<open>frames_out _ s1 fs = _\<close> by auto
  then show ?case using g'(1) out by (auto simp: emit_emit)
qed

lemma at_header_end:
  "at_header g s \<Longrightarrow> g_buf g = [] \<Longrightarrow> drain g = ([], g, False)"
  by (intro drain_stuck) (auto simp: at_header_def)

lemma at_header_new: "at_header (onto (guard_new cap) bs) (Between, 0)"
  by (simp add: at_header_def guard_new_def)

lemma drain_all_frames:
  assumes "\<forall>f\<in>set fs. wf_frame f" and "frames_out (unat cap) (Between, 0) fs = (out, s')"
  shows "\<exists>g'. drain (onto (guard_new cap) (concat (map wire fs))) = (out, g', False) \<and> at_header g' s'"
proof -
  let ?g = "onto (guard_new cap) (concat (map wire fs))"
  have "frames_out (unat (g_cap ?g)) (Between, 0) fs = (out, s')" and "g_buf ?g = concat (map wire fs) @ []"
    using assms(2) by (simp_all add: guard_new_def)
  then have "\<exists>g'. drain ?g = emit out (drain g') \<and> at_header g' s' \<and> g_buf g' = []"
    by (intro drain_frames [OF at_header_new assms(1)])
  then show ?thesis using at_header_end by fastforce
qed

section \<open>A client's messages\<close>

text \<open>
  A client that keeps to RFC 6455 sends control frames and messages: a message is its first
  frame and its continuations, each with the control frames sent ahead of it; only the last
  frame has the FIN bit.
\<close>

datatype item = Control frame | Message frame "(frame list \<times> frame) list"

fun wf_rest :: "(frame list \<times> frame) list \<Rightarrow> bool" where
  "wf_rest [] \<longleftrightarrow> True"
| "wf_rest ((cs, c) # r) \<longleftrightarrow>
     (\<forall>f\<in>set cs. is_control f) \<and> \<not> is_control c \<and> is_continuation c \<and> (is_last c \<longleftrightarrow> r = []) \<and> wf_rest r"

fun wf_item :: "item \<Rightarrow> bool" where
  "wf_item (Control f) \<longleftrightarrow> is_control f"
| "wf_item (Message f r) \<longleftrightarrow>
     \<not> is_control f \<and> \<not> is_continuation f \<and> (is_last f \<longleftrightarrow> r = []) \<and> wf_rest r"

definition rest_frames :: "(frame list \<times> frame) list \<Rightarrow> frame list" where
  "rest_frames r = concat (map (\<lambda>(cs, c). cs @ [c]) r)"

fun item_frames :: "item \<Rightarrow> frame list" where
  "item_frames (Control f) = [f]"
| "item_frames (Message f r) = f # rest_frames r"

definition controls :: "(frame list \<times> frame) list \<Rightarrow> bytes" where
  "controls r = concat (map wire (concat (map fst r)))"

definition fragments :: "(frame list \<times> frame) list \<Rightarrow> bytes" where
  "fragments r = concat (map (wire \<circ> snd) r)"

definition rest_len :: "(frame list \<times> frame) list \<Rightarrow> nat" where
  "rest_len r = sum_list (map (payload_len \<circ> snd) r)"

text \<open>
  What tungstenite reads: every control frame, and each message within the cap whole, after the
  control frames sent inside it; of a message over the cap, nothing.
\<close>

fun within :: "nat \<Rightarrow> item \<Rightarrow> bool" where
  "within cap (Control f) \<longleftrightarrow> True"
| "within cap (Message f r) \<longleftrightarrow> payload_len f + rest_len r \<le> cap"

fun item_out :: "nat \<Rightarrow> item \<Rightarrow> bytes" where
  "item_out cap (Control f) = wire f"
| "item_out cap (Message f r) =
     controls r @ (if payload_len f + rest_len r \<le> cap then wire f @ fragments r else [])"

lemma rest_simps [simp]:
  "rest_frames [] = []" "rest_frames ((cs, c) # r) = cs @ c # rest_frames r"
  "controls [] = []" "controls ((cs, c) # r) = concat (map wire cs) @ controls r"
  "fragments [] = []" "fragments ((cs, c) # r) = wire c @ fragments r"
  "rest_len [] = 0" "rest_len ((cs, c) # r) = payload_len c + rest_len r"
  by (simp_all add: rest_frames_def controls_def fragments_def rest_len_def)

fun prepend :: "bytes \<Rightarrow> bytes \<times> filtering \<times> nat \<Rightarrow> bytes \<times> filtering \<times> nat" where
  "prepend bs (out, s) = (bs @ out, s)"

lemma prepend_prepend [simp]: "prepend a (prepend b x) = prepend (a @ b) x" "prepend [] x = x"
  by (cases x; simp)+

lemma frames_out_Cons:
  "frames_out cap s (f # fs) = prepend (snd (frame_step cap s f)) (frames_out cap (fst (frame_step cap s f)) fs)"
  by (auto split: prod.splits)

lemma frames_out_controls:
  "\<forall>f\<in>set cs. is_control f \<Longrightarrow>
   frames_out cap s (cs @ fs) = prepend (concat (map wire cs)) (frames_out cap s fs)"
proof (induction cs)
  case (Cons c cs)
  then have "frame_step cap s c = (s, wire c)" by (cases s) (simp add: frame_step_def)
  with Cons show ?case by (simp add: frames_out_Cons del: frames_out.simps)
qed simp

lemma frames_out_dropping:
  "wf_rest r \<Longrightarrow> r \<noteq> [] \<Longrightarrow>
   frames_out cap (Dropping, d) (rest_frames r @ fs) = prepend (controls r) (frames_out cap (Between, d) fs)"
proof (induction r rule: wf_rest.induct)
  case (2 cs c r)
  then show ?case
    by (cases "r = []")
      (auto simp: frames_out_controls frames_out_Cons frame_step_def simp del: frames_out.simps)
qed simp

lemma frames_out_held:
  "wf_rest r \<Longrightarrow> r \<noteq> [] \<Longrightarrow> n \<le> cap \<Longrightarrow>
   frames_out cap (Held hold n, d) (rest_frames r @ fs) =
     (if n + rest_len r \<le> cap
      then prepend (controls r @ hold @ fragments r) (frames_out cap (Between, d) fs)
      else prepend (controls r) (frames_out cap (Between, d + 1) fs))"
proof (induction r arbitrary: hold n rule: wf_rest.induct)
  case (2 cs c r)
  then have c: "\<forall>f\<in>set cs. is_control f" "\<not> is_control c" "is_continuation c" "wf_rest r"
    "is_last c \<longleftrightarrow> r = []" by auto
  show ?case
  proof (cases "cap < n + payload_len c")
    case True
    then show ?thesis using c
      by (cases "r = []")
        (auto simp: frames_out_controls frames_out_Cons frame_step_def frames_out_dropping
          simp del: frames_out.simps)
  next
    case False
    then show ?thesis using c 2(1) [of "n + payload_len c" "hold @ wire c"]
      by (cases "r = []")
        (auto simp: frames_out_controls frames_out_Cons frame_step_def add.assoc
          simp del: frames_out.simps)
  qed
qed simp

lemma frames_out_item:
  assumes "wf_item i"
  shows "frames_out cap (Between, d) (item_frames i @ fs) =
    prepend (item_out cap i) (frames_out cap (Between, d + (if within cap i then 0 else 1)) fs)"
proof (cases i)
  case (Control f)
  with assms show ?thesis
    using frames_out_controls [of "[f]" cap "(Between, d)" fs] by (simp del: frames_out.simps)
next
  case (Message f r)
  then have f: "\<not> is_control f" "\<not> is_continuation f" "is_last f \<longleftrightarrow> r = []" "wf_rest r"
    using assms by auto
  show ?thesis
  proof (cases "r = []")
    case True
    with f Message show ?thesis
      by (auto simp: frames_out_Cons frame_step_def simp del: frames_out.simps)
  next
    case False
    with f Message show ?thesis
      by (auto simp: frames_out_Cons frame_step_def frames_out_dropping frames_out_held
          simp del: frames_out.simps)
  qed
qed

lemma frames_out_items:
  "\<forall>i\<in>set items. wf_item i \<Longrightarrow>
   frames_out cap (Between, d) (concat (map item_frames items)) =
     (concat (map (item_out cap) items),
      (Between, d + length (filter (\<lambda>i. \<not> within cap i) items)))"
proof (induction items arbitrary: d)
  case (Cons i items)
  then show ?case by (simp add: frames_out_item del: frames_out.simps)
qed simp

end
