(* ===== verification/Guard_Contract.thy ===== *)
theory Guard_Contract
  imports Guard_Frames
begin

text \<open>
  The guard's properties: the message cap over a client's messages, the same result whatever the
  reads, the refusal of an illegal length, and how much a held message can keep.
\<close>

text \<open>
  C7. The message cap is kept and the socket with it: of any sequence of messages and control
  frames, arriving in any chunks and read with any room, exactly the messages within the cap are
  handed on, whole and as they came, with every control frame; of a message past the cap, in one
  frame or in fragments, no byte; and each is counted once for its answer.
\<close>

theorem exactly_the_messages_within_the_cap_pass:
  assumes "\<forall>i\<in>set items. wf_item i" and "\<forall>f\<in>set (concat (map item_frames items)). wf_frame f"
    and "flowing io" and "stream_of io = concat (map wire (concat (map item_frames items)))"
    and "\<And>b. 0 < spare b" and "\<forall>room\<in>set rooms. 0 < room"
    and "length (concat (map (item_out (unat cap)) items)) < length rooms"
    and "polls spare rooms (guard_new cap) io = (rs, g', io')"
  shows "concat (map handed rs) = concat (map (item_out (unat cap)) items) \<and>
         g_dropped g' = length (filter (\<lambda>i. \<not> within (unat cap) i) items)"
proof -
  have "frames_out (unat cap) (Between, 0) (concat (map item_frames items)) =
      (concat (map (item_out (unat cap)) items),
       (Between, length (filter (\<lambda>i. \<not> within (unat cap) i) items)))"
    using frames_out_items [OF assms(1), of "unat cap" 0] by simp
  from drain_all_frames [OF assms(2) this]
  obtain g2 where "to_come (guard_new cap) io = (concat (map (item_out (unat cap)) items), g2, False)"
      "g_dropped g2 = length (filter (\<lambda>i. \<not> within (unat cap) i) items)"
    using assms(4) by (auto simp: to_come_def at_header_def)
  then show ?thesis
    using polls_all [OF assms(8,3,5,6)] assms(7) by simp
qed

text \<open>A client's example: a text of two fragments with a ping between, and a text of four bytes.\<close>

definition text_frame :: "bool \<Rightarrow> u8 \<Rightarrow> bytes \<Rightarrow> frame" where
  "text_frame fin op p =
     \<lparr>fr_head = [(if fin then 0x80 else 0) OR op, of_nat (length p)], fr_payload = p\<rparr>"

definition sample_items :: "item list" where
  "sample_items =
     [Message (text_frame False 1 [1, 2]) [([text_frame True 9 []], text_frame True 0 [3])],
      Message (text_frame True 1 [4, 5, 6, 7]) []]"

lemmas frame_eval =
  sample_items_def text_frame_def wf_frame_def illegal_length_def header_def length_field_def
  is_control_def is_continuation_def is_last_def frame_header_def payload_len_def wire_def

lemma sample_frames:
  "\<forall>i\<in>set sample_items. wf_item i"
  "\<forall>f\<in>set (concat (map item_frames sample_items)). wf_frame f"
  "concat (map (item_out 3) sample_items) = [0x89, 0, 1, 2, 1, 2, 0x80, 1, 3]"
  "length (filter (\<lambda>i. \<not> within 3 i) sample_items) = 1"
  "concat (map wire (concat (map item_frames sample_items))) =
     [1, 2, 1, 2, 0x89, 0, 0x80, 1, 3, 0x81, 4, 4, 5, 6, 7]"
  by (simp_all add: frame_eval)

lemma exactly_the_messages_within_the_cap_pass_witness:
  "case polls (\<lambda>_. 5) (replicate 10 4) (guard_new 3)
      [Chunk [1, 2, 1], Chunk [2, 0x89, 0, 0x80, 1, 3, 0x81, 4, 4, 5], Chunk [6, 7]] of
     (rs, g', io') \<Rightarrow>
       concat (map handed rs) = concat (map (item_out (unat (3 :: u64))) sample_items) \<and>
       g_dropped g' = length (filter (\<lambda>i. \<not> within (unat (3 :: u64)) i) sample_items)"
proof -
  obtain rs g' io' where p: "polls (\<lambda>_. 5) (replicate 10 4) (guard_new 3)
      [Chunk [1, 2, 1], Chunk [2, 0x89, 0, 0x80, 1, 3, 0x81, 4, 4, 5], Chunk [6, 7]] = (rs, g', io')"
    by (metis prod_cases3)
  show ?thesis
    unfolding p prod.case
    by (rule exactly_the_messages_within_the_cap_pass [OF sample_frames(1,2) _ _ _ _ _ p])
      (simp_all add: flowing_def stream_of_def sample_frames(3,5))
qed

text \<open>
  C34. What the reader sees does not depend on how the bytes arrive: any two sequences of chunks
  carrying the same stream, well formed or not, read in pieces of any size, hand on the same
  bytes, drop the same number of messages, and end in a refusal together.
\<close>

theorem chunks_and_reads_do_not_matter:
  assumes "stream_of io1 = stream_of io2" and "flowing io1" and "flowing io2"
    and "\<And>b. 0 < spare1 b" and "\<And>b. 0 < spare2 b"
    and "\<forall>room\<in>set rooms1. 0 < room" and "\<forall>room\<in>set rooms2. 0 < room"
    and "length (fst (to_come (guard_new cap) io1)) < length rooms1"
    and "length (fst (to_come (guard_new cap) io1)) < length rooms2"
    and "polls spare1 rooms1 (guard_new cap) io1 = (rs1, g1, rest1)"
    and "polls spare2 rooms2 (guard_new cap) io2 = (rs2, g2, rest2)"
  shows "concat (map handed rs1) = concat (map handed rs2) \<and> g_dropped g1 = g_dropped g2 \<and>
         (last rs1 = Ready (Err Frame_refused) \<longleftrightarrow> last rs2 = Ready (Err Frame_refused))"
proof -
  have same: "to_come (guard_new cap) io2 = to_come (guard_new cap) io1"
    using assms(1) by (simp add: to_come_def)
  show ?thesis
    using polls_all [OF assms(10,2,4,6,8)]
      polls_all [OF assms(11,3,5,7), unfolded same, OF assms(9)] by simp
qed

lemma sample_to_come:
  "stream_of io = concat (map wire (concat (map item_frames sample_items))) \<Longrightarrow>
   length (fst (to_come (guard_new 3) io)) = 9"
proof -
  assume s: "stream_of io = concat (map wire (concat (map item_frames sample_items)))"
  have "frames_out (unat (3 :: u64)) (Between, 0) (concat (map item_frames sample_items)) =
      (concat (map (item_out 3) sample_items),
       (Between, length (filter (\<lambda>i. \<not> within 3 i) sample_items)))"
    using frames_out_items [OF sample_frames(1), of 3 0] by simp
  from drain_all_frames [OF sample_frames(2) this] show ?thesis
    using s sample_frames(3) by (auto simp: to_come_def)
qed

lemma chunks_and_reads_do_not_matter_witness:
  "case polls (\<lambda>_. 5) (replicate 10 4) (guard_new 3)
      [Chunk [1, 2, 1], Chunk [2, 0x89, 0, 0x80, 1, 3, 0x81, 4, 4, 5], Chunk [6, 7]] of
     (rs1, g1, io1) \<Rightarrow>
   case polls (\<lambda>_. 1) (replicate 12 1) (guard_new 3)
      [Chunk [1, 2, 1, 2, 0x89, 0, 0x80, 1, 3, 0x81, 4, 4, 5, 6, 7]] of
     (rs2, g2, io2) \<Rightarrow>
       concat (map handed rs1) = concat (map handed rs2) \<and> g_dropped g1 = g_dropped g2 \<and>
       (last rs1 = Ready (Err Frame_refused) \<longleftrightarrow> last rs2 = Ready (Err Frame_refused))"
proof -
  let ?io1 = "[Chunk [1, 2, 1], Chunk [2, 0x89, 0, 0x80, 1, 3, 0x81, 4, 4, 5], Chunk [6, 7]]"
  let ?io2 = "[Chunk [1, 2, 1, 2, 0x89, 0, 0x80, 1, 3, 0x81, 4, 4, 5, 6, 7]]"
  obtain rs1 g1 r1 where p1: "polls (\<lambda>_. 5) (replicate 10 4) (guard_new 3) ?io1 = (rs1, g1, r1)"
    by (metis prod_cases3)
  obtain rs2 g2 r2 where p2: "polls (\<lambda>_. 1) (replicate 12 1) (guard_new 3) ?io2 = (rs2, g2, r2)"
    by (metis prod_cases3)
  have "length (fst (to_come (guard_new 3) ?io1)) = 9"
    by (rule sample_to_come) (simp add: stream_of_def sample_frames(5))
  then show ?thesis
    unfolding p1 p2 prod.case
    by (intro chunks_and_reads_do_not_matter [OF _ _ _ _ _ _ _ _ _ p1 p2])
      (simp_all add: flowing_def stream_of_def)
qed



definition empty_fragment :: "u8 \<Rightarrow> frame" where
  "empty_fragment op = \<lparr>fr_head = [op, 0x80, 0, 0, 0, 0], fr_payload = []\<rparr>"

lemma empty_fragments_held:
  "frames_out cap (Held hold 0, d) (replicate n (empty_fragment 0)) =
   ([], (Held (hold @ concat (replicate n [0, 0x80, 0, 0, 0, 0])) 0, d))"
  by (induction n arbitrary: hold)
    (simp_all add: empty_fragment_def frame_step_def frame_eval)

lemma wf_empty_fragment: "op = 0 \<or> op = 1 \<Longrightarrow> wf_frame (empty_fragment op)"
  by (auto simp: empty_fragment_def frame_eval)

text \<open>
  The cap bounds a held message's payload, not what is held for it: fragments of no payload
  are each held with their header, so for every \<open>n\<close> a client that never ends its message keeps
  six bytes a frame of the server's memory, uncounted, under any cap.
\<close>

theorem empty_fragments_grow_the_hold:
  "\<exists>g'. drain (onto (guard_new cap)
           (concat (map wire (empty_fragment 1 # replicate n (empty_fragment 0))))) = ([], g', False) \<and>
        length (g_hold g') = 6 * (n + 1) \<and> g_dropped g' = 0"
proof -
  let ?fs = "empty_fragment 1 # replicate n (empty_fragment 0)"
  let ?hold = "wire (empty_fragment 1) @ concat (replicate n [0, 0x80, 0, 0, 0, 0])"
  have "frames_out (unat cap) (Between, 0) ?fs = ([], (Held ?hold 0, 0))"
    by (simp add: empty_fragments_held)
      (simp add: empty_fragment_def frame_step_def frame_eval empty_fragments_held [unfolded empty_fragment_def])
  then obtain g' where "drain (onto (guard_new cap) (concat (map wire ?fs))) = ([], g', False)"
      "at_header g' (Held ?hold 0, 0)"
    using drain_all_frames [of ?fs cap] wf_empty_fragment by (auto simp del: frames_out.simps)
  moreover have "length ?hold = 6 * (n + 1)"
    by (induction n) (simp_all add: wire_def empty_fragment_def)
  ultimately show ?thesis by (auto simp: at_header_def)
qed

text \<open>
  A message opened while another is being dropped goes past the cap: whatever its length, the
  guard hands its first frame on and takes the dropped message for ended, so only tungstenite's
  own limit stands behind it (and that one ends the socket).
\<close>

theorem a_message_opened_inside_a_dropped_one_passes_the_cap:
  assumes "wf_frame f" and "wf_frame f'" and "\<not> is_control f" and "\<not> is_continuation f"
    and "\<not> is_last f" and "unat cap < payload_len f"
    and "\<not> is_control f'" and "\<not> is_continuation f'"
  shows "fst (drain (onto (guard_new cap) (wire f @ wire f'))) = wire f'"
proof -
  have "frames_out (unat cap) (Between, 0) [f, f'] = (wire f', (Between, 1))"
    using assms by (simp add: frame_step_def)
  then show ?thesis using drain_all_frames [of "[f, f']" cap] assms(1,2) by fastforce
qed

lemma a_message_opened_inside_a_dropped_one_passes_the_cap_witness:
  "fst (drain (onto (guard_new 3)
     (wire (text_frame False 1 [1, 2, 3, 4]) @ wire (text_frame True 1 [5, 6, 7, 8, 9])))) =
   wire (text_frame True 1 [5, 6, 7, 8, 9])"
  by (rule a_message_opened_inside_a_dropped_one_passes_the_cap) (simp_all add: frame_eval)

end
