(* ===== verification/Places.thy ===== *)
theory Places
  imports Prelude
begin

text \<open>
  The interface of everything in the crate that hands out places: a call's place on its
  connection (calls.rs), a socket's place among its address's not yet upgraded ones and in the
  connection quotas (websocket.rs), a semaphore's permit (ws/conn.rs, ws/http.rs), a TLS peer's
  place among the secure ones (tls.rs). In the code a place is a value whose \<open>Drop\<close> gives it
  back, so every place taken is given back at most once. A client's history is a list of events,
  and the places it still holds are the tickets it took and has not dropped.

  An operation that asks for a place hands back the provider's
  state and whether the place was given: a refusal may change the state too (an entry made for
  the key), but no count.

  A ticket is charged to one or more gauges (a socket to its address and to its principal). The
  locale \<open>gauged\<close> states what taking and giving back do to each gauge; \<open>limited\<close> adds the
  limits a place is refused at. Their lemmas are proved once here, over every history.
\<close>

datatype 't place_event = Enter 't | Leave 't

text \<open>
  One history over a provider's two operations: \<open>Enter t\<close> asks for a place, \<open>Leave t\<close> drops
  one that is held (dropping what is not held is not a program).
\<close>

fun history ::
  "('s \<Rightarrow> 't \<Rightarrow> 's \<times> bool) \<Rightarrow> ('s \<Rightarrow> 't \<Rightarrow> 's) \<Rightarrow> 's \<times> 't list \<Rightarrow> 't place_event list \<Rightarrow> 's \<times> 't list"
where
  "history tk gv (s, held) [] = (s, held)"
| "history tk gv (s, held) (Enter t # es) =
     (case tk s t of (s', ok) \<Rightarrow> history tk gv (s', if ok then t # held else held) es)"
| "history tk gv (s, held) (Leave t # es) =
     (if t \<in> set held then history tk gv (gv s t, remove1 t held) es
      else history tk gv (s, held) es)"

text \<open>How many of the held tickets are charged to a gauge.\<close>

definition charged :: "('t \<Rightarrow> 'g set) \<Rightarrow> 'g \<Rightarrow> 't list \<Rightarrow> nat" where
  "charged charges g ts = length (filter (\<lambda>t. g \<in> charges t) ts)"

lemma charged_Nil [simp]: "charged charges g [] = 0"
  by (simp add: charged_def)

lemma charged_Cons [simp]:
  "charged charges g (t # ts) = charged charges g ts + (if g \<in> charges t then 1 else 0)"
  by (simp add: charged_def)

lemma charged_remove1:
  "t \<in> set ts \<Longrightarrow>
   charged charges g (remove1 t ts) = charged charges g ts - (if g \<in> charges t then 1 else 0)"
  by (simp add: charged_def filter_remove1 length_remove1)

lemma charged_pos: "t \<in> set ts \<Longrightarrow> g \<in> charges t \<Longrightarrow> 0 < charged charges g ts"
  by (induction ts) auto

locale gauged =
  fixes gauge :: "'s \<Rightarrow> 'g \<Rightarrow> nat"
    and tk :: "'s \<Rightarrow> 't \<Rightarrow> 's \<times> bool"
    and gv :: "'s \<Rightarrow> 't \<Rightarrow> 's"
    and charges :: "'t \<Rightarrow> 'g set"
    and inv :: "'s \<Rightarrow> bool"
  assumes take_gauge:
      "inv s \<Longrightarrow> tk s t = (s', ok) \<Longrightarrow>
       gauge s' g = gauge s g + (if ok \<and> g \<in> charges t then 1 else 0)"
    and give_gauge:
      "inv s \<Longrightarrow> (\<And>g. g \<in> charges t \<Longrightarrow> 0 < gauge s g) \<Longrightarrow>
       gauge (gv s t) g = gauge s g - (if g \<in> charges t then 1 else 0)"
    and take_inv: "inv s \<Longrightarrow> tk s t = (s', ok) \<Longrightarrow> inv s'"
    and give_inv: "inv s \<Longrightarrow> (\<And>g. g \<in> charges t \<Longrightarrow> 0 < gauge s g) \<Longrightarrow> inv (gv s t)"
begin

text \<open>A provider's state agrees with the places held: each gauge is what they charge to it.\<close>

definition agrees :: "'s \<times> 't list \<Rightarrow> bool" where
  "agrees x \<longleftrightarrow> inv (fst x) \<and> (\<forall>g. gauge (fst x) g = charged charges g (snd x))"

lemma agrees_take:
  "agrees (s, held) \<Longrightarrow> tk s t = (s', ok) \<Longrightarrow> agrees (s', if ok then t # held else held)"
  by (auto simp: agrees_def take_gauge intro: take_inv)

lemma agrees_give:
  assumes "agrees (s, held)" and "t \<in> set held"
  shows "agrees (gv s t, remove1 t held)"
proof -
  have "\<And>g. g \<in> charges t \<Longrightarrow> 0 < gauge s g"
    using assms by (simp add: agrees_def charged_pos)
  then show ?thesis
    using assms by (simp add: agrees_def give_gauge give_inv charged_remove1)
qed

lemma history_agrees: "agrees x \<Longrightarrow> agrees (history tk gv x es)"
proof (induction es arbitrary: x)
  case Nil
  then show ?case by (cases x) simp
next
  case (Cons e es)
  then show ?case
    by (cases x; cases e) (auto split: prod.splits intro: agrees_give dest: agrees_take)
qed

text \<open>Every history leaves each gauge at exactly the number of places still held on it.\<close>

lemma gauge_counts_held:
  assumes "inv s" and "\<And>g. gauge s g = 0" and "history tk gv (s, []) es = (s', held)"
  shows "gauge s' g = charged charges g held"
proof -
  have "agrees (s, [])" using assms(1,2) by (simp add: agrees_def)
  then have "agrees (s', held)" using history_agrees assms(3) by metis
  then show ?thesis by (simp add: agrees_def)
qed

lemma history_inv:
  assumes "inv s" and "\<And>g. gauge s g = 0" and "history tk gv (s, []) es = (s', held)"
  shows "inv s'"
proof -
  have "agrees (s, [])" using assms(1,2) by (simp add: agrees_def)
  then have "agrees (s', held)" using history_agrees assms(3) by metis
  then show ?thesis by (simp add: agrees_def)
qed

text \<open>With nothing held every gauge is back at 0: no place leaks.\<close>

lemma nothing_held_nothing_counted:
  assumes "inv s" and "\<And>g. gauge s g = 0" and "history tk gv (s, []) es = (s', [])"
  shows "gauge s' g = 0"
  using gauge_counts_held [OF assms] by simp

end

locale limited = gauged +
  fixes limit :: "'b \<Rightarrow> nat"
  assumes take_refused: "inv s \<Longrightarrow> snd (tk s t) \<longleftrightarrow> (\<forall>g\<in>charges t. gauge s g < limit g)"
begin

lemma take_bounded:
  assumes "inv s" and "\<forall>g. gauge s g \<le> limit g"
  shows "\<forall>g. gauge (fst (tk s t)) g \<le> limit g"
proof
  fix g
  obtain s' ok where t: "tk s t = (s', ok)" by (cases "tk s t")
  then have "gauge s' g = gauge s g + (if ok \<and> g \<in> charges t then 1 else 0)"
    by (rule take_gauge [OF assms(1)])
  moreover have "ok \<and> g \<in> charges t \<longrightarrow> gauge s g < limit g"
    using take_refused [OF assms(1), of t] t by auto
  ultimately show "gauge (fst (tk s t)) g \<le> limit g" using assms(2) t by auto
qed

lemma history_bounded:
  assumes "agrees x" and "\<forall>g. gauge (fst x) g \<le> limit g"
  shows "\<forall>g. gauge (fst (history tk gv x es)) g \<le> limit g"
  using assms
proof (induction es arbitrary: x)
  case Nil
  then show ?case by (cases x) simp
next
  case (Cons e es)
  obtain s held where x: "x = (s, held)" by (cases x)
  show ?case
  proof (cases e)
    case (Enter t)
    obtain s' ok where t: "tk s t = (s', ok)" by (cases "tk s t")
    then have "agrees (s', if ok then t # held else held)"
      using Cons.prems(1) x agrees_take by blast
    moreover have "\<forall>g. gauge s' g \<le> limit g"
      using take_bounded [of s t] Cons.prems x t by (simp add: agrees_def)
    ultimately show ?thesis using Cons.IH x Enter t by simp
  next
    case (Leave t)
    show ?thesis
    proof (cases "t \<in> set held")
      case True
      have ag: "agrees (gv s t, remove1 t held)" using Cons.prems(1) x True agrees_give by blast
      moreover have "\<forall>g. gauge (gv s t) g \<le> limit g"
      proof
        fix g
        have "gauge (gv s t) g \<le> charged charges g held"
          using ag True by (simp add: agrees_def charged_remove1)
        then show "gauge (gv s t) g \<le> limit g"
          using Cons.prems x by (metis agrees_def fst_conv le_trans snd_conv)
      qed
      ultimately show ?thesis using Cons.IH [of "(gv s t, remove1 t held)"] True x Leave by simp
    next
      case False
      with Cons x Leave show ?thesis by simp
    qed
  qed
qed

text \<open>No history passes a limit.\<close>

lemma never_past_the_limit:
  assumes "inv s" and "\<And>g. gauge s g = 0" and "history tk gv (s, []) es = (s', held)"
  shows "charged charges g held \<le> limit g"
proof -
  have "agrees (s, [])" using assms(1,2) by (simp add: agrees_def)
  then have "gauge s' g \<le> limit g"
    using history_bounded [of "(s, [])" es] assms by simp
  then show ?thesis using gauge_counts_held [OF assms] by simp
qed

text \<open>
  A place is refused exactly when the places held fill one of its gauges, whatever order they
  were taken and dropped in.
\<close>

lemma refused_iff_full:
  assumes "inv s" and "\<And>g. gauge s g = 0" and "history tk gv (s, []) es = (s', held)"
  shows "\<not> snd (tk s' t) \<longleftrightarrow> (\<exists>g\<in>charges t. charged charges g held = limit g)"
proof -
  have inv': "inv s'" by (rule history_inv [OF assms])
  have "\<And>g. gauge s' g = charged charges g held" by (rule gauge_counts_held [OF assms])
  moreover have "\<And>g. charged charges g held \<le> limit g" by (rule never_past_the_limit [OF assms])
  ultimately show ?thesis using take_refused [OF inv'] by (metis le_neq_implies_less nat_neq_iff)
qed

end

end
