(* ===== verification/Http.thy ===== *)
theory Http
  imports Prelude
begin

text \<open>
  HTTP messages as the crate reads and writes them. A header value is its bytes, and
  \<open>to_str\<close> of the \<open>http\<close> crate either hands them over as text or refuses; which of the two
  is part of the value here (\<open>Text\<close> / \<open>Opaque\<close>), so nothing is assumed of the crate's
  test. A header map is the list of its entries in order, names already lower case: \<open>get\<close> is
  the first entry of a name, \<open>get_all\<close> every one in order.
\<close>

datatype header_value = Text string | Opaque string

fun to_str :: "header_value \<Rightarrow> string option" where
  "to_str (Text s) = Some s"
| "to_str (Opaque s) = None"

fun as_bytes :: "header_value \<Rightarrow> string" where
  "as_bytes (Text s) = s"
| "as_bytes (Opaque s) = s"

type_synonym header_map = "(string \<times> header_value) list"

definition header_get :: "header_map \<Rightarrow> string \<Rightarrow> header_value option" where
  "header_get h n = map_of h n"

definition header_get_all :: "header_map \<Rightarrow> string \<Rightarrow> header_value list" where
  "header_get_all h n = map snd (filter (\<lambda>e. fst e = n) h)"

definition contains_key :: "header_map \<Rightarrow> string \<Rightarrow> bool" where
  "contains_key h n \<longleftrightarrow> n \<in> fst ` set h"

text \<open>\<open>.get(name).and_then(|v| v.to_str().ok())\<close>.\<close>

definition header_str :: "header_map \<Rightarrow> string \<Rightarrow> string option" where
  "header_str h n = Option.bind (header_get h n) to_str"

record request =
  rq_method :: string
  rq_path :: string
  rq_query :: "string option"
  rq_authority :: "string option"
  rq_headers :: header_map

record response =
  rp_status :: nat
  rp_headers :: "(string \<times> string) list"
  rp_body :: string

definition text_plain :: "string \<times> string" where
  "text_plain = (''content-type'', ''text/plain'')"

lemma header_get_Nil [simp]: "header_get [] n = None"
  by (simp add: header_get_def)

lemma header_get_Cons [simp]:
  "header_get ((m, v) # h) n = (if m = n then Some v else header_get h n)"
  by (simp add: header_get_def)

lemma header_get_all_Nil [simp]: "header_get_all [] n = []"
  by (simp add: header_get_all_def)

lemma header_get_all_Cons [simp]:
  "header_get_all ((m, v) # h) n = (if m = n then v # header_get_all h n else header_get_all h n)"
  by (simp add: header_get_all_def)

lemma header_get_all_append: "header_get_all (g @ h) n = header_get_all g n @ header_get_all h n"
  by (simp add: header_get_all_def)

lemma contains_key_iff: "contains_key h n \<longleftrightarrow> header_get_all h n \<noteq> []"
  by (induction h) (auto simp: contains_key_def split: if_splits)

lemma header_get_hd: "header_get h n = (case header_get_all h n of [] \<Rightarrow> None | v # _ \<Rightarrow> Some v)"
  by (induction h) auto

lemma header_get_None: "header_get h n = None \<longleftrightarrow> \<not> contains_key h n"
  by (simp add: header_get_hd contains_key_iff split: list.splits)

lemma header_str_Some: "header_str h n = Some s \<Longrightarrow> header_get h n = Some (Text s)"
  by (auto simp: header_str_def bind_eq_Some_conv elim: to_str.elims)

lemma header_str_contains: "header_str h n = Some s \<Longrightarrow> contains_key h n"
  by (metis header_get_None header_str_Some option.distinct(1))

end
