(* ===== verification/Proxy.thy ===== *)
theory Proxy
  imports Http Net
begin

text \<open>
  proxy.rs (TRANSPORT-7): who a request comes from behind a reverse proxy. \<open>IpNet\<close> is the
  ipnet crate's: its type is a type variable, and its membership test (\<open>contains\<close>), its
  \<open>parse\<close> and its conversion from an address are arguments of the definitions that use them.
\<close>

record 'net trusted_proxies =
  tp_nets :: "'net list"
  tp_direct :: bool

record forwarded_client =
  fc_ip :: ip_addr
  fc_peer :: ip_addr
  fc_via_proxy :: bool
  fc_secure :: bool

definition tp_new :: "'net list \<Rightarrow> 'net trusted_proxies" where
  "tp_new nets = \<lparr>tp_nets = nets, tp_direct = False\<rparr>"

definition tp_none :: "'net trusted_proxies" where
  "tp_none = \<lparr>tp_nets = [], tp_direct = True\<rparr>"

text \<open>\<open>TrustedProxies::default()\<close>: nothing said.\<close>

definition tp_default :: "'net trusted_proxies" where
  "tp_default = \<lparr>tp_nets = [], tp_direct = False\<rparr>"

definition parse_net ::
  "(string \<Rightarrow> 'net option) \<Rightarrow> (ip_addr \<Rightarrow> 'net) \<Rightarrow> string \<Rightarrow> string + 'net" where
  "parse_net parse_ipnet net_of_ip spec =
     (let s = trim spec in
      case parse_ipnet s of
        Some n \<Rightarrow> Ok n
      | None \<Rightarrow>
          (case parse_ip_addr s of
             Some ip \<Rightarrow> Ok (net_of_ip ip)
           | None \<Rightarrow>
               Err (''`'' @ s @ ''` is not a CIDR (10.0.0.0/8, fd00::/8) or an address'')))"

definition tp_parse ::
  "(string \<Rightarrow> 'net option) \<Rightarrow> (ip_addr \<Rightarrow> 'net) \<Rightarrow> string list \<Rightarrow> string + 'net trusted_proxies" where
  "tp_parse parse_ipnet net_of_ip specs0 =
     (let specs = filter (\<lambda>s. s \<noteq> []) (map trim specs0) in
      if ''none'' \<in> set specs
      then (if 1 < length specs
            then Err ''trusted proxy `none` stands alone: no proxy, or name them''
            else Ok tp_none)
      else (case collect_results (map (parse_net parse_ipnet net_of_ip) specs) of
              Inl e \<Rightarrow> Err e
            | Inr nets \<Rightarrow> Ok (tp_new nets)))"

definition configured :: "'net trusted_proxies \<Rightarrow> bool" where
  "configured p \<longleftrightarrow> tp_direct p \<or> tp_nets p \<noteq> []"

definition behind_proxy :: "'net trusted_proxies \<Rightarrow> bool" where
  "behind_proxy p \<longleftrightarrow> tp_nets p \<noteq> []"

fun canonical :: "ip_addr \<Rightarrow> ip_addr" where
  "canonical (V6 w) = (case to_ipv4_mapped w of Some v4 \<Rightarrow> V4 v4 | None \<Rightarrow> V6 w)"
| "canonical (V4 w) = V4 w"

definition tp_contains :: "('net \<Rightarrow> ip_addr \<Rightarrow> bool) \<Rightarrow> 'net trusted_proxies \<Rightarrow> ip_addr \<Rightarrow> bool" where
  "tp_contains net_contains p ip = list_ex (\<lambda>n. net_contains n (canonical ip)) (tp_nets p)"

definition header_list :: "header_map \<Rightarrow> string \<Rightarrow> string list" where
  "header_list headers name =
     map trim (concat (map (split_on CHR '','') (List.map_filter to_str (header_get_all headers name))))"

definition parse_hop :: "string \<Rightarrow> ip_addr option" where
  "parse_hop hop =
     (case parse_ip_addr hop of
        Some ip \<Rightarrow> Some (canonical ip)
      | None \<Rightarrow> map_option (\<lambda>s. canonical (sa_ip s)) (parse_socket_addr hop))"

text \<open>
  The walk over the hops, from the one nearest us. \<open>walk_hops\<close> is given the hops in the order
  they are walked, each with its index in the header; \<open>nearest\<close> is the last trusted hop seen.
  The loop's \<open>client\<close> and \<open>nearest_trusted\<close> come out as one result: the client if a hop that
  is not a proxy was met, else the nearest trusted one.
\<close>

fun walk_hops ::
  "(ip_addr \<Rightarrow> bool) \<Rightarrow> ip_addr \<times> nat option \<Rightarrow> (nat \<times> string) list \<Rightarrow> ip_addr \<times> nat option" where
  "walk_hops trusted nearest [] = nearest"
| "walk_hops trusted nearest ((i, hop) # hops) =
     (case parse_hop hop of
        Some ip \<Rightarrow>
          (if trusted ip then walk_hops trusted (ip, Some i) hops else (ip, Some i))
      | None \<Rightarrow> nearest)"

definition secure_proto :: "string \<Rightarrow> bool" where
  "secure_proto p \<longleftrightarrow> eq_ignore_ascii_case p ''https'' \<or> eq_ignore_ascii_case p ''wss''"

definition resolve ::
  "('net \<Rightarrow> ip_addr \<Rightarrow> bool) \<Rightarrow> 'net trusted_proxies \<Rightarrow> ip_addr \<Rightarrow> header_map \<Rightarrow> forwarded_client" where
  "resolve net_contains p peer0 headers =
     (let peer = canonical peer0 in
      if \<not> tp_contains net_contains p peer
      then \<lparr>fc_ip = peer, fc_peer = peer, fc_via_proxy = False,
            fc_secure = \<not> behind_proxy p \<and> is_loopback peer\<rparr>
      else
        let hops = header_list headers ''x-forwarded-for'';
            (ip, at) = walk_hops (tp_contains net_contains p) (peer, None) (rev (enumerate 0 hops));
            protos = header_list headers ''x-forwarded-proto'';
            proto = (case at of
                       Some i \<Rightarrow> if length protos = length hops
                                 then (if i < length protos then Some (protos ! i) else None)
                                 else (if protos = [] then None else Some (last protos))
                     | None \<Rightarrow> if protos = [] then None else Some (last protos))
        in \<lparr>fc_ip = ip, fc_peer = peer, fc_via_proxy = True,
            fc_secure = (case proto of None \<Rightarrow> False | Some s \<Rightarrow> secure_proto s)\<rparr>)"

definition client_ip ::
  "('net \<Rightarrow> ip_addr \<Rightarrow> bool) \<Rightarrow> 'net trusted_proxies \<Rightarrow> ip_addr \<Rightarrow> header_map \<Rightarrow> ip_addr" where
  "client_ip net_contains p peer headers = fc_ip (resolve net_contains p peer headers)"

text \<open>
  \<open>init_trusted_proxies\<close> and \<open>trusted_proxies\<close>: a cell set once (\<open>OnceLock\<close>), the first
  call winning; unset reads as no proxy.
\<close>

definition init_once :: "'a option \<Rightarrow> 'a \<Rightarrow> 'a option" where
  "init_once cell v = (case cell of None \<Rightarrow> Some v | Some w \<Rightarrow> Some w)"

definition trusted_proxies :: "'net trusted_proxies option \<Rightarrow> 'net trusted_proxies" where
  "trusted_proxies cell = (case cell of Some p \<Rightarrow> p | None \<Rightarrow> tp_default)"

section \<open>Lemmas\<close>

lemma to_ipv4_mapped_bound: "to_ipv4_mapped w = Some v \<Longrightarrow> \<exists>u. V4 v = canonical (V6 u)"
  by (metis canonical.simps(1) option.simps(5))

lemma canonical_idem [simp]: "canonical (canonical ip) = canonical ip"
  by (cases ip) (auto split: option.splits)

lemma tp_contains_canonical [simp]:
  "tp_contains c p (canonical ip) = tp_contains c p ip"
  by (simp add: tp_contains_def)

lemma parse_hop_canonical: "parse_hop h = Some ip \<Longrightarrow> canonical ip = ip"
  by (auto simp: parse_hop_def split: option.splits)

lemma trusted_proxies_init: "trusted_proxies (init_once (init_once None p) q) = p"
  by (simp add: trusted_proxies_def init_once_def)

lemma not_behind_contains: "tp_nets p = [] \<Longrightarrow> \<not> tp_contains c p ip"
  by (simp add: tp_contains_def)

lemma walk_hops_append:
  assumes "\<exists>x\<in>set hs. \<forall>ip. parse_hop (snd x) = Some ip \<longrightarrow> \<not> trusted ip"
  shows "walk_hops trusted n (hs @ gs) = walk_hops trusted n hs"
  using assms
proof (induction hs arbitrary: n)
  case Nil
  then show ?case by simp
next
  case (Cons h hs)
  then show ?case by (cases h) (auto split: option.splits)
qed

text \<open>Every hop walked past is a trusted proxy; the result is the first that is not.\<close>

lemma walk_hops_all_trusted:
  assumes "\<forall>x\<in>set hs. \<exists>ip. parse_hop (snd x) = Some ip \<and> trusted ip" and "hs \<noteq> []"
  shows "\<exists>ip. parse_hop (snd (last hs)) = Some ip \<and> walk_hops trusted n hs = (ip, Some (fst (last hs)))"
  using assms
proof (induction hs arbitrary: n)
  case Nil
  then show ?case by simp
next
  case (Cons h hs)
  show ?case
  proof (cases "hs = []")
    case True
    with Cons.prems show ?thesis by (cases h) auto
  next
    case False
    with Cons show ?thesis by (cases h) fastforce
  qed
qed

lemma walk_hops_stop:
  assumes "\<forall>x\<in>set hs. \<exists>ip. parse_hop (snd x) = Some ip \<and> trusted ip"
    and "parse_hop h = Some ip" and "\<not> trusted ip"
  shows "walk_hops trusted n (hs @ (i, h) # gs) = (ip, Some i)"
  using assms by (induction hs arbitrary: n) (auto split: option.splits)

lemma walk_hops_trusted_or_first:
  "walk_hops trusted n hs = (ip, at) \<Longrightarrow>
   at = snd n \<and> ip = fst n \<or> (\<exists>i h. (i, h) \<in> set hs \<and> parse_hop h = Some ip \<and> at = Some i)"
proof (induction hs arbitrary: n)
  case Nil
  then show ?case by auto
next
  case (Cons x hs)
  then show ?case by (cases x) (fastforce split: option.splits if_splits)
qed

lemma enumerate_append_rev:
  "rev (enumerate 0 (xs @ ys)) = rev (enumerate (length xs) ys) @ rev (enumerate 0 xs)"
  by (simp add: enumerate_append_eq)

lemma set_rev_enumerate: "snd ` set (rev (enumerate n xs)) = set xs"
  by (metis list.set_map map_snd_enumerate set_rev)

section \<open>The walk, as the header reads\<close>

abbreviation hops_of :: "header_map \<Rightarrow> string list" where
  "hops_of h \<equiv> header_list h ''x-forwarded-for''"

abbreviation protos_of :: "header_map \<Rightarrow> string list" where
  "protos_of h \<equiv> header_list h ''x-forwarded-proto''"

text \<open>Where the walk can stop: an entry that is not an address, or one that is no proxy.\<close>

definition stops :: "('net \<Rightarrow> ip_addr \<Rightarrow> bool) \<Rightarrow> 'net trusted_proxies \<Rightarrow> string \<Rightarrow> bool" where
  "stops c p hop \<longleftrightarrow> (\<forall>ip. parse_hop hop = Some ip \<longrightarrow> \<not> tp_contains c p ip)"

definition proxy_hop :: "('net \<Rightarrow> ip_addr \<Rightarrow> bool) \<Rightarrow> 'net trusted_proxies \<Rightarrow> string \<Rightarrow> bool" where
  "proxy_hop c p hop \<longleftrightarrow> (\<exists>ip. parse_hop hop = Some ip \<and> tp_contains c p ip)"

lemma stops_iff_not_proxy_hop: "stops c p hop \<longleftrightarrow> \<not> proxy_hop c p hop"
  by (auto simp: stops_def proxy_hop_def)

abbreviation walked ::
  "('net \<Rightarrow> ip_addr \<Rightarrow> bool) \<Rightarrow> 'net trusted_proxies \<Rightarrow> ip_addr \<Rightarrow> nat \<Rightarrow> string list \<Rightarrow>
   ip_addr \<times> nat option" where
  "walked c p peer n hops \<equiv>
     walk_hops (tp_contains c p) (canonical peer, None) (rev (enumerate n hops))"

lemma walked_prefix:
  assumes "\<exists>h\<in>set rest. stops c p h"
  shows "walked c p peer n (forged @ rest) = walked c p peer (n + length forged) rest"
proof -
  have "rev (enumerate n (forged @ rest)) =
        rev (enumerate (n + length forged) rest) @ rev (enumerate n forged)"
    by (simp add: enumerate_append_eq)
  moreover have "\<exists>x\<in>set (rev (enumerate (n + length forged) rest)).
                   \<forall>ip. parse_hop (snd x) = Some ip \<longrightarrow> \<not> tp_contains c p ip"
    using assms set_rev_enumerate [of "n + length forged" rest]
    by (metis (no_types, lifting) imageE stops_def)
  ultimately show ?thesis by (simp add: walk_hops_append)
qed

lemma walked_shift:
  "walked c p peer (n + k) hops =
   (fst (walked c p peer n hops), map_option (\<lambda>i. i + k) (snd (walked c p peer n hops)))"
proof -
  have "\<And>hs ip at. walk_hops t (ip, map_option (\<lambda>i. i + k) at) (map (\<lambda>(i, h). (i + k, h)) hs) =
       (fst (walk_hops t (ip, at) hs), map_option (\<lambda>i. i + k) (snd (walk_hops t (ip, at) hs)))" for t
  proof -
    fix hs :: "(nat \<times> string) list" and ip at
    show "walk_hops t (ip, map_option (\<lambda>i. i + k) at) (map (\<lambda>(i, h). (i + k, h)) hs) =
       (fst (walk_hops t (ip, at) hs), map_option (\<lambda>i. i + k) (snd (walk_hops t (ip, at) hs)))"
    proof (induction hs arbitrary: ip at)
      case Nil
      then show ?case by simp
    next
      case (Cons x hs)
      from Cons.IH [of _ "Some (fst x)"] Cons.IH show ?case
        by (cases x) (auto split: option.splits)
    qed
  qed
  from this [of "tp_contains c p" "canonical peer" None "rev (enumerate n hops)"]
  have "walk_hops (tp_contains c p) (canonical peer, None)
          (map (\<lambda>(i, h). (i + k, h)) (rev (enumerate n hops))) =
        (fst (walked c p peer n hops), map_option (\<lambda>i. i + k) (snd (walked c p peer n hops)))"
    by simp
  moreover have "map (\<lambda>(i, h). (i + k, h)) (rev (enumerate n hops)) = rev (enumerate (n + k) hops)"
    by (induction hops arbitrary: n) (auto simp: rev_map)
  ultimately show ?thesis by simp
qed

lemma walked_index_bound:
  assumes "walked c p peer n hops = (ip, Some i)"
  shows "n \<le> i \<and> i < n + length hops"
proof -
  have "\<exists>h. (i, h) \<in> set (rev (enumerate n hops))"
    using walk_hops_trusted_or_first [OF assms] by auto
  then show ?thesis by (auto simp: in_set_enumerate_eq)
qed

lemma client_ip_trusted:
  "tp_contains c p peer \<Longrightarrow> client_ip c p peer h = fst (walked c p peer 0 (hops_of h))"
  by (simp add: client_ip_def resolve_def Let_def split: prod.split)

lemma resolve_peer [simp]: "fc_peer (resolve c p peer h) = canonical peer"
  by (simp add: resolve_def Let_def split: prod.split)

lemma resolve_via_proxy [simp]: "fc_via_proxy (resolve c p peer h) = tp_contains c p peer"
  by (simp add: resolve_def Let_def split: prod.split)

lemma resolve_untrusted:
  "\<not> tp_contains c p peer \<Longrightarrow>
   resolve c p peer h =
     \<lparr>fc_ip = canonical peer, fc_peer = canonical peer, fc_via_proxy = False,
      fc_secure = \<not> behind_proxy p \<and> is_loopback (canonical peer)\<rparr>"
  by (simp add: resolve_def Let_def)

section \<open>Concrete headers\<close>

text \<open>An edge at 10.0.0.1: a network here is one address, and contains it.\<close>

definition edge :: "ip_addr trusted_proxies" where
  "edge = tp_new [ipv4 10 0 0 1]"

definition xff :: "string \<Rightarrow> string \<Rightarrow> header_map" where
  "xff hops protos =
     [(''x-forwarded-for'', Text hops), (''x-forwarded-proto'', Text protos)]"

lemmas text_eval =
  trim_def trim_with_def is_whitespace_def code_def ascii_lower_def to_ascii_lowercase_def
  eq_ignore_ascii_case_def starts_with_def char_of_def bit_iff_odd

lemmas proxy_eval =
  edge_def xff_def tp_new_def tp_contains_def header_list_def List.map_filter_def parse_hop_def
  stops_def proxy_hop_def secure_proto_def net_eval text_eval

section \<open>Properties\<close>

text \<open>
  C26. A client cannot choose its own address: behind a trusted proxy, whatever entries stand to
  the left of an entry that is not itself a trusted proxy (the part of \<open>X-Forwarded-For\<close> the
  client can have written), the address the request is resolved to is the same as without them.
\<close>

theorem forged_hops_are_ignored:
  assumes "tp_contains c p peer"
    and "hops_of h = forged @ rest" and "hops_of h' = rest"
    and "\<exists>e\<in>set rest. stops c p e"
  shows "client_ip c p peer h = client_ip c p peer h'"
proof -
  have "fst (walked c p peer 0 (forged @ rest)) = fst (walked c p peer 0 rest)"
    using walked_prefix [OF assms(4), of peer 0 forged] walked_shift [of c p peer 0 "length forged" rest]
    by simp
  then show ?thesis using assms(1-3) by (simp add: client_ip_trusted)
qed

theorem forged_hops_are_ignored_witness:
  "client_ip (=) edge (ipv4 10 0 0 1) (xff ''6.6.6.6, 198.51.100.4'' ''https'') =
   client_ip (=) edge (ipv4 10 0 0 1) (xff ''198.51.100.4'' ''https'')"
  by (rule forged_hops_are_ignored [where forged = "[''6.6.6.6'']" and rest = "[''198.51.100.4'']"])
    (simp_all add: proxy_eval)

text \<open>
  C25. The client behind trusted proxies is the rightmost forwarded hop that is not itself one.
\<close>

theorem rightmost_untrusted_hop_is_the_client:
  assumes "tp_contains c p peer"
    and "hops_of h = left @ e # right"
    and "\<forall>r\<in>set right. proxy_hop c p r"
    and "parse_hop e = Some ip" and "\<not> tp_contains c p ip"
  shows "client_ip c p peer h = ip"
proof -
  let ?n = "length left"
  have "\<exists>x\<in>set (e # right). stops c p x" using assms(4,5) by (simp add: stops_def)
  then have "walked c p peer 0 (left @ e # right) = walked c p peer ?n (e # right)"
    using walked_prefix [of "e # right" c p peer 0 left] by simp
  moreover have "rev (enumerate ?n (e # right)) = rev (enumerate (Suc ?n) right) @ [(?n, e)]"
    by simp
  moreover have "\<forall>x\<in>set (rev (enumerate (Suc ?n) right)).
                   \<exists>ip. parse_hop (snd x) = Some ip \<and> tp_contains c p ip"
    using assms(3) set_rev_enumerate [of "Suc ?n" right] by (metis image_eqI proxy_hop_def)
  ultimately have "walked c p peer 0 (left @ e # right) = (ip, Some ?n)"
    using walk_hops_stop [where trusted = "tp_contains c p", OF _ assms(4,5)] by simp
  then show ?thesis using assms(1,2) by (simp add: client_ip_trusted)
qed

theorem rightmost_untrusted_hop_is_the_client_witness:
  "client_ip (=) edge (ipv4 10 0 0 1) (xff ''6.6.6.6, 198.51.100.4:4431, 10.0.0.1'' ''https'') =
   ipv4 198 51 100 4"
  by (rule rightmost_untrusted_hop_is_the_client
        [where left = "[''6.6.6.6'']" and e = "''198.51.100.4:4431''" and right = "[''10.0.0.1'']"])
    (simp_all add: proxy_eval)

text \<open>
  A client cannot claim a secure transport: when the trusted proxies wrote one
  \<open>X-Forwarded-Proto\<close> entry for each of their \<open>X-Forwarded-For\<close> entries, no entries put to
  the left of either list make the request secure unless one of the proxies' own says so.
\<close>

theorem forged_protos_are_not_believed:
  assumes "tp_contains c p peer"
    and "hops_of h = forged @ rest" and "\<exists>e\<in>set rest. stops c p e"
    and "protos_of h = forged_protos @ protos" and "length protos = length rest"
    and "fc_secure (resolve c p peer h)"
  shows "\<exists>s\<in>set protos. secure_proto s"
proof -
  have "protos \<noteq> []" using assms(3,5) by auto
  obtain ip at where w: "walked c p peer 0 (forged @ rest) = (ip, at)" by fastforce
  have w': "walked c p peer (length forged) rest = (ip, at)"
    using walked_prefix [OF assms(3), of peer 0 forged] w by simp
  show ?thesis
  proof (cases "at \<noteq> None \<and> length forged_protos = length forged")
    case True
    then obtain i where i: "at = Some i" by blast
    then have "length forged \<le> i" "i < length forged + length rest"
      using walked_index_bound w' by blast+
    then have "(forged_protos @ protos) ! i \<in> set protos"
      using True assms(5) by (simp add: nth_append)
    moreover have "secure_proto ((forged_protos @ protos) ! i)"
      using assms i w True \<open>i < length forged + length rest\<close>
      by (simp add: resolve_def Let_def)
    ultimately show ?thesis by blast
  next
    case False
    then have "secure_proto (last (forged_protos @ protos))"
      using assms w \<open>protos \<noteq> []\<close>
      by (auto simp: resolve_def Let_def split: option.splits)
    then show ?thesis using \<open>protos \<noteq> []\<close> by (metis last_appendR last_in_set)
  qed
qed

theorem forged_protos_are_not_believed_witness:
  "\<exists>s\<in>set [''WSS'']. secure_proto s"
  by (rule forged_protos_are_not_believed
        [where c = "(=)" and p = edge and peer = "ipv4 10 0 0 1" and forged = "[''6.6.6.6'']"
           and rest = "[''198.51.100.4'']" and forged_protos = "[''http'']"
           and h = "xff ''6.6.6.6, 198.51.100.4'' ''http, WSS''"])
    (simp_all add: proxy_eval resolve_def Let_def)

text \<open>
  A forwarded header from a peer that is no trusted proxy changes nothing, and a connection
  is secure only on a trusted proxy's word or, with no proxy named, from loopback.
\<close>

theorem secure_only_by_proxy_or_direct_loopback:
  "(\<not> tp_contains c p peer \<longrightarrow> resolve c p peer h = resolve c p peer [] \<and>
                                client_ip c p peer h = canonical peer) \<and>
   (fc_secure (resolve c p peer h) \<longrightarrow>
      (tp_contains c p peer \<and> (\<exists>s\<in>set (protos_of h). secure_proto s)) \<or>
      (tp_nets p = [] \<and> is_loopback (canonical peer)))"
proof (cases "tp_contains c p peer")
  case True
  obtain ip at where w: "walked c p peer 0 (hops_of h) = (ip, at)" by fastforce
  have "fc_secure (resolve c p peer h) \<Longrightarrow> \<exists>s\<in>set (protos_of h). secure_proto s"
    using True w by (auto simp: resolve_def Let_def split: option.splits if_splits)
  with True show ?thesis by blast
next
  case False
  then show ?thesis by (simp add: resolve_untrusted client_ip_def behind_proxy_def)
qed

theorem secure_only_by_proxy_or_direct_loopback_witness:
  "resolve (=) edge (ipv4 203 0 113 9) (xff ''1.1.1.1'' ''https'') =
     resolve (=) edge (ipv4 203 0 113 9) [] \<and>
   client_ip (=) edge (ipv4 203 0 113 9) (xff ''1.1.1.1'' ''https'') = ipv4 203 0 113 9"
proof -
  have "\<not> tp_contains (=) edge (ipv4 203 0 113 9)" by (simp add: proxy_eval)
  moreover have "canonical (ipv4 203 0 113 9) = ipv4 203 0 113 9" by (simp add: ipv4_def)
  ultimately show ?thesis
    using secure_only_by_proxy_or_direct_loopback [of "(=)" edge "ipv4 203 0 113 9"] by metis
qed

end
