(* ===== verification/Tls.thy ===== *)
theory Tls
  imports Places Net
begin

text \<open>
  tls.rs (TRANSPORT-26): the pair a listener presents and when it is read again, the handshake
  and whose refusal is said, the peers whose connections are TLS, and the listener that hands on
  finished handshakes (\<open>Tls_Listener\<close> has its steps). The PEM reader, rustls and the file system are not under src/: what they
  answer is a \<open>loader\<close> and a \<open>disk\<close>, arguments of the definitions.
\<close>

record tls_config =
  tls_cert :: string
  tls_key :: string

definition tls_config_new :: "string \<Rightarrow> string \<Rightarrow> tls_config" where
  "tls_config_new cert key = \<lparr>tls_cert = cert, tls_key = key\<rparr>"

definition HANDSHAKE_TIMEOUT :: nat where
  "HANDSHAKE_TIMEOUT = 10000"

section \<open>The pair, read again when its files change\<close>

record stamp_t =
  st_len :: u64
  st_modified :: "nat option"
  st_ino :: u64

type_synonym disk = "string \<Rightarrow> stamp_t option"
type_synonym stamps = "stamp_t option \<times> stamp_t option"

definition stamp :: "disk \<Rightarrow> string \<Rightarrow> stamp_t option" where
  "stamp disk path =
     (case disk path of
        None \<Rightarrow> None
      | Some m \<Rightarrow> Some \<lparr>st_len = st_len m, st_modified = st_modified m, st_ino = st_ino m\<rparr>)"

definition stamps_of :: "disk \<Rightarrow> tls_config \<Rightarrow> stamps" where
  "stamps_of disk c = (stamp disk (tls_cert c), stamp disk (tls_key c))"

text \<open>
  The PEM iterator of a file (opening it may fail, each item may fail), the key's reader, and
  rustls's check of the two together.
\<close>

record ('cert, 'der, 'pair) loader =
  ld_certs :: "string \<Rightarrow> string + (string + 'cert) list"
  ld_key :: "string \<Rightarrow> string + 'der"
  ld_pair :: "'cert list \<Rightarrow> 'der \<Rightarrow> string + 'pair"

definition load :: "('cert, 'der, 'pair) loader \<Rightarrow> tls_config \<Rightarrow> string + 'pair" where
  "load l c =
     (let why = (\<lambda>e. ''certificate '' @ tls_cert c @ '': '' @ e) in
      case ld_certs l (tls_cert c) of Inl e \<Rightarrow> Err (why e) | Inr items \<Rightarrow>
      case collect_results items of Inl e \<Rightarrow> Err (why e) | Inr certs \<Rightarrow>
        if certs = [] then Err (''certificate '' @ tls_cert c @ '': no CERTIFICATE in it'')
        else case ld_key l (tls_key c) of
               Inl e \<Rightarrow> Err (''key '' @ tls_key c @ '': '' @ e)
             | Inr key \<Rightarrow>
                 (case ld_pair l certs key of
                    Inl e \<Rightarrow> Err (tls_cert c @ '' with '' @ tls_key c @ '': '' @ e)
                  | Inr pair \<Rightarrow> Ok pair))"

record 'pair reloading =
  rl_config :: tls_config
  rl_current :: "stamps \<times> 'pair"
  rl_failed :: "stamps option"

text \<open>\<open>Reloading::new\<close>: the stamps first, then the load, which may fail the start.\<close>

definition reloading_new ::
  "disk \<Rightarrow> ('cert, 'der, 'pair) loader \<Rightarrow> tls_config \<Rightarrow> string + 'pair reloading" where
  "reloading_new disk l c =
     (case load l c of
        Inl e \<Rightarrow> Err e
      | Inr pair \<Rightarrow>
          Ok \<lparr>rl_config = c, rl_current = (stamps_of disk c, pair), rl_failed = None\<rparr>)"

text \<open>
  \<open>Reloading::current\<close> is two critical sections: the read lock, where an unchanged pair is
  handed out, and both locks, where the stamps are compared again before the files are read.
  The stamps are taken before either. The flag says that the files were read.
\<close>

definition current_unchanged :: "stamps \<Rightarrow> 'pair reloading \<Rightarrow> 'pair option" where
  "current_unchanged s r = (if fst (rl_current r) = s then Some (snd (rl_current r)) else None)"

definition current_reload ::
  "('cert, 'der, 'pair) loader \<Rightarrow> stamps \<Rightarrow> 'pair reloading \<Rightarrow> ('pair reloading \<times> bool) \<times> 'pair"
where
  "current_reload l s r =
     (if fst (rl_current r) = s \<or> rl_failed r = Some s then ((r, False), snd (rl_current r))
      else case load l (rl_config r) of
             Inr pair \<Rightarrow> ((r\<lparr>rl_current := (s, pair), rl_failed := None\<rparr>, True), pair)
           | Inl why \<Rightarrow> ((r\<lparr>rl_failed := Some s\<rparr>, True), snd (rl_current r)))"

definition current ::
  "disk \<Rightarrow> ('cert, 'der, 'pair) loader \<Rightarrow> 'pair reloading \<Rightarrow> ('pair reloading \<times> bool) \<times> 'pair"
where
  "current disk l r =
     (let s = stamps_of disk (rl_config r) in
      case current_unchanged s r of
        Some pair \<Rightarrow> ((r, False), pair)
      | None \<Rightarrow> current_reload l s r)"

text \<open>
  Handshakes racing on one \<open>Reloading\<close>: each took its stamps at its own time and enters the
  second section in some order, with the files as they are then. The list is that order; the
  result is the state, the number of reads, and the pairs presented.
\<close>

fun reloads ::
  "(stamps \<times> ('cert, 'der, 'pair) loader) list \<Rightarrow> 'pair reloading \<Rightarrow> 'pair reloading \<times> nat \<times> 'pair list"
where
  "reloads [] r = (r, 0, [])"
| "reloads ((s, l) # hs) r =
     (case current_reload l s r of ((r1, did), pair) \<Rightarrow>
      case reloads hs r1 of (r2, n, pairs) \<Rightarrow>
        (r2, n + (if did then 1 else 0), pair # pairs))"

definition settled :: "stamps \<Rightarrow> 'pair reloading \<Rightarrow> bool" where
  "settled s r \<longleftrightarrow> fst (rl_current r) = s \<or> rl_failed r = Some s"

lemma current_reload_settled: "settled s (fst (fst (current_reload l s r)))"
  by (auto simp: current_reload_def settled_def split: sum.splits)

lemma current_reload_config [simp]:
  "rl_config (fst (fst (current_reload l s r))) = rl_config r"
  by (auto simp: current_reload_def split: sum.splits)

lemma settled_reloads:
  assumes "settled s r" and "\<forall>h\<in>set hs. fst h = s"
  shows "reloads hs r = (r, 0, replicate (length hs) (snd (rl_current r)))"
  using assms
proof (induction hs)
  case (Cons h hs)
  then show ?case
    by (cases h) (auto simp: settled_def current_reload_def)
qed simp

lemma settled_current: "settled (stamps_of disk (rl_config r)) r \<Longrightarrow> current disk l r = ((r, False), snd (rl_current r))"
  by (auto simp: current_def current_unchanged_def current_reload_def settled_def Let_def)

lemma current_settles: "settled (stamps_of disk (rl_config r)) (fst (fst (current disk l r)))"
  using current_reload_settled [of "stamps_of disk (rl_config r)" l r]
  by (auto simp: current_def current_unchanged_def settled_def Let_def)

section \<open>Handshakes, and whose refusal is said\<close>

datatype handshake = Finished | Refused string | TimedOut

datatype log_level = Warn | Debug

text \<open>
  \<open>Tls::accept\<close>: a finished handshake holds the peer's place among the secure ones (below);
  a refused one is said at \<open>warn\<close> the first time for its address. The set of addresses is
  emptied when it holds 4096.
\<close>

definition refuse_handshake :: "ip_addr set \<Rightarrow> ip_addr \<Rightarrow> ip_addr set \<times> log_level" where
  "refuse_handshake said ip =
     (let said1 = (if 4096 \<le> card said then {} else said)
      in (insert ip said1, if ip \<in> said1 then Debug else Warn))"

text \<open>
  A listener's TLS, loaded: the pair, and no one's refusal said yet. What rustls says of its own
  protocol versions is an argument.
\<close>

definition tls_load ::
  "disk \<Rightarrow> ('cert, 'der, 'pair) loader \<Rightarrow> string option \<Rightarrow> tls_config \<Rightarrow>
   string + 'pair reloading \<times> ip_addr set"
where
  "tls_load disk l versions c =
     (case reloading_new disk l c of
        Inl e \<Rightarrow> Err (''TLS: '' @ e)
      | Inr r \<Rightarrow>
          (case versions of
             Some e \<Rightarrow> Err (''TLS: '' @ e)
           | None \<Rightarrow> Ok (r, {})))"

section \<open>Secure peers\<close>

text \<open>The places of TLS connections in the process-wide map, one per connection.\<close>

definition secure_peer_new :: "socket_addr counts \<Rightarrow> socket_addr \<Rightarrow> socket_addr counts" where
  "secure_peer_new peers p = up peers p"

definition secure_peer_drop :: "socket_addr counts \<Rightarrow> socket_addr \<Rightarrow> socket_addr counts" where
  "secure_peer_drop peers p = down peers p"

definition is_tls_peer :: "socket_addr counts \<Rightarrow> socket_addr \<Rightarrow> bool" where
  "is_tls_peer peers p \<longleftrightarrow> p \<in> dom peers"

definition tls_accept ::
  "handshake \<Rightarrow> ip_addr set \<times> socket_addr counts \<Rightarrow> socket_addr \<Rightarrow>
   (ip_addr set \<times> socket_addr counts) \<times> (bool \<times> (log_level \<times> string) option)"
where
  "tls_accept hs st peer =
     (case st of (said, peers) \<Rightarrow>
      (case hs of
         Finished \<Rightarrow> ((said, secure_peer_new peers peer), (True, None))
       | Refused e \<Rightarrow>
           (case refuse_handshake said (sa_ip peer) of
              (said', level) \<Rightarrow> ((said', peers), (False, Some (level, e))))
       | TimedOut \<Rightarrow>
           (case refuse_handshake said (sa_ip peer) of
              (said', level) \<Rightarrow>
                ((said', peers), (False, Some (level, ''no handshake within the time''))))))"

text \<open>The secure peers' places are gauged by address: no limit, no refusal.\<close>

definition secure_take :: "socket_addr counts \<Rightarrow> socket_addr \<Rightarrow> socket_addr counts \<times> bool" where
  "secure_take peers p = (secure_peer_new peers p, True)"

interpretation secure: gauged count_of secure_take secure_peer_drop "\<lambda>p. {p}" tight
  by unfold_locales
    (auto simp: secure_take_def secure_peer_new_def secure_peer_drop_def gauge_simps)

lemma is_tls_peer_counts: "tight peers \<Longrightarrow> is_tls_peer peers p \<longleftrightarrow> 0 < count_of peers p"
  by (simp add: is_tls_peer_def tight_dom)

lemma secure_history_tight:
  "history secure_take secure_peer_drop (Map.empty, []) es = (peers, held) \<Longrightarrow> tight peers"
  by (rule secure.history_inv) auto

lemma secure_history_counts:
  "history secure_take secure_peer_drop (Map.empty, []) es = (peers, held) \<Longrightarrow>
   count_of peers p = charged (\<lambda>p. {p}) p held"
  by (rule secure.gauge_counts_held) auto

lemma charged_self_pos: "0 < charged (\<lambda>p. {p}) p held \<longleftrightarrow> p \<in> set held"
  by (induction held) auto

section \<open>axum's listeners, in TLS\<close>

text \<open>
  What \<open>serve_axum\<close> runs a router on: the listener's address, and whether it is in TLS. Only a
  pair that does not load refuses it.
\<close>

record axum_listener =
  ax_addr :: socket_addr
  ax_tls :: bool

definition serve_axum ::
  "(tls_config \<Rightarrow> string + unit) \<Rightarrow> socket_addr \<Rightarrow> tls_config option \<Rightarrow> string + axum_listener" where
  "serve_axum load_tls addr tls =
     (case tls of
        None \<Rightarrow> Ok \<lparr>ax_addr = addr, ax_tls = False\<rparr>
      | Some config \<Rightarrow>
          (case load_tls config of
             Inl e \<Rightarrow> Err e
           | Inr _ \<Rightarrow> Ok \<lparr>ax_addr = addr, ax_tls = True\<rparr>))"

section \<open>Properties\<close>

lemma reloads_append:
  "reloads (hs @ gs) r =
   (case reloads hs r of (r1, n, ps) \<Rightarrow> case reloads gs r1 of (r2, m, qs) \<Rightarrow> (r2, n + m, ps @ qs))"
  by (induction hs r rule: reloads.induct) (auto split: prod.splits)

lemma current_reload_pair:
  "snd (current_reload l s r) = snd (rl_current (fst (fst (current_reload l s r)))) \<and>
   (snd (rl_current (fst (fst (current_reload l s r)))) = snd (rl_current r) \<or>
    load l (rl_config r) = Ok (snd (rl_current (fst (fst (current_reload l s r))))))"
  by (auto simp: current_reload_def split: sum.splits)

lemma reloads_pairs:
  "reloads hs r = (r', n, pairs) \<Longrightarrow> pair \<in> set pairs \<Longrightarrow>
   pair = snd (rl_current r) \<or> (\<exists>(s, l)\<in>set hs. load l (rl_config r) = Ok pair)"
proof (induction hs arbitrary: r r' n pairs)
  case (Cons h hs)
  obtain s l where h: "h = (s, l)" by (cases h)
  obtain r1 did p where c: "current_reload l s r = ((r1, did), p)"
    by (cases "current_reload l s r") auto
  obtain r2 m ps where rest: "reloads hs r1 = (r2, m, ps)" by (cases "reloads hs r1") auto
  have p: "p = snd (rl_current r1)" "p = snd (rl_current r) \<or> load l (rl_config r) = Ok p"
    using current_reload_pair [of l s r] c by auto
  have cfg: "rl_config r1 = rl_config r" using current_reload_config [of l s r] c by simp
  have "pair = p \<or> pair \<in> set ps" using Cons.prems h c rest by auto
  then show ?case using Cons.IH [OF rest] p cfg h by auto
qed simp


definition pem_loader :: "nat \<Rightarrow> (nat, nat, nat) loader" where
  "pem_loader n = \<lparr>ld_certs = (\<lambda>_. Ok [Ok n]), ld_key = (\<lambda>_. Ok n), ld_pair = (\<lambda>_ k. Ok k)\<rparr>"

definition broken_loader :: "(nat, nat, nat) loader" where
  "broken_loader = \<lparr>ld_certs = (\<lambda>_. Ok []), ld_key = (\<lambda>_. Ok 0), ld_pair = (\<lambda>_ k. Ok k)\<rparr>"

definition file_stamp :: "nat \<Rightarrow> stamp_t" where
  "file_stamp t = \<lparr>st_len = 10, st_modified = Some t, st_ino = 1\<rparr>"

definition serving :: "nat reloading" where
  "serving =
     \<lparr>rl_config = \<lparr>tls_cert = ''c'', tls_key = ''k''\<rparr>,
      rl_current = ((Some (file_stamp 0), Some (file_stamp 0)), 7), rl_failed = None\<rparr>"


text \<open>
  Every pair a listener presents is one that loaded: the pair of its start, or one some
  handshake read since. A renewal that does not load never takes the listener's pair away.
\<close>

theorem every_presented_pair_loaded:
  assumes "reloading_new disk l0 c = Ok r" and "reloads hs r = (r', n, pairs)"
    and "pair \<in> set pairs"
  shows "load l0 c = Ok pair \<or> (\<exists>(s, l)\<in>set hs. load l c = Ok pair)"
proof -
  have "rl_config r = c" and "load l0 c = Ok (snd (rl_current r))"
    using assms(1) by (auto simp: reloading_new_def split: sum.splits)
  then show ?thesis using reloads_pairs [OF assms(2,3)] by auto
qed

lemma load_loaders:
  "load (pem_loader n) c = Ok n"
  "load broken_loader c = Err (''certificate '' @ tls_cert c @ '': no CERTIFICATE in it'')"
  by (simp_all add: load_def pem_loader_def broken_loader_def)

lemma every_presented_pair_loaded_witness:
  "load (pem_loader 7) \<lparr>tls_cert = ''c'', tls_key = ''k''\<rparr> = Ok 7 \<or>
   (\<exists>(s, l)\<in>set [((Some (file_stamp 1), Some (file_stamp 0)), broken_loader)].
      load l \<lparr>tls_cert = ''c'', tls_key = ''k''\<rparr> = Ok 7)"
proof (rule every_presented_pair_loaded)
  let ?c = "\<lparr>tls_cert = ''c'', tls_key = ''k''\<rparr>"
  show "reloading_new (\<lambda>_. Some (file_stamp 0)) (pem_loader 7) ?c =
      Ok \<lparr>rl_config = ?c, rl_current = ((Some (file_stamp 0), Some (file_stamp 0)), 7), rl_failed = None\<rparr>"
    by (simp add: reloading_new_def load_loaders stamps_of_def stamp_def file_stamp_def)
  show "reloads [((Some (file_stamp 1), Some (file_stamp 0)), broken_loader)]
        \<lparr>rl_config = ?c, rl_current = ((Some (file_stamp 0), Some (file_stamp 0)), 7), rl_failed = None\<rparr> =
      (\<lparr>rl_config = ?c, rl_current = ((Some (file_stamp 0), Some (file_stamp 0)), 7),
        rl_failed = Some (Some (file_stamp 1), Some (file_stamp 0))\<rparr>, 1, [7])"
    by (simp add: current_reload_def load_loaders file_stamp_def)
qed simp

text \<open>
  A peer is known as a TLS peer exactly while one of its TLS connections is open: over every
  history of handshakes that finished and connections that ended, in any order, the process-wide
  map names exactly the peers of the streams still held.
\<close>

theorem tls_peer_iff_connection_open:
  assumes "history secure_take secure_peer_drop (Map.empty, []) es = (peers, held)"
  shows "is_tls_peer peers p \<longleftrightarrow> p \<in> set held"
  by (simp add: is_tls_peer_counts [OF secure_history_tight [OF assms]]
      secure_history_counts [OF assms] charged_self_pos)

end
