(* ===== verification/Config.thy ===== *)
theory Config
  imports Proxy Tls
begin

text \<open>
  config.rs and the limits of ws/mod.rs: what a server is told, its defaults and its builders.
  A duration is in milliseconds. A header name is lower case, as \<open>http::HeaderName\<close> keeps it.
  The crate's version (\<open>env!("CARGO_PKG_VERSION")\<close>) is an argument. The features
  \<open>tls\<close> and \<open>sqlite-sessions\<close> are taken to be on.
\<close>

definition DEFAULT_API_KEY_HEADER :: string where
  "DEFAULT_API_KEY_HEADER = ''X-Plexus-API-Key''"

definition CALLS_PER_CONNECTION :: nat where
  "CALLS_PER_CONNECTION = 256"

section \<open>Connection quotas\<close>

record connection_quotas =
  max_connections :: nat
  max_per_ip :: nat
  max_per_principal :: nat
  max_anonymous :: nat
  max_anonymous_per_ip :: nat
  max_calls_per_connection :: nat

definition default_quotas :: connection_quotas where
  "default_quotas =
     \<lparr>max_connections = 1024, max_per_ip = 256, max_per_principal = 64, max_anonymous = 128,
      max_anonymous_per_ip = 32, max_calls_per_connection = CALLS_PER_CONNECTION\<rparr>"

section \<open>The WebSocket's configuration\<close>

record 'net websocket_config =
  wsc_addr :: socket_addr
  wsc_api_key :: "string option"
  wsc_api_key_header :: string
  wsc_allowed_origins :: "string list"
  wsc_allowed_hosts :: "string list"
  wsc_quotas :: connection_quotas
  wsc_trusted_proxies :: "'net trusted_proxies"
  wsc_tls :: "tls_config option"

definition loopback_addr :: "u16 \<Rightarrow> socket_addr" where
  "loopback_addr port = \<lparr>sa_ip = localhost, sa_port = port\<rparr>"

definition websocket_config_new :: "u16 \<Rightarrow> 'net websocket_config" where
  "websocket_config_new port =
     \<lparr>wsc_addr = loopback_addr port, wsc_api_key = None, wsc_api_key_header = ''x-plexus-api-key'',
      wsc_allowed_origins = [], wsc_allowed_hosts = [], wsc_quotas = default_quotas,
      wsc_trusted_proxies = tp_default, wsc_tls = None\<rparr>"

definition ws_with_addr :: "socket_addr \<Rightarrow> 'net websocket_config \<Rightarrow> 'net websocket_config" where
  "ws_with_addr a c = c\<lparr>wsc_addr := a\<rparr>"

definition ws_with_tls :: "tls_config \<Rightarrow> 'net websocket_config \<Rightarrow> 'net websocket_config" where
  "ws_with_tls t c = c\<lparr>wsc_tls := Some t\<rparr>"

definition ws_with_trusted_proxies ::
  "'net trusted_proxies \<Rightarrow> 'net websocket_config \<Rightarrow> 'net websocket_config" where
  "ws_with_trusted_proxies p c = c\<lparr>wsc_trusted_proxies := p\<rparr>"

definition ws_with_allowed_hosts :: "string list \<Rightarrow> 'net websocket_config \<Rightarrow> 'net websocket_config" where
  "ws_with_allowed_hosts hosts c = c\<lparr>wsc_allowed_hosts := hosts\<rparr>"

definition ws_with_api_key_header :: "string \<Rightarrow> 'net websocket_config \<Rightarrow> 'net websocket_config" where
  "ws_with_api_key_header h c = c\<lparr>wsc_api_key_header := h\<rparr>"

section \<open>The other listeners\<close>

record stdio_config =
  subscription_buffer_size :: nat

definition default_stdio :: stdio_config where
  "default_stdio = \<lparr>subscription_buffer_size = 1024\<rparr>"

datatype session_storage = InMemory | Sqlite string

definition default_session_storage :: session_storage where
  "default_session_storage = InMemory"

record mcp_http_config =
  mcp_addr :: socket_addr
  mcp_session_storage :: session_storage
  mcp_server_name :: "string option"
  mcp_server_version :: "string option"
  mcp_api_key :: "string option"
  mcp_allowed_hosts :: "string list"
  mcp_tls :: "tls_config option"

definition mcp_http_config_new :: "u16 \<Rightarrow> mcp_http_config" where
  "mcp_http_config_new port =
     \<lparr>mcp_addr = loopback_addr port, mcp_session_storage = default_session_storage,
      mcp_server_name = None, mcp_server_version = None, mcp_api_key = None,
      mcp_allowed_hosts = [], mcp_tls = None\<rparr>"

definition mcp_with_allowed_hosts :: "string list \<Rightarrow> mcp_http_config \<Rightarrow> mcp_http_config" where
  "mcp_with_allowed_hosts hosts c = c\<lparr>mcp_allowed_hosts := hosts\<rparr>"

definition mcp_with_server_name :: "string \<Rightarrow> mcp_http_config \<Rightarrow> mcp_http_config" where
  "mcp_with_server_name n c = c\<lparr>mcp_server_name := Some n\<rparr>"

definition mcp_with_server_version :: "string \<Rightarrow> mcp_http_config \<Rightarrow> mcp_http_config" where
  "mcp_with_server_version v c = c\<lparr>mcp_server_version := Some v\<rparr>"

definition mcp_with_tls :: "tls_config \<Rightarrow> mcp_http_config \<Rightarrow> mcp_http_config" where
  "mcp_with_tls t c = c\<lparr>mcp_tls := Some t\<rparr>"

definition mcp_with_sqlite :: "string \<Rightarrow> mcp_http_config \<Rightarrow> mcp_http_config" where
  "mcp_with_sqlite path c = c\<lparr>mcp_session_storage := Sqlite path\<rparr>"

record rest_http_config =
  rest_addr :: socket_addr
  rest_server_name :: string
  rest_server_version :: string
  rest_allowed_hosts :: "string list"
  rest_tls :: "tls_config option"

definition rest_http_config_new :: "string \<Rightarrow> u16 \<Rightarrow> rest_http_config" where
  "rest_http_config_new cargo_version port =
     \<lparr>rest_addr = loopback_addr port, rest_server_name = ''plexus-rest'',
      rest_server_version = cargo_version, rest_allowed_hosts = [], rest_tls = None\<rparr>"

definition rest_with_allowed_hosts :: "string list \<Rightarrow> rest_http_config \<Rightarrow> rest_http_config" where
  "rest_with_allowed_hosts hosts c = c\<lparr>rest_allowed_hosts := hosts\<rparr>"

definition rest_with_server_name :: "string \<Rightarrow> rest_http_config \<Rightarrow> rest_http_config" where
  "rest_with_server_name n c = c\<lparr>rest_server_name := n\<rparr>"

definition rest_with_server_version :: "string \<Rightarrow> rest_http_config \<Rightarrow> rest_http_config" where
  "rest_with_server_version v c = c\<lparr>rest_server_version := v\<rparr>"

definition rest_with_tls :: "tls_config \<Rightarrow> rest_http_config \<Rightarrow> rest_http_config" where
  "rest_with_tls t c = c\<lparr>rest_tls := Some t\<rparr>"

record 'net transport_config =
  tc_websocket :: "'net websocket_config option"
  tc_stdio :: "stdio_config option"
  tc_mcp_http :: "mcp_http_config option"
  tc_rest_http :: "rest_http_config option"
  tc_api_key :: "string option"
  tc_api_key_header :: string

definition default_transport_config :: "'net transport_config" where
  "default_transport_config =
     \<lparr>tc_websocket = None, tc_stdio = None, tc_mcp_http = None, tc_rest_http = None,
      tc_api_key = None, tc_api_key_header = ''x-plexus-api-key''\<rparr>"

section \<open>A socket's limits\<close>

definition MAX_MESSAGE_SIZE :: nat where
  "MAX_MESSAGE_SIZE = 10 * 1024 * 1024"

record socket_limits =
  max_message_size :: nat
  ping_interval :: "nat option"
  ping_timeout :: nat
  idle_timeout :: "nat option"
  header_timeout :: nat
  max_pending_per_ip :: "nat option"
  queue :: nat
  write_budget :: nat

definition default_limits :: socket_limits where
  "default_limits =
     \<lparr>max_message_size = MAX_MESSAGE_SIZE, ping_interval = Some 30000, ping_timeout = 70000,
      idle_timeout = None, header_timeout = 10000, max_pending_per_ip = None, queue = 1024,
      write_budget = 64 * 1024\<rparr>"

datatype encoding = Json

record negotiated =
  ng_encoding :: encoding
  ng_batch :: nat

definition default_negotiated :: negotiated where
  "default_negotiated = \<lparr>ng_encoding = Json, ng_batch = 0\<rparr>"

definition LIVENESS_EVERY :: nat where
  "LIVENESS_EVERY = 1000"

text \<open>The default name is the one the configurations carry.\<close>

lemma default_header_name: "to_ascii_lowercase DEFAULT_API_KEY_HEADER = tc_api_key_header default_transport_config"
  by (simp add: DEFAULT_API_KEY_HEADER_def default_transport_config_def to_ascii_lowercase_def
      ascii_lower_def code_def char_of_def bit_iff_odd)

end
