(* ===== verification/Calls.thy ===== *)
theory Calls
  imports Places Config
begin

text \<open>
  calls.rs (BIDIR-8): the calls open on one connection. The count is an atomic shared by the
  handle's clones; a place is taken by compare-and-exchange and given back by its drop. The
  sequential operations come first; then the loop itself, as steps of threads that race on the
  one count.
\<close>

record connection_calls =
  cc_open :: nat
  cc_max :: nat

datatype too_many_calls = TooManyCalls nat

definition show_too_many_calls :: "too_many_calls \<Rightarrow> string" where
  "show_too_many_calls e =
     (case e of TooManyCalls m \<Rightarrow>
        ''too many calls open on this connection (at most '' @ show_nat m @ '')'')"

definition calls_new :: "nat \<Rightarrow> connection_calls" where
  "calls_new m = \<lparr>cc_open = 0, cc_max = m\<rparr>"

definition open_count :: "connection_calls \<Rightarrow> nat" where
  "open_count c = cc_open c"

definition try_open_within ::
  "nat \<Rightarrow> connection_calls \<Rightarrow> connection_calls \<times> (too_many_calls + unit)" where
  "try_open_within limit c =
     (let m = min (cc_max c) limit in
      if m \<le> cc_open c then (c, Err (TooManyCalls m))
      else (c\<lparr>cc_open := cc_open c + 1\<rparr>, Ok ()))"

definition try_open :: "connection_calls \<Rightarrow> connection_calls \<times> (too_many_calls + unit)" where
  "try_open c = try_open_within (cc_max c) c"

text \<open>\<open>CallCounter::take_place\<close>, what plexus-core's duplex gate calls.\<close>

definition take_place :: "connection_calls \<Rightarrow> connection_calls \<times> (nat + unit)" where
  "take_place c =
     (case try_open c of
        (c', Inl (TooManyCalls m)) \<Rightarrow> (c', Err m)
      | (c', Inr u) \<Rightarrow> (c', Ok u))"

definition drop_place :: "connection_calls \<Rightarrow> connection_calls" where
  "drop_place c = c\<lparr>cc_open := cc_open c - 1\<rparr>"

section \<open>Places on one connection\<close>

definition take_call :: "connection_calls \<Rightarrow> unit \<Rightarrow> connection_calls \<times> bool" where
  "take_call c t = (case try_open c of (c', r) \<Rightarrow> (c', \<not> isl r))"

definition give_call :: "connection_calls \<Rightarrow> unit \<Rightarrow> connection_calls" where
  "give_call c t = drop_place c"

definition max_is :: "nat \<Rightarrow> connection_calls \<Rightarrow> bool" where
  "max_is m c \<longleftrightarrow> cc_max c = m"

lemma take_call_eq:
  "take_call c t = (if cc_open c < cc_max c then (c\<lparr>cc_open := cc_open c + 1\<rparr>, True) else (c, False))"
  by (auto simp: take_call_def try_open_def try_open_within_def)

interpretation calls: limited "\<lambda>c (_ :: unit). cc_open c" take_call give_call "\<lambda>_. UNIV" "max_is m" "\<lambda>_. m"
  for m
  by unfold_locales
    (auto simp: take_call_eq give_call_def drop_place_def max_is_def split: if_splits)

section \<open>The compare-and-exchange loop\<close>

text \<open>
  A thread in \<open>try_open_within\<close>: it has read the count (\<open>Loaded limit now\<close>), or holds a
  place, or was refused at a maximum, or is outside.
\<close>

datatype caller = Outside | Loaded nat nat | Holding | Turned_away nat

type_synonym racers = "nat \<times> nat \<times> (nat \<Rightarrow> caller)"

inductive race :: "racers \<Rightarrow> racers \<Rightarrow> bool" where
  load_count:
    "th i = Outside \<Longrightarrow> race (m, n, th) (m, n, th(i := Loaded (min m limit) n))"
| refuse:
    "th i = Loaded k now \<Longrightarrow> k \<le> now \<Longrightarrow> race (m, n, th) (m, n, th(i := Turned_away k))"
| exchanged:
    "th i = Loaded k now \<Longrightarrow> now < k \<Longrightarrow> n = now \<Longrightarrow> race (m, n, th) (m, now + 1, th(i := Holding))"
| seen_other:
    "th i = Loaded k now \<Longrightarrow> now < k \<Longrightarrow> n \<noteq> now \<Longrightarrow> race (m, n, th) (m, n, th(i := Loaded k n))"
| give_back:
    "th i = Holding \<Longrightarrow> race (m, n, th) (m, n - 1, th(i := Outside))"
| go_away:
    "th i = Turned_away k \<Longrightarrow> race (m, n, th) (m, n, th(i := Outside))"

definition holders :: "(nat \<Rightarrow> caller) \<Rightarrow> nat set" where
  "holders th = {i. th i = Holding}"

text \<open>The count is the holders, who are at most the maximum.\<close>

fun race_ok :: "racers \<Rightarrow> bool" where
  "race_ok (m, n, th) \<longleftrightarrow>
     finite (holders th) \<and> n = card (holders th) \<and> n \<le> m \<and>
     (\<forall>i k now. th i = Loaded k now \<longrightarrow> k \<le> m)"

lemma holders_upd:
  "holders (th(i := Holding)) = insert i (holders th)"
  "c \<noteq> Holding \<Longrightarrow> holders (th(i := c)) = holders th - {i}"
  by (auto simp: holders_def)

lemma race_ok_step: "race s s' \<Longrightarrow> race_ok s \<Longrightarrow> race_ok s'"
proof (induction rule: race.induct)
  case (exchanged th i k now n m)
  then have "i \<notin> holders th" by (simp add: holders_def)
  moreover have "now < m" using exchanged by force
  ultimately show ?case using exchanged by (auto simp: holders_upd)
next
  case (give_back th i m n)
  then have "i \<in> holders th" by (simp add: holders_def)
  then show ?case using give_back by (auto simp: holders_upd)
qed (auto simp: holders_upd, auto simp: holders_def)

lemma race_ok_reachable: "race\<^sup>*\<^sup>* s s' \<Longrightarrow> race_ok s \<Longrightarrow> race_ok s'"
  by (induction rule: rtranclp_induct) (auto intro: race_ok_step)

lemma race_ok_start: "race_ok (m, 0, \<lambda>_. Outside)"
  by (simp add: holders_def)

section \<open>Properties\<close>

text \<open>
  C33. Threads racing to open calls on one connection, interleaved in any way at their loads and
  compare-and-exchanges, never hold more places than its maximum, and its count is always exactly
  the places held, whatever stricter limits they ask within.
\<close>

theorem racing_calls_never_pass_the_maximum:
  assumes "race\<^sup>*\<^sup>* (m, 0, \<lambda>_. Outside) (m', n, th)"
  shows "n = card (holders th) \<and> n \<le> m'"
  using race_ok_reachable [OF assms race_ok_start] by simp

lemma racing_calls_never_pass_the_maximum_witness:
  "1 = card (holders ((\<lambda>_. Outside)(0 := Holding, 1 := Turned_away 1))) \<and> 1 \<le> (1::nat)"
proof (rule racing_calls_never_pass_the_maximum)
  let ?o = "\<lambda>_ :: nat. Outside"
  have "race (1, 0, ?o) (1, 0, ?o(0 := Loaded 1 0))"
    using load_count [of ?o 0 1 0 1] by simp
  moreover have "race (1, 0, ?o(0 := Loaded 1 0)) (1, 0, ?o(0 := Loaded 1 0, 1 := Loaded 1 0))"
    using load_count [of "?o(0 := Loaded 1 0)" 1 1 0 1] by simp
  moreover have "race (1, 0, ?o(0 := Loaded 1 0, 1 := Loaded 1 0)) (1, 1, ?o(0 := Holding, 1 := Loaded 1 0))"
    using exchanged [of "?o(0 := Loaded 1 0, 1 := Loaded 1 0)" 0 1 0 0 1] by (simp add: fun_upd_twist)
  moreover have "race (1, 1, ?o(0 := Holding, 1 := Loaded 1 0)) (1, 1, ?o(0 := Holding, 1 := Loaded 1 1))"
    using seen_other [of "?o(0 := Holding, 1 := Loaded 1 0)" 1 1 0 1 1] by simp
  moreover have "race (1, 1, ?o(0 := Holding, 1 := Loaded 1 1)) (1, 1, ?o(0 := Holding, 1 := Turned_away 1))"
    using refuse [of "?o(0 := Holding, 1 := Loaded 1 1)" 1 1 1 1 1] by simp
  ultimately show "race\<^sup>*\<^sup>* (1, 0, ?o) (1, 1, ?o(0 := Holding, 1 := Turned_away 1))"
    by (meson rtranclp.rtrancl_into_rtrancl rtranclp.rtrancl_refl)
qed

lemma charged_every [simp]: "charged (\<lambda>_. UNIV) g ts = length ts"
  by (simp add: charged_def)

text \<open>
  A connection's next call is refused exactly when the calls it holds fill its maximum, after
  any history of calls opened and ended; the refusal names the maximum.
\<close>

theorem call_refused_iff_connection_full:
  assumes "history take_call give_call (calls_new m, []) es = (c, held)"
  shows "snd (try_open c) = Err (TooManyCalls m) \<longleftrightarrow> length held = m"
proof -
  have "max_is m c" and "\<not> snd (take_call c ()) \<longleftrightarrow> length held = m"
    using calls.history_inv [of m "calls_new m" es c held]
      calls.refused_iff_full [of m "calls_new m" es c held "()"] assms
    by (simp_all add: max_is_def calls_new_def)
  then show ?thesis
    by (auto simp: max_is_def take_call_def try_open_def try_open_within_def split: if_splits)
qed

lemma call_refused_iff_connection_full_witness:
  "snd (try_open \<lparr>cc_open = 1, cc_max = 1\<rparr>) = Err (TooManyCalls 1) \<longleftrightarrow> length [()] = 1"
  by (rule call_refused_iff_connection_full [where es = "[Enter (), Leave (), Enter (), Enter ()]"])
    (simp add: take_call_eq give_call_def drop_place_def calls_new_def)

end
