(* ===== verification/Quotas.thy ===== *)
theory Quotas
  imports Places Config Net
begin

text \<open>
  websocket.rs, RPC-4 and AUTH-12: the sockets accepted from an address and not yet upgraded
  (\<open>Pending\<close>), and the open sockets against the connection quotas (\<open>Quotas\<close>). Both are maps
  behind one mutex, so each operation is atomic.
\<close>

section \<open>Sockets not yet upgraded\<close>

text \<open>
  \<open>entry(ip).or_default()\<close> makes an entry at 0 before the count is compared, and a refusal
  leaves it there.
\<close>

definition pending_take :: "nat \<Rightarrow> ip_addr counts \<Rightarrow> ip_addr \<Rightarrow> ip_addr counts \<times> bool" where
  "pending_take limit m ip =
     (let m1 = (case m ip of None \<Rightarrow> m(ip \<mapsto> 0) | Some _ \<Rightarrow> m) in
      if limit \<le> count_of m1 ip then (m1, False)
      else (m1(ip \<mapsto> count_of m1 ip + 1), True))"

definition pending_drop :: "ip_addr counts \<Rightarrow> ip_addr \<Rightarrow> ip_addr counts" where
  "pending_drop m ip =
     (case m ip of
        None \<Rightarrow> m
      | Some n \<Rightarrow> if n - 1 = 0 then m(ip := None) else m(ip \<mapsto> n - 1))"

lemma pending_drop_down: "pending_drop = down"
  by (auto simp: pending_drop_def down_def fun_eq_iff)

lemma pending_take_count [gauge_simps]:
  "pending_take limit m ip = (m', ok) \<Longrightarrow>
   count_of m' j = count_of m j + (if ok \<and> j = ip then 1 else 0)"
  by (auto simp: pending_take_def count_of_def Let_def split: if_splits option.splits)

lemma pending_take_ok: "snd (pending_take limit m ip) \<longleftrightarrow> count_of m ip < limit"
  by (auto simp: pending_take_def count_of_def Let_def split: option.splits)

lemma pending_take_tight: "0 < limit \<Longrightarrow> tight m \<Longrightarrow> tight (fst (pending_take limit m ip))"
  by (auto simp: pending_take_def count_of_def tight_def Let_def split: option.splits)

interpretation pending: limited count_of "pending_take limit" pending_drop "\<lambda>ip. {ip}" "\<lambda>_. True" "\<lambda>_. limit"
  for limit
  by unfold_locales
    (auto simp: pending_drop_down gauge_simps pending_take_ok)

section \<open>The connection quotas\<close>

record open_sockets =
  os_per_ip :: "ip_addr counts"
  os_per_principal :: "string counts"
  os_anonymous :: nat
  os_anonymous_per_ip :: "ip_addr counts"

definition no_sockets :: open_sockets where
  "no_sockets =
     \<lparr>os_per_ip = Map.empty, os_per_principal = Map.empty, os_anonymous = 0,
      os_anonymous_per_ip = Map.empty\<rparr>"

record quotas =
  q_limits :: connection_quotas
  q_open :: open_sockets
  q_identities :: bool

definition quotas_new :: "connection_quotas \<Rightarrow> bool \<Rightarrow> quotas" where
  "quotas_new limits identities =
     \<lparr>q_limits = limits, q_open = no_sockets, q_identities = identities\<rparr>"

text \<open>What a permit holds: the address, and who (not counted as anyone without a validator).\<close>

record quota_permit =
  qp_ip :: ip_addr
  qp_who :: "string option option"

definition at_most :: "nat \<Rightarrow> string" where
  "at_most n = '' (at most '' @ show_nat n @ '')''"

definition admit :: "quotas \<Rightarrow> ip_addr \<Rightarrow> string option \<Rightarrow> quotas \<times> (string + quota_permit)" where
  "admit q ip who =
     (let l = q_limits q; op = q_open q;
          placed = (\<lambda>op' w.
            (q\<lparr>q_open := op'\<lparr>os_per_ip := up (os_per_ip op') ip\<rparr>\<rparr>,
             Ok \<lparr>qp_ip = ip, qp_who = w\<rparr>)) in
      if max_per_ip l \<le> count_of (os_per_ip op) ip
      then (q, Err (''too many connections from '' @ show_ip ip @ at_most (max_per_ip l)))
      else if \<not> q_identities q then placed op None
      else case who of
             Some p \<Rightarrow>
               if max_per_principal l \<le> count_of (os_per_principal op) p
               then (q, Err (''too many connections as '' @ p @ at_most (max_per_principal l)))
               else placed (op\<lparr>os_per_principal := up (os_per_principal op) p\<rparr>) (Some (Some p))
           | None \<Rightarrow>
               if max_anonymous l \<le> os_anonymous op
               then (q, Err (''too many anonymous connections'' @ at_most (max_anonymous l) @ '': sign in''))
               else if max_anonymous_per_ip l \<le> count_of (os_anonymous_per_ip op) ip
               then (q, Err (''too many anonymous connections from '' @ show_ip ip @
                             at_most (max_anonymous_per_ip l) @ '': sign in''))
               else placed
                      (op\<lparr>os_anonymous := os_anonymous op + 1,
                          os_anonymous_per_ip := up (os_anonymous_per_ip op) ip\<rparr>)
                      (Some None))"

definition drop_permit :: "quotas \<Rightarrow> quota_permit \<Rightarrow> quotas" where
  "drop_permit q p =
     (let op = (q_open q)\<lparr>os_per_ip := down (os_per_ip (q_open q)) (qp_ip p)\<rparr> in
      q\<lparr>q_open :=
          (case qp_who p of
             Some (Some w) \<Rightarrow> op\<lparr>os_per_principal := down (os_per_principal op) w\<rparr>
           | Some None \<Rightarrow>
               op\<lparr>os_anonymous := os_anonymous op - 1,
                  os_anonymous_per_ip := down (os_anonymous_per_ip op) (qp_ip p)\<rparr>
           | None \<Rightarrow> op)\<rparr>)"

section \<open>What a socket is charged to\<close>

datatype quota_gauge = By_ip ip_addr | By_principal string | Anonymous | Anonymous_by_ip ip_addr

fun quota_count :: "quotas \<Rightarrow> quota_gauge \<Rightarrow> nat" where
  "quota_count q (By_ip ip) = count_of (os_per_ip (q_open q)) ip"
| "quota_count q (By_principal p) = count_of (os_per_principal (q_open q)) p"
| "quota_count q Anonymous = os_anonymous (q_open q)"
| "quota_count q (Anonymous_by_ip ip) = count_of (os_anonymous_per_ip (q_open q)) ip"

fun quota_limit :: "connection_quotas \<Rightarrow> quota_gauge \<Rightarrow> nat" where
  "quota_limit l (By_ip ip) = max_per_ip l"
| "quota_limit l (By_principal p) = max_per_principal l"
| "quota_limit l Anonymous = max_anonymous l"
| "quota_limit l (Anonymous_by_ip ip) = max_anonymous_per_ip l"

text \<open>A socket: the address it comes from, and the principal its upgrade signed in.\<close>

type_synonym socket = "ip_addr \<times> string option"

fun charged_to :: "bool \<Rightarrow> socket \<Rightarrow> quota_gauge set" where
  "charged_to identities (ip, who) =
     insert (By_ip ip)
       (if identities
        then case who of Some p \<Rightarrow> {By_principal p} | None \<Rightarrow> {Anonymous, Anonymous_by_ip ip}
        else {})"

definition permit_of :: "bool \<Rightarrow> socket \<Rightarrow> quota_permit" where
  "permit_of identities s =
     \<lparr>qp_ip = fst s, qp_who = (if identities then Some (snd s) else None)\<rparr>"

definition take_socket :: "quotas \<Rightarrow> socket \<Rightarrow> quotas \<times> bool" where
  "take_socket q s = (case admit q (fst s) (snd s) of (q', r) \<Rightarrow> (q', \<not> isl r))"

definition give_socket :: "bool \<Rightarrow> quotas \<Rightarrow> socket \<Rightarrow> quotas" where
  "give_socket identities q s = drop_permit q (permit_of identities s)"

definition quotas_of :: "connection_quotas \<Rightarrow> bool \<Rightarrow> quotas \<Rightarrow> bool" where
  "quotas_of l identities q \<longleftrightarrow>
     q_limits q = l \<and> q_identities q = identities \<and>
     tight (os_per_ip (q_open q)) \<and> tight (os_per_principal (q_open q)) \<and>
     tight (os_anonymous_per_ip (q_open q))"

lemma admit_permit: "admit q ip who = (q', Ok p) \<Longrightarrow> p = permit_of (q_identities q) (ip, who)"
  by (auto simp: admit_def permit_of_def Let_def split: if_splits option.splits)

lemma admit_refused_unchanged: "admit q ip who = (q', Err e) \<Longrightarrow> q' = q"
  by (auto simp: admit_def Let_def split: if_splits option.splits)

lemma take_socket_ok:
  "snd (take_socket q s) \<longleftrightarrow>
   (\<forall>g\<in>charged_to (q_identities q) s. quota_count q g < quota_limit (q_limits q) g)"
  by (cases s) (auto simp: take_socket_def admit_def Let_def split: option.splits)

lemma take_socket_quotas_of:
  "quotas_of l i q \<Longrightarrow> take_socket q s = (q', ok) \<Longrightarrow> quotas_of l i q'"
  by (auto simp: take_socket_def admit_def quotas_of_def Let_def split: if_splits option.splits)

lemma take_socket_count:
  assumes "take_socket q s = (q', ok)"
  shows "quota_count q' g =
    quota_count q g + (if ok \<and> g \<in> charged_to (q_identities q) s then 1 else 0)"
  using assms
  by (cases g; cases s)
    (auto simp: take_socket_def admit_def Let_def gauge_simps split: if_splits option.splits)

lemma give_socket_count:
  "q_identities q = i \<Longrightarrow>
   quota_count (give_socket i q s) g = quota_count q g - (if g \<in> charged_to i s then 1 else 0)"
  by (cases g; cases s)
    (auto simp: give_socket_def drop_permit_def permit_of_def Let_def gauge_simps split: option.splits)

lemma give_socket_quotas_of: "quotas_of l i q \<Longrightarrow> quotas_of l i (give_socket i q s)"
  by (auto simp: give_socket_def drop_permit_def quotas_of_def Let_def split: option.splits)

lemma quotas_of_identities: "quotas_of l i q \<Longrightarrow> q_identities q = i"
  by (simp add: quotas_of_def)

interpretation sockets: limited quota_count take_socket "give_socket i" "charged_to i"
    "quotas_of l i" "quota_limit l"
  for l i
proof unfold_locales
  fix q q' :: quotas and s ok g
  assume "quotas_of l i q" and "take_socket q s = (q', ok)"
  then show "quota_count q' g = quota_count q g + (if ok \<and> g \<in> charged_to i s then 1 else 0)"
    using take_socket_count [of q s q' ok g] by (simp add: quotas_of_def)
next
  fix q :: quotas and s
  assume "quotas_of l i q"
  then show "snd (take_socket q s) = (\<forall>g\<in>charged_to i s. quota_count q g < quota_limit l g)"
    by (simp add: take_socket_ok quotas_of_def)
qed (simp_all add: give_socket_quotas_of give_socket_count quotas_of_identities take_socket_quotas_of)

lemma quotas_new_start:
  "quotas_of l i (quotas_new l i)" "quota_count (quotas_new l i) g = 0"
  by (cases g; simp add: quotas_of_def quotas_new_def no_sockets_def)+

text \<open>
  A history of sockets over fresh quotas: every socket that asked for a place, and every one that
  ended.
\<close>

definition socket_history ::
  "connection_quotas \<Rightarrow> bool \<Rightarrow> socket place_event list \<Rightarrow> quotas \<times> socket list" where
  "socket_history l i es = history take_socket (give_socket i) (quotas_new l i, []) es"

lemma socket_history_ind:
  assumes "socket_history l i es = (q, held)"
  shows "quotas_of l i q"
    and "quota_count q g = charged (charged_to i) g held"
    and "charged (charged_to i) g held \<le> quota_limit l g"
    and "\<not> snd (take_socket q s) \<longleftrightarrow>
         (\<exists>g\<in>charged_to i s. charged (charged_to i) g held = quota_limit l g)"
  using assms unfolding socket_history_def
  by (rule sockets.history_inv [OF quotas_new_start] sockets.gauge_counts_held [OF quotas_new_start]
      sockets.never_past_the_limit [OF quotas_new_start] sockets.refused_iff_full [OF quotas_new_start])+

lemma charged_le_sub:
  "(\<forall>t\<in>set held. g \<in> c t \<longrightarrow> h \<in> c t) \<Longrightarrow> charged c g held \<le> charged c h held"
  by (induction held) auto

section \<open>Properties\<close>

text \<open>
  C12. After any history of sockets admitted, refused and ended, every count the quotas keep is
  exactly the open sockets charged to it, and none is past its limit: per address, per principal,
  anonymous, and anonymous per address.
\<close>

theorem quotas_count_the_open_sockets:
  assumes "socket_history l i es = (q, held)"
  shows "quota_count q g = charged (charged_to i) g held \<and>
         charged (charged_to i) g held \<le> quota_limit l g"
  using socket_history_ind(2,3) [OF assms] by simp

definition small_quotas :: connection_quotas where
  "small_quotas =
     \<lparr>max_connections = 4, max_per_ip = 2, max_per_principal = 1, max_anonymous = 1,
      max_anonymous_per_ip = 1, max_calls_per_connection = 1\<rparr>"

lemmas quota_eval =
  socket_history_def take_socket_def give_socket_def admit_def drop_permit_def permit_of_def
  quotas_new_def no_sockets_def small_quotas_def up_def down_def count_of_def Let_def

lemma small_history:
  "socket_history small_quotas True
     [Enter (localhost, None), Enter (localhost, None), Enter (localhost, Some ''ada'')] =
   (\<lparr>q_limits = small_quotas,
     q_open = \<lparr>os_per_ip = [localhost \<mapsto> 2], os_per_principal = [''ada'' \<mapsto> 1], os_anonymous = 1,
               os_anonymous_per_ip = [localhost \<mapsto> 1]\<rparr>,
     q_identities = True\<rparr>,
    [(localhost, Some ''ada''), (localhost, None)])"
  by (simp add: quota_eval numeral_2_eq_2)

lemma quotas_count_the_open_sockets_witness:
  "quota_count
     \<lparr>q_limits = small_quotas,
      q_open = \<lparr>os_per_ip = [localhost \<mapsto> 2], os_per_principal = [''ada'' \<mapsto> 1], os_anonymous = 1,
                os_anonymous_per_ip = [localhost \<mapsto> 1]\<rparr>,
      q_identities = True\<rparr> (By_ip localhost) =
     charged (charged_to True) (By_ip localhost) [(localhost, Some ''ada''), (localhost, None)] \<and>
   charged (charged_to True) (By_ip localhost) [(localhost, Some ''ada''), (localhost, None)]
     \<le> quota_limit small_quotas (By_ip localhost)"
  by (rule quotas_count_the_open_sockets [OF small_history])

text \<open>
  C13. A socket is refused exactly when the open sockets fill one of the quotas it would be charged
  to: nothing is lost to sockets that ended or were refused, and no order of events changes it.
\<close>

theorem socket_refused_iff_a_quota_is_full:
  assumes "socket_history l i es = (q, held)"
  shows "isl (snd (admit q ip who)) \<longleftrightarrow>
         (\<exists>g\<in>charged_to i (ip, who). charged (charged_to i) g held = quota_limit l g)"
  using socket_history_ind(4) [OF assms, of "(ip, who)"]
  by (simp add: take_socket_def split: prod.splits)

lemma socket_refused_iff_a_quota_is_full_witness:
  "isl (snd (admit
     \<lparr>q_limits = small_quotas,
      q_open = \<lparr>os_per_ip = [localhost \<mapsto> 2], os_per_principal = [''ada'' \<mapsto> 1], os_anonymous = 1,
                os_anonymous_per_ip = [localhost \<mapsto> 1]\<rparr>,
      q_identities = True\<rparr> localhost (Some ''bob''))) \<longleftrightarrow>
   (\<exists>g\<in>charged_to True (localhost, Some ''bob'').
      charged (charged_to True) g [(localhost, Some ''ada''), (localhost, None)] = quota_limit small_quotas g)"
  by (rule socket_refused_iff_a_quota_is_full [OF small_history])


lemma default_history:
  "socket_history default_quotas True [Enter (localhost, None)] =
   (\<lparr>q_limits = default_quotas,
     q_open = \<lparr>os_per_ip = [localhost \<mapsto> 1], os_per_principal = Map.empty, os_anonymous = 1,
               os_anonymous_per_ip = [localhost \<mapsto> 1]\<rparr>,
     q_identities = True\<rparr>, [(localhost, None)])"
  by (simp add: quota_eval default_quotas_def)


text \<open>
  A socket is turned away at the accept loop exactly when its address already holds the
  maximum of sockets not yet upgraded, after any history of accepts, upgrades and losses.
\<close>

theorem pending_refused_iff_address_full:
  assumes "history (pending_take limit) pending_drop (Map.empty, []) es = (m, held)"
  shows "\<not> snd (pending_take limit m ip) \<longleftrightarrow> count_list held ip = limit"
proof -
  have "charged (\<lambda>ip. {ip}) ip held = count_list held ip"
    by (induction held) auto
  then show ?thesis using pending.refused_iff_full [of Map.empty limit es m held ip] assms by simp
qed

lemma pending_refused_iff_address_full_witness:
  "\<not> snd (pending_take 1 [localhost \<mapsto> 1] localhost) \<longleftrightarrow> count_list [localhost] localhost = 1"
  by (rule pending_refused_iff_address_full [where es = "[Enter localhost, Enter localhost]"])
    (simp add: pending_take_def count_of_def)

end
