(* ===== verification/Connection.thy ===== *)
theory Connection
  imports Calls Quotas
begin

text \<open>
  One accepted connection (websocket.rs, \<open>Connection\<close>), the watch on its sign-in (AUTH-11),
  what rides in a request's extensions, and the server's stop (ws/stop.rs). The place among its
  address's sockets not yet upgraded is the address it is charged to; giving it back is
  \<open>pending_drop\<close>. A writer is named by a number.
\<close>

section \<open>The connection\<close>

record connection =
  cn_peer :: socket_addr
  cn_id :: u64
  cn_closed :: bool
  cn_calls :: connection_calls
  cn_upgraded :: "(negotiated \<times> nat) option"
  cn_pending :: "ip_addr option"
  cn_tls :: bool

text \<open>\<open>next_connection_id\<close>: the counter hands out its value and goes up by one, wrapping.\<close>

definition next_connection_id :: "u64 \<Rightarrow> u64 \<times> u64" where
  "next_connection_id counter = (counter + 1, counter)"

definition connection_new ::
  "u64 \<Rightarrow> socket_addr \<Rightarrow> nat \<Rightarrow> ip_addr option \<Rightarrow> u64 \<times> connection" where
  "connection_new counter peer max_calls place =
     (case next_connection_id counter of (counter', i) \<Rightarrow>
        (counter',
         \<lparr>cn_peer = peer, cn_id = i, cn_closed = False, cn_calls = calls_new max_calls,
          cn_upgraded = None, cn_pending = place, cn_tls = False\<rparr>))"

definition over_tls :: "bool \<Rightarrow> connection \<Rightarrow> connection" where
  "over_tls t c = c\<lparr>cn_tls := t\<rparr>"

definition close :: "connection \<Rightarrow> connection" where
  "close c = c\<lparr>cn_closed := True\<rparr>"

definition is_closed :: "connection \<Rightarrow> bool" where
  "is_closed c \<longleftrightarrow> cn_closed c"

definition connection_encoding :: "connection \<Rightarrow> encoding option" where
  "connection_encoding c = map_option (\<lambda>(n, w). ng_encoding n) (cn_upgraded c)"

definition connection_negotiated :: "connection \<Rightarrow> negotiated option" where
  "connection_negotiated c = map_option fst (cn_upgraded c)"

definition connection_writer :: "connection \<Rightarrow> nat option" where
  "connection_writer c = map_option snd (cn_upgraded c)"

text \<open>
  The upgrade is done: \<open>OnceLock::set\<close> keeps the first value, and the place not yet given back
  is, in the map the sockets not yet upgraded are counted in.
\<close>

definition upgraded ::
  "negotiated \<Rightarrow> nat \<Rightarrow> ip_addr counts \<times> connection \<Rightarrow> ip_addr counts \<times> connection" where
  "upgraded n w pc =
     (case pc of (pend, c) \<Rightarrow>
        (case cn_pending c of None \<Rightarrow> pend | Some ip \<Rightarrow> pending_drop pend ip,
         c\<lparr>cn_upgraded := (case cn_upgraded c of None \<Rightarrow> Some (n, w) | Some x \<Rightarrow> Some x),
           cn_pending := None\<rparr>))"

text \<open>The connection's last reference goes: a place it still holds is given back.\<close>

definition connection_drop :: "ip_addr counts \<times> connection \<Rightarrow> ip_addr counts" where
  "connection_drop pc =
     (case pc of (pend, c) \<Rightarrow>
        (case cn_pending c of None \<Rightarrow> pend | Some ip \<Rightarrow> pending_drop pend ip))"

definition ended :: "connection \<Rightarrow> connection" where
  "ended c = c\<lparr>cn_closed := True\<rparr>"

lemma upgraded_once:
  "upgraded n w (upgraded m v pc) = upgraded m v pc"
  by (auto simp: upgraded_def split: prod.splits option.splits)

lemma place_given_back_once:
  "connection_drop (upgraded n w (pend, c)) =
   (case cn_pending c of None \<Rightarrow> pend | Some ip \<Rightarrow> pending_drop pend ip)"
  by (auto simp: upgraded_def connection_drop_def split: option.splits)

section \<open>The watch on a sign-in\<close>

text \<open>
  \<open>watch_liveness\<close>: one turn a second. The connection is held weakly (\<open>None\<close>: it is gone);
  the validator's \<open>alive\<close> is what it answers at that turn. The watch goes on, or ends with the
  connection as it left it.
\<close>

datatype watch = Watching | Watch_over "connection option"

definition watch_turn :: "connection option \<Rightarrow> (string + unit) \<Rightarrow> watch" where
  "watch_turn conn alive =
     (case conn of
        None \<Rightarrow> Watch_over None
      | Some c \<Rightarrow>
          if is_closed c then Watch_over (Some c)
          else case alive of
                 Inl why \<Rightarrow> Watch_over (Some (close c))
               | Inr _ \<Rightarrow> Watching)"

text \<open>The watch over a connection whose turns find it as given, and the validator's answers.\<close>

fun watch_liveness :: "(connection option \<times> (string + unit)) list \<Rightarrow> watch" where
  "watch_liveness [] = Watching"
| "watch_liveness ((conn, alive) # turns) =
     (case watch_turn conn alive of
        Watching \<Rightarrow> watch_liveness turns
      | Watch_over c \<Rightarrow> Watch_over c)"

lemma watch_goes_on:
  "watch_liveness turns = Watching \<longleftrightarrow>
   (\<forall>(conn, alive)\<in>set turns. (\<exists>c. conn = Some c \<and> \<not> is_closed c) \<and> \<not> isl alive)"
  by (induction turns rule: watch_liveness.induct)
    (auto simp: watch_turn_def split: option.splits sum.splits if_splits)

section \<open>What rides in a request's extensions\<close>

record 'ctx extensions =
  ex_connection :: "connection option"
  ex_client :: "forwarded_client option"
  ex_permit :: "quota_permit option"
  ex_auth :: "'ctx option"
  ex_connection_id :: "nat option"

definition no_extensions :: "'ctx extensions" where
  "no_extensions =
     \<lparr>ex_connection = None, ex_client = None, ex_permit = None, ex_auth = None,
      ex_connection_id = None\<rparr>"

text \<open>\<open>client_of\<close> (TRANSPORT-7, TRANSPORT-26): who a request on a connection comes from.\<close>

definition client_of ::
  "('net \<Rightarrow> ip_addr \<Rightarrow> bool) \<Rightarrow> 'net trusted_proxies \<Rightarrow> connection \<Rightarrow> header_map \<Rightarrow> forwarded_client"
where
  "client_of net_contains proxies conn h =
     (let client = resolve net_contains proxies (sa_ip (cn_peer conn)) h in
      if cn_tls conn \<and> \<not> fc_via_proxy client then client\<lparr>fc_secure := True\<rparr> else client)"

section \<open>The server's stop\<close>

text \<open>
  ws/stop.rs, over tokio's \<open>watch\<close> channel: its value, how many handles can send on it, and
  how many receivers (the accept loop and the connections) watch it.
\<close>

record server_stop =
  ss_stopped :: bool
  ss_handles :: nat
  ss_watchers :: nat

datatype already_stopped = AlreadyStopped

definition stop_channel :: server_stop where
  "stop_channel = \<lparr>ss_stopped = False, ss_handles = 1, ss_watchers = 1\<rparr>"

definition stop :: "server_stop \<Rightarrow> server_stop \<times> (already_stopped + unit)" where
  "stop s = (if ss_watchers s = 0 then (s, Err AlreadyStopped) else (s\<lparr>ss_stopped := True\<rparr>, Ok ()))"

text \<open>\<open>stopped()\<close> has resolved, and \<open>is_stopped\<close>: no receiver is left.\<close>

definition is_stopped :: "server_stop \<Rightarrow> bool" where
  "is_stopped s \<longleftrightarrow> ss_watchers s = 0"

text \<open>\<open>shutdown()\<close> has resolved: the value is \<open>true\<close>, or every sender is gone.\<close>

definition shutdown_ready :: "server_stop \<Rightarrow> bool" where
  "shutdown_ready s \<longleftrightarrow> ss_stopped s \<or> ss_handles s = 0"

datatype stop_event = Watch_clone | Watch_drop | Handle_clone | Handle_drop | Stop_call

fun stop_step :: "server_stop \<Rightarrow> stop_event \<Rightarrow> server_stop" where
  "stop_step s Watch_clone = (if ss_watchers s = 0 then s else s\<lparr>ss_watchers := ss_watchers s + 1\<rparr>)"
| "stop_step s Watch_drop = s\<lparr>ss_watchers := ss_watchers s - 1\<rparr>"
| "stop_step s Handle_clone = (if ss_handles s = 0 then s else s\<lparr>ss_handles := ss_handles s + 1\<rparr>)"
| "stop_step s Handle_drop = s\<lparr>ss_handles := ss_handles s - 1\<rparr>"
| "stop_step s Stop_call = (if ss_handles s = 0 then s else fst (stop s))"

lemma is_stopped_stays: "is_stopped s \<Longrightarrow> is_stopped (foldl stop_step s es)"
proof (induction es arbitrary: s)
  case (Cons e es)
  have "is_stopped (stop_step s e)"
    using Cons.prems by (cases e) (auto simp: is_stopped_def stop_def)
  then show ?case using Cons.IH by simp
qed simp

lemma shutdown_stays: "shutdown_ready s \<Longrightarrow> shutdown_ready (foldl stop_step s es)"
proof (induction es arbitrary: s)
  case (Cons e es)
  have "shutdown_ready (stop_step s e)"
    using Cons.prems by (cases e) (auto simp: shutdown_ready_def stop_def)
  then show ?case using Cons.IH by simp
qed simp

section \<open>Properties\<close>

text \<open>
  A socket whose sign-in ends is closed by the watch at its next turn: while the connection is
  open, the first turn at which the validator says the session no longer stands closes it, and a
  watch that has not closed it has heard at every turn that the session stands.
\<close>

theorem an_ended_sign_in_closes_its_socket:
  assumes "\<forall>(conn, alive)\<in>set turns. conn = Some c" and "\<not> is_closed c"
  shows "watch_liveness turns =
    (if \<exists>(conn, alive)\<in>set turns. isl alive then Watch_over (Some (close c)) else Watching)"
  using assms
  by (induction turns rule: watch_liveness.induct)
    (auto simp: watch_turn_def split: sum.splits)

lemma an_ended_sign_in_closes_its_socket_witness:
  "let c = snd (connection_new 1 \<lparr>sa_ip = localhost, sa_port = 9\<rparr> 4 None) in
   watch_liveness [(Some c, Ok ()), (Some c, Err ''revoked''), (Some c, Ok ())] =
   (if \<exists>(conn, alive)\<in>set [(Some c, Ok ()), (Some c, Err ''revoked''), (Some c, Ok ())]. isl alive
    then Watch_over (Some (close c)) else Watching)"
  unfolding Let_def
  by (rule an_ended_sign_in_closes_its_socket)
    (simp_all add: connection_new_def next_connection_id_def is_closed_def)

text \<open>
  A socket's place among its address's not yet upgraded is given back exactly once, at its
  upgrade or else when the connection ends, and a second upgrade settles nothing anew.
\<close>

theorem pending_place_is_given_back_once:
  assumes "pending_take limit pend ip = (pend', True)"
    and "connection_new counter peer m (Some ip) = (counter', c)"
  shows "count_of (fst (upgraded n w (pend', c))) ip = count_of pend ip \<and>
         connection_drop (upgraded n w (pend', c)) = fst (upgraded n w (pend', c)) \<and>
         count_of (connection_drop (pend', c)) ip = count_of pend ip \<and>
         upgraded n' w' (upgraded n w (pend', c)) = upgraded n w (pend', c)"
proof -
  have "cn_pending c = Some ip"
    using assms(2) by (auto simp: connection_new_def split: prod.splits)
  moreover have "count_of pend' ip = count_of pend ip + 1"
    using pending_take_count [OF assms(1), of ip] by simp
  ultimately show ?thesis
    by (simp add: upgraded_once)
      (simp add: upgraded_def connection_drop_def pending_drop_down gauge_simps)
qed

lemma pending_place_is_given_back_once_witness:
  "let c = snd (connection_new 1 \<lparr>sa_ip = localhost, sa_port = 9\<rparr> 4 (Some localhost));
       pend' = [localhost \<mapsto> 1] in
   count_of (fst (upgraded default_negotiated 1 (pend', c))) localhost = count_of Map.empty localhost \<and>
   connection_drop (upgraded default_negotiated 1 (pend', c)) = fst (upgraded default_negotiated 1 (pend', c)) \<and>
   count_of (connection_drop (pend', c)) localhost = count_of Map.empty localhost \<and>
   upgraded default_negotiated 2 (upgraded default_negotiated 1 (pend', c)) =
     upgraded default_negotiated 1 (pend', c)"
  unfolding Let_def
  by (rule pending_place_is_given_back_once [where limit = 1 and counter = 1 and counter' = 2
        and peer = "\<lparr>sa_ip = localhost, sa_port = 9\<rparr>" and m = 4])
    (simp_all add: pending_take_def count_of_def connection_new_def next_connection_id_def)

text \<open>
  Once the server is stopped, every task that watches it sees the stop for ever after, and a
  server whose tasks have all ended stays stopped, whatever handles and watches come and go.
\<close>

theorem a_stop_is_never_lost:
  assumes "stop s = (s', Ok ())"
  shows "shutdown_ready (foldl stop_step s' es) \<and>
         (is_stopped s' \<longrightarrow> is_stopped (foldl stop_step s' es) \<and>
            snd (stop (foldl stop_step s' es)) = Err AlreadyStopped)"
proof -
  have "shutdown_ready s'" using assms by (auto simp: stop_def shutdown_ready_def split: if_splits)
  then show ?thesis
    using shutdown_stays is_stopped_stays [of s' es] by (auto simp: stop_def is_stopped_def)
qed

lemma a_stop_is_never_lost_witness:
  "let s' = stop_channel\<lparr>ss_stopped := True\<rparr> in
   shutdown_ready (foldl stop_step s' [Watch_clone, Handle_drop, Watch_drop, Watch_drop]) \<and>
   (is_stopped s' \<longrightarrow> is_stopped (foldl stop_step s' [Watch_clone, Handle_drop, Watch_drop, Watch_drop]) \<and>
      snd (stop (foldl stop_step s' [Watch_clone, Handle_drop, Watch_drop, Watch_drop])) = Err AlreadyStopped)"
  unfolding Let_def
  by (rule a_stop_is_never_lost [where s = stop_channel]) (simp add: stop_def stop_channel_def)

end
