(* ===== verification/Host.thy ===== *)
theory Host
  imports Http
begin

text \<open>
  host.rs (ACCESS-25): the \<open>Host\<close> allow-list on every HTTP listener. The list is normalized
  once; a request is refused when a list is set and the name it gives, its \<open>Host\<close> header or
  with none its URI's authority, is not on it.
\<close>

definition REFUSAL :: string where
  "REFUSAL = ''this server does not answer to that name''"

definition loopback_hosts :: "nat \<Rightarrow> string list" where
  "loopback_hosts port = [''127.0.0.1:'' @ show_nat port, ''localhost:'' @ show_nat port]"

definition normalize :: "string \<Rightarrow> string" where
  "normalize host = to_ascii_lowercase (trim host)"

definition normalized :: "string list \<Rightarrow> string list" where
  "normalized hosts = filter (\<lambda>h. h \<noteq> []) (map normalize hosts)"

definition refused :: "string list \<Rightarrow> 'r request_scheme \<Rightarrow> string option" where
  "refused allowed request =
     (if allowed = [] then None
      else
        let decide = (\<lambda>named. if named \<in> set allowed then None else Some named) in
        case header_get (rq_headers request) ''host'' of
          Some v \<Rightarrow>
            (case to_str v of
               Some s \<Rightarrow> decide (normalize s)
             | None \<Rightarrow> Some ''<not text>'')
        | None \<Rightarrow>
            (case rq_authority request of
               Some a \<Rightarrow> decide (normalize a)
             | None \<Rightarrow> Some ''<none>''))"

text \<open>The name a request gives, as the list compares it: the abstract view of \<open>refused\<close>.\<close>

definition named_host :: "'r request_scheme \<Rightarrow> string option" where
  "named_host request =
     (case header_get (rq_headers request) ''host'' of
        Some v \<Rightarrow> map_option normalize (to_str v)
      | None \<Rightarrow> map_option normalize (rq_authority request))"

lemma normalize_idem [simp]: "normalize (normalize h) = normalize h"
  by (simp add: normalize_def trim_to_ascii_lowercase)

lemma normalized_idem [simp]: "normalized (normalized hosts) = normalized hosts"
  by (induction hosts) (auto simp: normalized_def)

lemma set_normalized: "set (normalized hosts) = normalize ` set hosts - {[]}"
  by (auto simp: normalized_def)

lemma refused_None_iff:
  "refused allowed r = None \<longleftrightarrow>
   allowed = [] \<or> (\<exists>n. named_host r = Some n \<and> n \<in> set allowed)"
  by (auto simp: refused_def named_host_def Let_def split: option.splits)

lemma refused_Some_not_listed:
  "refused allowed r = Some n \<Longrightarrow> named_host r = Some m \<Longrightarrow> m \<notin> set allowed"
  using refused_None_iff [of allowed r] by auto

text \<open>
  A listener given at least one name that is not blank answers exactly the requests that give
  one of its names, up to letter case and surrounding white space.
\<close>

lemma listed_hosts_only:
  assumes "h \<in> set hosts" and "normalize h \<noteq> []"
  shows "refused (normalized hosts) r = None \<longleftrightarrow>
         (\<exists>n. named_host r = Some n \<and> n \<noteq> [] \<and> n \<in> normalize ` set hosts)"
proof -
  have "normalized hosts \<noteq> []"
    using assms set_normalized [of hosts] by (metis DiffI empty_iff image_eqI list.set(1) singletonD)
  then show ?thesis by (auto simp: refused_None_iff set_normalized)
qed

end
