(* ===== verification/Upgrade.thy ===== *)
theory Upgrade
  imports Connection Host
begin

text \<open>
  ws/http.rs: what a request that passed the checks is answered. A WebSocket upgrade takes a
  place among all the server's sockets, is answered 101 and its socket handed to the loop;
  anything else is 426. The accept key's derivation (tungstenite's) and plexus-core's
  \<open>MAX_BATCH\<close> are arguments. The total is a semaphore: \<open>sh_open\<close> counts its permits taken.
\<close>

record shared =
  sh_limits :: socket_limits
  sh_open :: nat
  sh_max_connections :: nat

definition shared_new :: "socket_limits \<Rightarrow> nat \<Rightarrow> shared" where
  "shared_new limits m = \<lparr>sh_limits = limits, sh_open = 0, sh_max_connections = m\<rparr>"

definition try_acquire :: "shared \<Rightarrow> unit \<Rightarrow> shared \<times> bool" where
  "try_acquire sh u =
     (if sh_open sh < sh_max_connections sh then (sh\<lparr>sh_open := sh_open sh + 1\<rparr>, True)
      else (sh, False))"

definition release_place :: "shared \<Rightarrow> unit \<Rightarrow> shared" where
  "release_place sh u = sh\<lparr>sh_open := sh_open sh - 1\<rparr>"

interpretation total_sockets:
  limited "\<lambda>sh (_ :: unit). sh_open sh" try_acquire release_place "\<lambda>_. UNIV"
    "\<lambda>sh. sh_max_connections sh = m" "\<lambda>_. m"
  for m
  by unfold_locales (auto simp: try_acquire_def release_place_def split: if_splits)

section \<open>Whether a request is an upgrade\<close>

text \<open>One of the header's comma-separated tokens, in any of its values, in any case.\<close>

definition has_token :: "header_map \<Rightarrow> string \<Rightarrow> string \<Rightarrow> bool" where
  "has_token h name token \<longleftrightarrow>
     list_ex
       (\<lambda>v. list_ex (\<lambda>t. eq_ignore_ascii_case (trim_ascii t) token) (split_on CHR '','' (as_bytes v)))
       (header_get_all h name)"

definition is_upgrade_request :: "request \<Rightarrow> bool" where
  "is_upgrade_request r \<longleftrightarrow>
     has_token (rq_headers r) ''connection'' ''upgrade'' \<and>
     has_token (rq_headers r) ''upgrade'' ''websocket''"

section \<open>Answers\<close>

definition plain :: "nat \<Rightarrow> string \<Rightarrow> response" where
  "plain status body = \<lparr>rp_status = status, rp_headers = [text_plain], rp_body = body\<rparr>"

definition with_header :: "string \<Rightarrow> string \<Rightarrow> response \<Rightarrow> response" where
  "with_header n v r = r\<lparr>rp_headers := rp_headers r @ [(n, v)]\<rparr>"

definition upgrade_required :: response where
  "upgrade_required =
     with_header ''sec-websocket-version'' ''13''
      (with_header ''connection'' ''upgrade''
       (with_header ''upgrade'' ''websocket''
        (plain 426 ''Upgrade Required: this port speaks JSON-RPC over WebSocket only'')))"

text \<open>\<open>batch_offer\<close>: the first \<open>batch\<close> of the query decides.\<close>

fun batch_of :: "nat \<Rightarrow> string list \<Rightarrow> nat" where
  "batch_of max_batch [] = 0"
| "batch_of max_batch (pair # pairs) =
     (let (key, val) = (case split_once CHR ''='' pair of Some kv \<Rightarrow> kv | None \<Rightarrow> (pair, [])) in
      if key = ''batch''
      then if val = [] then max_batch
           else case parse_unsigned (2 ^ 64) val of None \<Rightarrow> 0 | Some n \<Rightarrow> min n max_batch
      else batch_of max_batch pairs)"

definition batch_offer :: "nat \<Rightarrow> string option \<Rightarrow> nat" where
  "batch_offer max_batch query =
     batch_of max_batch (split_on CHR ''&'' (case query of None \<Rightarrow> [] | Some q \<Rightarrow> q))"

section \<open>The upgrade\<close>

text \<open>
  What became of a request: an answer, or the 101 with what its socket is served with: the
  connection, its extensions (the method table's \<open>ConnectionId\<close> added) and what was settled.
  The socket holds the place the semaphore gave.
\<close>

datatype 'ctx outcome =
    Answer response
  | Switch response connection "'ctx extensions" negotiated

definition upgrade ::
  "nat \<Rightarrow> (string \<Rightarrow> string) \<Rightarrow> shared \<Rightarrow> request \<Rightarrow> 'ctx extensions \<Rightarrow> shared \<times> 'ctx outcome" where
  "upgrade max_batch accept_key sh req ext =
     (if \<not> is_upgrade_request req then (sh, Answer upgrade_required)
      else if map_option as_bytes (header_get (rq_headers req) ''sec-websocket-version'') \<noteq> Some ''13''
      then (sh, Answer upgrade_required)
      else case header_get (rq_headers req) ''sec-websocket-key'' of
        None \<Rightarrow> (sh, Answer (plain 400 ''Bad Request: no Sec-WebSocket-Key''))
      | Some key \<Rightarrow>
          (case ex_connection ext of
             None \<Rightarrow> (sh, Answer (plain 500 ''Internal Server Error: no connection''))
           | Some conn \<Rightarrow>
               (case try_acquire sh () of
                  (sh', False) \<Rightarrow>
                    (sh', Answer (with_header ''retry-after'' ''5''
                             (plain 429 ''Too many connections. Please try again later.'')))
                | (sh', True) \<Rightarrow>
                    (sh',
                     Switch
                       \<lparr>rp_status = 101,
                        rp_headers = [(''connection'', ''upgrade''), (''upgrade'', ''websocket''),
                                      (''sec-websocket-accept'', accept_key (as_bytes key))],
                        rp_body = []\<rparr>
                       conn (ext\<lparr>ex_connection_id := Some (unat (cn_id conn))\<rparr>)
                       (default_negotiated\<lparr>ng_batch := batch_offer max_batch (rq_query req)\<rparr>)))))"

lemma upgrade_shared:
  "upgrade mb ak sh req ext = (sh', out) \<Longrightarrow>
   sh' = (case out of Answer _ \<Rightarrow> sh | Switch _ _ _ _ \<Rightarrow> sh\<lparr>sh_open := sh_open sh + 1\<rparr>)"
  by (auto simp: upgrade_def try_acquire_def split: if_splits option.splits)

lemma batch_of_le: "batch_of m ps \<le> m"
  by (induction m ps rule: batch_of.induct) (auto split: option.splits prod.splits simp: Let_def)

lemma batch_offer_le: "batch_offer m q \<le> m"
  by (simp add: batch_offer_def batch_of_le)

lemma upgrade_Switch:
  assumes "upgrade mb ak sh req ext = (sh', Switch resp conn ext' n)"
  shows "is_upgrade_request req" and "ex_connection ext = Some conn" and "rp_status resp = 101"
    and "ext' = ext\<lparr>ex_connection_id := Some (unat (cn_id conn))\<rparr>"
    and "sh_open sh < sh_max_connections sh"
  using assms by (auto simp: upgrade_def try_acquire_def split: if_splits option.splits)

section \<open>One HTTP connection\<close>

text \<open>
  \<open>serve_http\<close>: every request carries the connection, and an error of the service is a 500.
  \<open>svc\<close> is the checks and then the upgrade, over their state.
\<close>

definition serve_request ::
  "('s \<Rightarrow> request \<Rightarrow> 'ctx extensions \<Rightarrow> 's \<times> (string + 'ctx outcome)) \<Rightarrow>
   's \<Rightarrow> connection \<Rightarrow> request \<Rightarrow> 's \<times> 'ctx outcome"
where
  "serve_request svc s conn req =
     (case svc s req (no_extensions\<lparr>ex_connection := Some conn\<rparr>) of
        (s', Inr out) \<Rightarrow> (s', out)
      | (s', Inl e) \<Rightarrow>
          (s', Answer \<lparr>rp_status = 500, rp_headers = [], rp_body = ''Internal Server Error''\<rparr>))"

text \<open>
  How the connection's task ends: it ran out, or the stop or its close came first and it is
  given a second to end gracefully. Where more than one has come, \<open>select!\<close> takes any.
\<close>

datatype http_end = Ran_out | Shut_gracefully

definition serve_http_ends :: "bool \<Rightarrow> server_stop \<Rightarrow> connection \<Rightarrow> http_end set" where
  "serve_http_ends ran_out st conn =
     (if ran_out then {Ran_out} else {}) \<union>
     (if shutdown_ready st \<or> is_closed conn then {Shut_gracefully} else {})"

end
