(* ===== verification/SocketLoop.thy ===== *)
theory SocketLoop
  imports Guard Upgrade
begin

text \<open>
  ws/conn.rs: one upgraded socket's loop. What is not under src/ is an argument: the JSON reader
  and writer, jsonrpsee's method table and batch builder, the connection's hook, plexus-core's
  input table (record \<open>outside\<close>), and what the socket and the method table's tasks answer at
  each turn of a poll (record \<open>turn_input\<close>). A message's bytes are \<open>bytes\<close>; time is in
  milliseconds.
\<close>

definition MAX_RESPONSE :: nat where "MAX_RESPONSE = MAX_MESSAGE_SIZE"
definition MAX_SUBSCRIPTIONS :: nat where "MAX_SUBSCRIPTIONS = 1024"
definition READ_BUDGET :: nat where "READ_BUDGET = 64"
definition OUT_HIGH :: nat where "OUT_HIGH = 1024"
definition CLOSE_WAIT :: nat where "CLOSE_WAIT = 2000"

section \<open>How a socket ends\<close>

datatype ws_end = Peer_closed | Lost_end | Protocol_end | Server_stopped | Closed_end | Silent_end | Idle_end

datatype close_code = Normal | Away | Protocol_code

fun end_frame :: "ws_end \<Rightarrow> (close_code \<times> string) option" where
  "end_frame Peer_closed = None"
| "end_frame Lost_end = None"
| "end_frame Protocol_end = Some (Protocol_code, ''protocol error'')"
| "end_frame Server_stopped = Some (Away, ''the server is stopping'')"
| "end_frame Closed_end = Some (Normal, ''closed'')"
| "end_frame Silent_end = Some (Away, ''no answer to pings'')"
| "end_frame Idle_end = Some (Normal, ''idle'')"

section \<open>Requests, answers and the method table\<close>

record ('id, 'p) rpc_request =
  rr_id :: 'id
  rr_method :: string
  rr_params :: 'p

datatype rpc_error =
    Method_not_found
  | Parse_error
  | Invalid_request
  | Too_big_request nat
  | Too_many_subscriptions nat
  | Malformed_frame string
  | Other_error int string

datatype response_kind = Method_call | Batch_answer | Subscription_answer | Notification_answer

record method_response =
  mr_kind :: response_kind
  mr_ok :: bool
  mr_json :: bytes

datatype ('id, 'p) callback =
    Sync_cb "'id \<Rightarrow> 'p \<Rightarrow> method_response"
  | Async_cb "'id \<Rightarrow> 'p \<Rightarrow> method_response"
  | Subscription_cb "'id \<Rightarrow> 'p \<Rightarrow> method_response"
  | Unsubscription_cb "'id \<Rightarrow> 'p \<Rightarrow> method_response"

text \<open>The members of an object that \<open>is_answer\<close> looks at, each there or not.\<close>

record shape =
  sp_method :: bool
  sp_id :: bool
  sp_result :: bool
  sp_error :: bool

record ('id, 'p) outside =
  os_request :: "bytes \<Rightarrow> ('id, 'p) rpc_request option"
  os_notification :: "bytes \<Rightarrow> bool"
  os_shape :: "bytes \<Rightarrow> shape option"
  os_prepare_error :: "bytes \<Rightarrow> 'id option \<times> rpc_error"
  os_invalid_id :: "bytes \<Rightarrow> 'id option"
  os_array :: "bytes \<Rightarrow> bytes list option"
  os_error_json :: "'id option \<Rightarrow> rpc_error \<Rightarrow> bytes"
  os_methods :: "string \<Rightarrow> ('id, 'p) callback option"
  os_batch_full :: "method_response list \<Rightarrow> method_response option"
  os_batch_finish :: "method_response list \<Rightarrow> method_response"
  os_hook :: "(bytes \<Rightarrow> bool) option"
  os_inputs_idle :: bool
  os_take_frame :: "bytes \<Rightarrow> bool"
  os_binary_input :: u8
  os_binary_malformed :: "bytes \<Rightarrow> bool"

text \<open>\<open>MethodResponse::error\<close>: a method call's answer, to an id or to \<open>null\<close>.\<close>

definition error_response :: "('id, 'p) outside \<Rightarrow> 'id option \<Rightarrow> rpc_error \<Rightarrow> method_response" where
  "error_response w i e = \<lparr>mr_kind = Method_call, mr_ok = False, mr_json = os_error_json w i e\<rparr>"

definition notification_response :: method_response where
  "notification_response = \<lparr>mr_kind = Notification_answer, mr_ok = True, mr_json = []\<rparr>"

definition is_answer :: "('id, 'p) outside \<Rightarrow> bytes \<Rightarrow> bool" where
  "is_answer w data \<longleftrightarrow>
     (case os_shape w data of
        None \<Rightarrow> False
      | Some s \<Rightarrow> \<not> sp_method s \<and> sp_id s \<and> (sp_result s \<or> sp_error s))"

definition answered :: "method_response \<Rightarrow> bool" where
  "answered rp \<longleftrightarrow> mr_kind rp = Method_call \<or> mr_kind rp = Batch_answer"

text \<open>\<open>send_response\<close>: what a task of a call's own writes to the socket's queue.\<close>

definition send_response :: "bytes list \<Rightarrow> method_response \<Rightarrow> bytes list" where
  "send_response tx rp = (if answered rp then tx @ [mr_json rp] else tx)"

section \<open>A batch\<close>

text \<open>
  \<open>Dispatch::call\<close>: one call of a batch, answered in full. The number is the subscriptions
  open; one accepted takes a permit for its life.
\<close>

definition dispatch_call ::
  "('id, 'p) outside \<Rightarrow> nat \<Rightarrow> ('id, 'p) rpc_request \<Rightarrow> nat \<times> method_response" where
  "dispatch_call w subs req =
     (case os_methods w (rr_method req) of
        None \<Rightarrow> (subs, error_response w (Some (rr_id req)) Method_not_found)
      | Some (Sync_cb cb) \<Rightarrow> (subs, cb (rr_id req) (rr_params req))
      | Some (Async_cb cb) \<Rightarrow> (subs, cb (rr_id req) (rr_params req))
      | Some (Subscription_cb cb) \<Rightarrow>
          if subs < MAX_SUBSCRIPTIONS then (subs + 1, cb (rr_id req) (rr_params req))
          else (subs, error_response w (Some (rr_id req)) (Too_many_subscriptions MAX_SUBSCRIPTIONS))
      | Some (Unsubscription_cb cb) \<Rightarrow> (subs, cb (rr_id req) (rr_params req)))"

text \<open>
  \<open>Dispatch::batch\<close>: the entries in order; a notification answers nothing; past the answer's
  cap the batch's answer is the builder's error at once.
\<close>

fun batch_entries ::
  "('id, 'p) outside \<Rightarrow> nat \<Rightarrow> bytes list \<Rightarrow> method_response list \<Rightarrow> bool \<Rightarrow>
   nat \<times> (method_response + method_response list \<times> bool)"
where
  "batch_entries w subs [] out got = (subs, Inr (out, got))"
| "batch_entries w subs (entry # entries) out got =
     (case (case os_request w entry of
              Some req \<Rightarrow> (case dispatch_call w subs req of (s, rp) \<Rightarrow> (s, Some rp))
            | None \<Rightarrow>
                if os_notification w entry then (subs, None)
                else (subs, Some (error_response w (os_invalid_id w entry) Invalid_request))) of
        (s, None) \<Rightarrow> batch_entries w s entries out True
      | (s, Some rp) \<Rightarrow>
          (case os_batch_full w (out @ [rp]) of
             Some too_big \<Rightarrow> (s, Inl too_big)
           | None \<Rightarrow> batch_entries w s entries (out @ [rp]) got))"

definition dispatch_batch :: "('id, 'p) outside \<Rightarrow> nat \<Rightarrow> bytes \<Rightarrow> nat \<times> method_response" where
  "dispatch_batch w subs data =
     (case os_array w data of
        None \<Rightarrow> (subs, error_response w None Parse_error)
      | Some entries \<Rightarrow>
          (case batch_entries w subs entries [] False of
             (s, Inl too_big) \<Rightarrow> (s, too_big)
           | (s, Inr (out, got)) \<Rightarrow>
               (s, if out = [] \<and> got then notification_response else os_batch_finish w out)))"

section \<open>The loop's state\<close>

datatype ws_message =
  Text_msg bytes | Binary_msg bytes | Ping_msg bytes | Pong_msg bytes | Frame_msg bytes | Close_msg

datatype out_message = Out_text bytes | Out_binary bytes | Out_ping

fun out_len :: "out_message \<Rightarrow> nat" where
  "out_len (Out_text b) = length b"
| "out_len (Out_binary b) = length b"
| "out_len Out_ping = 0"

datatype outbound = Own_text bytes | Own_binary bytes

fun own :: "outbound \<Rightarrow> out_message" where
  "own (Own_text b) = Out_text b"
| "own (Own_binary b) = Out_binary b"

datatype out_queue = Own | Table | Frames

text \<open>A call the loop started: its acceptance awaited, on a task of its own, or a batch's task.\<close>

datatype ('id, 'p) started =
    Accepting "('id, 'p) rpc_request"
  | Task_call "('id, 'p) rpc_request"
  | Task_batch bytes

record ('id, 'p) socket_loop =
  lp_table :: "bytes list"
  lp_own :: "outbound list"
  lp_own_open :: bool
  lp_own_senders :: bool
  lp_frames :: "(bool \<times> bytes) list"
  lp_fenced :: "bytes option"
  lp_turn :: nat
  lp_subscriptions :: nat
  lp_accepting :: "('id, 'p) rpc_request list"
  lp_running :: nat
  lp_started :: "('id, 'p) started list"
  lp_calls :: nat
  lp_dropped :: nat
  lp_answered_drops :: nat
  lp_out :: "out_message list"
  lp_gathered :: nat
  lp_unflushed :: bool
  lp_budget :: nat
  lp_max_message :: nat
  lp_ping_timeout :: "nat option"
  lp_idle :: "nat option"
  lp_last_in :: nat
  lp_last_busy :: nat

section \<open>Answering\<close>

definition respond :: "method_response \<Rightarrow> ('id, 'p) socket_loop \<Rightarrow> ('id, 'p) socket_loop" where
  "respond rp l = (if answered rp then l\<lparr>lp_out := lp_out l @ [Out_text (mr_json rp)]\<rparr> else l)"

text \<open>Each acceptance that has resolved, in arrival order; the others go on being awaited.\<close>

fun accept_each ::
  "(('id, 'p) rpc_request \<Rightarrow> method_response option) \<Rightarrow> ('id, 'p) rpc_request list \<Rightarrow>
   ('id, 'p) socket_loop \<Rightarrow> ('id, 'p) rpc_request list \<times> ('id, 'p) socket_loop \<times> bool"
where
  "accept_each resolved [] l = ([], l, False)"
| "accept_each resolved (f # fs) l =
     (case resolved f of
        Some rp \<Rightarrow> (case accept_each resolved fs (respond rp l) of (kept, l', _) \<Rightarrow> (kept, l', True))
      | None \<Rightarrow> (case accept_each resolved fs l of (kept, l', moved) \<Rightarrow> (f # kept, l', moved)))"

definition poll_accepting ::
  "(('id, 'p) rpc_request \<Rightarrow> method_response option) \<Rightarrow> ('id, 'p) socket_loop \<Rightarrow>
   ('id, 'p) socket_loop \<times> bool"
where
  "poll_accepting resolved l =
     (case accept_each resolved (lp_accepting l) l of
        (kept, l', moved) \<Rightarrow> (l'\<lparr>lp_accepting := kept\<rparr>, moved))"

function answer_drops :: "('id, 'p) outside \<Rightarrow> ('id, 'p) socket_loop \<Rightarrow> ('id, 'p) socket_loop" where
  "answer_drops w l =
     (if lp_answered_drops l < lp_dropped l
      then answer_drops w
        (respond (error_response w None (Too_big_request (lp_max_message l)))
           (l\<lparr>lp_answered_drops := lp_answered_drops l + 1\<rparr>))
      else l)"
  by pat_completeness auto

termination
  by (relation "measure (\<lambda>(_, l). lp_dropped l - lp_answered_drops l)")
    (auto simp: respond_def)

declare answer_drops.simps [simp del]

section \<open>Reading\<close>

definition malformed :: "('id, 'p) outside \<Rightarrow> string \<Rightarrow> ('id, 'p) socket_loop \<Rightarrow> ('id, 'p) socket_loop" where
  "malformed w why l = respond (error_response w None (Malformed_frame why)) l"

definition loop_call ::
  "('id, 'p) outside \<Rightarrow> ('id, 'p) rpc_request \<Rightarrow> ('id, 'p) socket_loop \<Rightarrow> ('id, 'p) socket_loop" where
  "loop_call w req l =
     (case os_methods w (rr_method req) of
        None \<Rightarrow> respond (error_response w (Some (rr_id req)) Method_not_found) l
      | Some (Sync_cb cb) \<Rightarrow> respond (cb (rr_id req) (rr_params req)) l
      | Some (Async_cb cb) \<Rightarrow>
          l\<lparr>lp_running := lp_running l + 1, lp_started := lp_started l @ [Task_call req]\<rparr>
      | Some (Subscription_cb cb) \<Rightarrow>
          if lp_subscriptions l < MAX_SUBSCRIPTIONS
          then l\<lparr>lp_subscriptions := lp_subscriptions l + 1,
                 lp_accepting := lp_accepting l @ [req],
                 lp_started := lp_started l @ [Accepting req]\<rparr>
          else respond (error_response w (Some (rr_id req)) (Too_many_subscriptions MAX_SUBSCRIPTIONS)) l
      | Some (Unsubscription_cb cb) \<Rightarrow> respond (cb (rr_id req) (rr_params req)) l)"

definition single ::
  "('id, 'p) outside \<Rightarrow> nat \<Rightarrow> bytes \<Rightarrow> ('id, 'p) socket_loop \<Rightarrow> ('id, 'p) socket_loop" where
  "single w now data l =
     (case os_request w data of
        Some req \<Rightarrow> loop_call w req (l\<lparr>lp_last_busy := now\<rparr>)
      | None \<Rightarrow>
          if os_notification w data then l
          else if is_answer w data then l
          else case os_prepare_error w data of (i, e) \<Rightarrow> respond (error_response w i e) l)"

text \<open>\<open>u8::is_ascii_whitespace\<close>, and the first byte that is not, among the first 128.\<close>

definition white_byte :: "u8 \<Rightarrow> bool" where
  "white_byte b \<longleftrightarrow> b \<in> {9, 10, 12, 13, 32}"

definition first_byte :: "bytes \<Rightarrow> (nat \<times> u8) option" where
  "first_byte data =
     (let n = length (takeWhile white_byte (take 128 data)) in
      if n < length (take 128 data) then Some (n, data ! n) else None)"

definition hook_takes :: "('id, 'p) outside \<Rightarrow> bytes \<Rightarrow> bool" where
  "hook_takes w data \<longleftrightarrow> (case os_hook w of None \<Rightarrow> False | Some h \<Rightarrow> h data)"

text \<open>\<open>{tag:#04x}\<close>: two hexadecimal digits after \<open>0x\<close>.\<close>

definition show_tag :: "u8 \<Rightarrow> string" where
  "show_tag t = ''0x'' @ [hex_char (unat t div 16), hex_char (unat t mod 16)]"

definition message_data ::
  "('id, 'p) outside \<Rightarrow> nat \<Rightarrow> bool \<Rightarrow> bytes \<Rightarrow> ('id, 'p) socket_loop \<Rightarrow> ('id, 'p) socket_loop" where
  "message_data w now binary data l =
     (if hook_takes w data then l
      else case first_byte data of
        Some (i, b) \<Rightarrow>
          if \<not> os_inputs_idle w \<and> os_take_frame w data then l
          else if b = 0x7b then single w now (drop i data) l
          else if b = 0x5b then
            l\<lparr>lp_last_busy := now, lp_running := lp_running l + 1,
              lp_started := lp_started l @ [Task_batch (drop i data)]\<rparr>
          else if binary then
            malformed w (''a binary message tagged '' @ show_tag (hd data) @
                         '': the only tag is 0x01, an input frame'') l
          else respond (error_response w None Parse_error) l
      | None \<Rightarrow>
          if binary then
            malformed w
              (case data of
                 [] \<Rightarrow> ''an empty binary message''
               | t # _ \<Rightarrow> ''a binary message tagged '' @ show_tag t @
                          '': the only tag is 0x01, an input frame'') l
          else respond (error_response w None Parse_error) l)"

definition message ::
  "('id, 'p) outside \<Rightarrow> nat \<Rightarrow> ws_message \<Rightarrow> ('id, 'p) socket_loop \<Rightarrow>
   ('id, 'p) socket_loop \<times> ws_end option"
where
  "message w now m l0 =
     (let l = l0\<lparr>lp_last_in := now\<rparr> in
      case m of
        Text_msg t \<Rightarrow> (message_data w now False t l, None)
      | Binary_msg b \<Rightarrow>
          if b \<noteq> [] \<and> hd b = os_binary_input w then
            (if hook_takes w b then l
             else if os_binary_malformed w b
             then malformed w ''a binary input frame is 17 bytes of header and its payload'' l
             else l, None)
          else (message_data w now True b l, None)
      | Close_msg \<Rightarrow> (l, Some Peer_closed)
      | _ \<Rightarrow> (l, None))"

section \<open>Liveness\<close>

definition busy :: "('id, 'p) socket_loop \<Rightarrow> bool" where
  "busy l \<longleftrightarrow> 0 < lp_subscriptions l \<or> 0 < lp_running l \<or> lp_accepting l \<noteq> [] \<or> 0 < lp_calls l"

definition liveness :: "nat \<Rightarrow> ('id, 'p) socket_loop \<Rightarrow> ('id, 'p) socket_loop \<times> ws_end option" where
  "liveness now l =
     (if (case lp_ping_timeout l of None \<Rightarrow> False | Some t \<Rightarrow> t < now - lp_last_in l)
      then (l, Some Silent_end)
      else case lp_idle l of
             None \<Rightarrow> (l, None)
           | Some idle \<Rightarrow>
               if busy l then (l\<lparr>lp_last_busy := now\<rparr>, None)
               else if idle \<le> now - lp_last_busy l then (l, Some Idle_end)
               else (l, None))"

text \<open>
  The tick, in microseconds: an eighth of the shorter limit (in milliseconds), from 25 ms to 5 s.
\<close>

definition tick_of :: "nat \<Rightarrow> nat" where
  "tick_of ms = max 25000 (min 5000000 (ms * 125))"

definition tick_every :: "nat option \<Rightarrow> nat option \<Rightarrow> nat option" where
  "tick_every timeout idle =
     (case (timeout, idle) of
        (None, None) \<Rightarrow> None
      | (Some t, None) \<Rightarrow> Some (tick_of t)
      | (None, Some i) \<Rightarrow> Some (tick_of i)
      | (Some t, Some i) \<Rightarrow> Some (tick_of (min t i)))"

section \<open>Writing\<close>

text \<open>
  One queue polled (\<open>poll_recv\<close>). tokio's cooperative budget may answer \<open>Pending\<close> with a frame
  waiting: \<open>ready\<close> says which queues answer. A fenced frame is set aside instead.
\<close>

datatype polled = Nothing | Frame_out out_message | Fence_raised

definition poll_queue ::
  "(out_queue \<Rightarrow> bool) \<Rightarrow> out_queue \<Rightarrow> ('id, 'p) socket_loop \<Rightarrow> ('id, 'p) socket_loop \<times> polled" where
  "poll_queue ready q l =
     (case q of
        Own \<Rightarrow>
          if \<not> lp_own_open l \<or> \<not> ready Own then (l, Nothing)
          else (case lp_own l of
                  f # fs \<Rightarrow> (l\<lparr>lp_own := fs\<rparr>, Frame_out (own f))
                | [] \<Rightarrow> if lp_own_senders l then (l, Nothing) else (l\<lparr>lp_own_open := False\<rparr>, Nothing))
      | Table \<Rightarrow>
          if \<not> ready Table then (l, Nothing)
          else (case lp_table l of
                  m # ms \<Rightarrow> (l\<lparr>lp_table := ms\<rparr>, Frame_out (Out_text m))
                | [] \<Rightarrow> (l, Nothing))
      | Frames \<Rightarrow>
          if \<not> ready Frames then (l, Nothing)
          else (case lp_frames l of
                  (True, b) # fs \<Rightarrow> (l\<lparr>lp_frames := fs, lp_fenced := Some b\<rparr>, Fence_raised)
                | (False, b) # fs \<Rightarrow> (l\<lparr>lp_frames := fs\<rparr>, Frame_out (Out_text b))
                | [] \<Rightarrow> (l, Nothing)))"

definition TURNS :: "out_queue list" where
  "TURNS = [Own, Table, Frames]"

text \<open>A call's first frame, once the method table's queue is empty (\<open>try_recv\<close>).\<close>

definition past_fence :: "('id, 'p) socket_loop \<Rightarrow> bytes \<Rightarrow> ('id, 'p) socket_loop \<times> out_message" where
  "past_fence l b =
     (case lp_table l of
        m # ms \<Rightarrow> (l\<lparr>lp_table := ms\<rparr>, Out_text m)
      | [] \<Rightarrow> (l\<lparr>lp_fenced := None\<rparr>, Out_text b))"

fun take_turns ::
  "(out_queue \<Rightarrow> bool) \<Rightarrow> nat list \<Rightarrow> ('id, 'p) socket_loop \<Rightarrow> ('id, 'p) socket_loop \<times> out_message option"
where
  "take_turns ready [] l = (l, None)"
| "take_turns ready (i # is) l =
     (case poll_queue ready (TURNS ! ((lp_turn l + i) mod 3)) l of
        (l', Nothing) \<Rightarrow> take_turns ready is l'
      | (l', Frame_out m) \<Rightarrow> (l'\<lparr>lp_turn := (lp_turn l + i + 1) mod 3\<rparr>, Some m)
      | (l', Fence_raised) \<Rightarrow>
          (case lp_fenced l' of
             None \<Rightarrow> (l', None)
           | Some b \<Rightarrow>
               (case lp_out l' of
                  m # ms \<Rightarrow> (l'\<lparr>lp_turn := (lp_turn l + i + 1) mod 3, lp_out := ms\<rparr>, Some m)
                | [] \<Rightarrow>
                    (case past_fence (l'\<lparr>lp_turn := (lp_turn l + i + 1) mod 3\<rparr>) b of
                       (l'', m) \<Rightarrow> (l'', Some m)))))"

definition next_out ::
  "(out_queue \<Rightarrow> bool) \<Rightarrow> ('id, 'p) socket_loop \<Rightarrow> ('id, 'p) socket_loop \<times> out_message option" where
  "next_out ready l =
     (case lp_out l of
        m # ms \<Rightarrow> (l\<lparr>lp_out := ms\<rparr>, Some m)
      | [] \<Rightarrow>
          (case lp_fenced l of
             Some b \<Rightarrow> (case past_fence l b of (l', m) \<Rightarrow> (l', Some m))
           | None \<Rightarrow> take_turns ready [0, 1, 2] l))"

text \<open>
  The socket's sink at each frame: ready and takes it, ready and fails on it, failed, or not
  ready. Past the list it is not ready.
\<close>

datatype sink = Takes | Send_fails | Sink_failed | Not_ready

datatype flush = Flushed | Flush_failed | Flush_waits

text \<open>The frames handed over, with the state; \<open>None\<close> for the state is a socket gone.\<close>

fun write_frames ::
  "(out_queue \<Rightarrow> bool) \<Rightarrow> sink list \<Rightarrow> ('id, 'p) socket_loop \<Rightarrow>
   (('id, 'p) socket_loop \<times> bool) option \<times> out_message list"
where
  "write_frames ready [] l = (Some (l, False), [])"
| "write_frames ready (s # ss) l =
     (if lp_budget l \<le> lp_gathered l then (Some (l, False), [])
      else case s of
        Sink_failed \<Rightarrow> (None, [])
      | Not_ready \<Rightarrow> (Some (l, False), [])
      | _ \<Rightarrow>
          (case next_out ready l of
             (l', None) \<Rightarrow> (Some (l', False), [])
           | (l', Some m) \<Rightarrow>
               if s = Send_fails then (None, [])
               else case write_frames ready ss
                           (l'\<lparr>lp_gathered := lp_gathered l' + out_len m, lp_unflushed := True\<rparr>) of
                      (Some (l'', _), ms) \<Rightarrow> (Some (l'', True), m # ms)
                    | (None, ms) \<Rightarrow> (None, m # ms)))"

definition poll_write ::
  "(out_queue \<Rightarrow> bool) \<Rightarrow> sink list \<Rightarrow> flush \<Rightarrow> ('id, 'p) socket_loop \<Rightarrow>
   (('id, 'p) socket_loop \<times> bool) option \<times> out_message list"
where
  "poll_write ready ss fl l =
     (case write_frames ready ss l of
        (None, ms) \<Rightarrow> (None, ms)
      | (Some (l', moved), ms) \<Rightarrow>
          if \<not> lp_unflushed l' then (Some (l', moved), ms)
          else case fl of
                 Flushed \<Rightarrow> (Some (l'\<lparr>lp_unflushed := False, lp_gathered := 0\<rparr>, True), ms)
               | Flush_failed \<Rightarrow> (None, ms)
               | Flush_waits \<Rightarrow> (Some (l', moved), ms))"

section \<open>One wakeup\<close>

datatype read_failure = Protocol_error | Utf8_error | Capacity_error | Attack_attempt | Io_error read_error | Other_failure

datatype ws_read = Got ws_message | Read_failed read_failure | Read_over | Read_waits

fun failure_end :: "read_failure \<Rightarrow> ws_end" where
  "failure_end (Io_error e) = (if is_refused e then Protocol_end else Lost_end)"
| "failure_end Other_failure = Lost_end"
| "failure_end _ = Protocol_end"

text \<open>What one turn of the wakeup's loop finds: past the list a turn finds nothing ready.\<close>

record ('id, 'p) turn_input =
  ti_resolved :: "('id, 'p) rpc_request \<Rightarrow> method_response option"
  ti_read :: ws_read
  ti_dropped :: nat
  ti_ready :: "out_queue \<Rightarrow> bool"
  ti_sinks :: "sink list"
  ti_flush :: flush

datatype wakeup = Ended ws_end | Slept | Yielded

definition read_turn ::
  "('id, 'p) outside \<Rightarrow> nat \<Rightarrow> ('id, 'p) turn_input \<Rightarrow> nat \<Rightarrow> ('id, 'p) socket_loop \<Rightarrow>
   ('id, 'p) socket_loop \<times> nat \<times> bool \<times> ws_end option"
where
  "read_turn w now t reads l0 =
     (if \<not> (reads < READ_BUDGET \<and> length (lp_out l0) < OUT_HIGH) then (l0, reads, False, None)
      else let l = l0\<lparr>lp_dropped := lp_dropped l0 + ti_dropped t\<rparr> in
        case ti_read t of
          Got m \<Rightarrow>
            (case message w now m l of
               (l', Some e) \<Rightarrow> (l', reads + 1, True, Some e)
             | (l', None) \<Rightarrow> (answer_drops w l', reads + 1, True, None))
        | Read_failed f \<Rightarrow> (l, reads, False, Some (failure_end f))
        | Read_over \<Rightarrow> (l, reads, False, Some Lost_end)
        | Read_waits \<Rightarrow> (answer_drops w l, reads, False, None))"

fun run_turns ::
  "('id, 'p) outside \<Rightarrow> nat \<Rightarrow> ('id, 'p) turn_input list \<Rightarrow> nat \<Rightarrow> ('id, 'p) socket_loop \<Rightarrow>
   ('id, 'p) socket_loop \<times> wakeup \<times> nat \<times> out_message list"
where
  "run_turns w now [] reads l = (l, Slept, reads, [])"
| "run_turns w now (t # ts) reads l =
     (case poll_accepting (ti_resolved t) l of (l1, moved1) \<Rightarrow>
      case read_turn w now t reads l1 of (l2, reads2, moved2, over) \<Rightarrow>
      case over of
        Some e \<Rightarrow> (l2, Ended e, reads2, [])
      | None \<Rightarrow>
          (case poll_write (ti_ready t) (ti_sinks t) (ti_flush t) l2 of
             (None, ms) \<Rightarrow> (l2, Ended Lost_end, reads2, ms)
           | (Some (l3, moved3), ms) \<Rightarrow>
               if \<not> (moved1 \<or> moved2 \<or> moved3) then (l3, Slept, reads2, ms)
               else if READ_BUDGET \<le> reads2 then (l3, Yielded, reads2, ms)
               else case run_turns w now ts reads2 l3 of
                      (l4, u, reads4, ms') \<Rightarrow> (l4, u, reads4, ms @ ms')))"

record ('id, 'p) wake_input =
  wi_now :: nat
  wi_stopping :: bool
  wi_closing :: bool
  wi_ticked :: bool
  wi_ping_due :: bool
  wi_turns :: "('id, 'p) turn_input list"

definition poll_run ::
  "('id, 'p) outside \<Rightarrow> ('id, 'p) wake_input \<Rightarrow> ('id, 'p) socket_loop \<Rightarrow>
   ('id, 'p) socket_loop \<times> wakeup \<times> nat \<times> out_message list"
where
  "poll_run w k l =
     (if wi_stopping k then (l, Ended Server_stopped, 0, [])
      else if wi_closing k then (l, Ended Closed_end, 0, [])
      else case (if wi_ticked k then liveness (wi_now k) l else (l, None)) of
             (l1, Some e) \<Rightarrow> (l1, Ended e, 0, [])
           | (l1, None) \<Rightarrow>
               run_turns w (wi_now k) (wi_turns k) 0
                 (if wi_ping_due k then l1\<lparr>lp_out := Out_ping # lp_out l1\<rparr> else l1))"

section \<open>The end, and the run\<close>

text \<open>
  \<open>end\<close>: what goes out at the end. Every queue is closed first, so every call still writing
  learns the socket is gone.
\<close>

datatype parting = No_parting | Answer_peer_close | Send_close "(close_code \<times> string) option" bool

definition loop_end :: "ws_end \<Rightarrow> parting" where
  "loop_end e =
     (case e of
        Lost_end \<Rightarrow> No_parting
      | Peer_closed \<Rightarrow> Answer_peer_close
      | Protocol_end \<Rightarrow> Send_close (end_frame e) False
      | _ \<Rightarrow> Send_close (end_frame e) True)"

text \<open>The loop as \<open>run\<close> sets it up, with the guard, and the connection upgraded.\<close>

definition loop_new :: "socket_limits \<Rightarrow> nat \<Rightarrow> connection \<Rightarrow> ('id, 'p) socket_loop" where
  "loop_new limits now conn =
     \<lparr>lp_table = [], lp_own = [], lp_own_open = True, lp_own_senders = True, lp_frames = [],
      lp_fenced = None, lp_turn = 0, lp_subscriptions = 0, lp_accepting = [], lp_running = 0,
      lp_started = [], lp_calls = open_count (cn_calls conn), lp_dropped = 0, lp_answered_drops = 0,
      lp_out = [], lp_gathered = 0, lp_unflushed = False, lp_budget = write_budget limits,
      lp_max_message = max_message_size limits,
      lp_ping_timeout = map_option (\<lambda>_. ping_timeout limits) (ping_interval limits),
      lp_idle = idle_timeout limits, lp_last_in = now, lp_last_busy = now\<rparr>"

definition run_start ::
  "socket_limits \<Rightarrow> nat \<Rightarrow> negotiated \<Rightarrow> nat \<Rightarrow> ip_addr counts \<times> connection \<Rightarrow>
   (ip_addr counts \<times> connection) \<times> guard \<times> ('id, 'p) socket_loop \<times> nat option"
where
  "run_start limits now n writer pc =
     (let pc' = upgraded n writer pc in
      (pc', guard_new (of_nat (max_message_size limits)), loop_new limits now (snd pc'),
       tick_every (map_option (\<lambda>_. ping_timeout limits) (ping_interval limits)) (idle_timeout limits)))"

definition run_over :: "connection \<Rightarrow> connection" where
  "run_over conn = ended conn"

end
