(* ===== verification/Writer.thy ===== *)
theory Writer
  imports SocketLoop
begin

text \<open>
  ws/mod.rs: the handle this side writes its own frames through on a socket it accepted
  (\<open>ConnectionWriter\<close>), over tokio's bounded channel whose receiver the socket's loop holds; the
  connection's own reader of frames (\<open>ConnectionHook\<close>) and what makes one (\<open>Hooks\<close>).
\<close>

section \<open>The writer\<close>

text \<open>
  What a writer sees of its queue: the frames in it, how many it holds, and whether its receiver
  is gone. A frame that is not taken is given back.
\<close>

record writer_queue =
  wq_frames :: "outbound list"
  wq_bound :: nat
  wq_gone :: bool

datatype try_send_error = Full outbound | Closed outbound

datatype connection_lost = ConnectionLost outbound

definition show_connection_lost :: "connection_lost \<Rightarrow> string" where
  "show_connection_lost e = ''connection_lost: the socket is closed''"

definition writer_try_send :: "outbound \<Rightarrow> writer_queue \<Rightarrow> writer_queue \<times> (try_send_error + unit)" where
  "writer_try_send f q =
     (if wq_gone q then (q, Err (Closed f))
      else if wq_bound q \<le> length (wq_frames q) then (q, Err (Full f))
      else (q\<lparr>wq_frames := wq_frames q @ [f]\<rparr>, Ok ()))"

text \<open>\<open>send\<close> waits while the queue is full: one poll of it, \<open>None\<close> while it waits.\<close>

definition writer_send ::
  "outbound \<Rightarrow> writer_queue \<Rightarrow> writer_queue \<times> (connection_lost + unit) option" where
  "writer_send f q =
     (if wq_gone q then (q, Some (Err (ConnectionLost f)))
      else if wq_bound q \<le> length (wq_frames q) then (q, None)
      else (q\<lparr>wq_frames := wq_frames q @ [f]\<rparr>, Some (Ok ())))"

definition writer_is_closed :: "writer_queue \<Rightarrow> bool" where
  "writer_is_closed q \<longleftrightarrow> wq_gone q"

text \<open>One poll of \<open>closed\<close>: it resolves once the socket is gone.\<close>

definition writer_closed :: "writer_queue \<Rightarrow> unit option" where
  "writer_closed q = (if wq_gone q then Some () else None)"

lemma writer_frames_accepted:
  "wq_frames (fst (writer_try_send f q)) =
     wq_frames q @ (case snd (writer_try_send f q) of Inl _ \<Rightarrow> [] | Inr _ \<Rightarrow> [f])"
  "wq_frames (fst (writer_send f q)) =
     wq_frames q @ (case snd (writer_send f q) of Some (Inr _) \<Rightarrow> [f] | _ \<Rightarrow> [])"
  by (auto simp: writer_try_send_def writer_send_def)

lemma writer_bounded:
  assumes "length (wq_frames q) \<le> wq_bound q"
  shows "length (wq_frames (fst (writer_try_send f q))) \<le> wq_bound q"
    and "length (wq_frames (fst (writer_send f q))) \<le> wq_bound q"
  using assms by (auto simp: writer_try_send_def writer_send_def)

lemma writer_gives_the_frame_back:
  "snd (writer_try_send f q) = Inl e \<Longrightarrow> e = (if wq_gone q then Closed f else Full f)"
  "snd (writer_send f q) = Some (Inl lost) \<Longrightarrow> lost = ConnectionLost f \<and> wq_gone q"
  by (auto simp: writer_try_send_def writer_send_def split: if_splits)

section \<open>The hook\<close>

text \<open>
  A connection's hook: what it answers of a frame (\<open>True\<close>: it took it) and what it does when the
  connection is over, both on the state it keeps.
\<close>

record 'h connection_hook =
  hk_on_frame :: "bytes \<Rightarrow> 'h \<Rightarrow> 'h \<times> bool"
  hk_on_close :: "'h \<Rightarrow> 'h"

text \<open>The trait's own \<open>on_close\<close>, where a hook has none: nothing.\<close>

definition hook_of :: "(bytes \<Rightarrow> 'h \<Rightarrow> 'h \<times> bool) \<Rightarrow> 'h connection_hook" where
  "hook_of on_frame = \<lparr>hk_on_frame = on_frame, hk_on_close = id\<rparr>"

datatype ('ext, 'h) hooks_t = Hooks "connection \<Rightarrow> 'ext \<Rightarrow> 'h connection_hook option"

fun hooks_make :: "('ext, 'h) hooks_t \<Rightarrow> connection \<Rightarrow> 'ext \<Rightarrow> 'h connection_hook option" where
  "hooks_make (Hooks made) conn ext = made conn ext"

text \<open>A connection's hook, as its upgrade makes it: none where the server has no hooks.\<close>

definition connection_hook_of ::
  "('ext, 'h) hooks_t option \<Rightarrow> connection \<Rightarrow> 'ext \<Rightarrow> 'h connection_hook option" where
  "connection_hook_of hooks conn ext = Option.bind hooks (\<lambda>h. hooks_make h conn ext)"

text \<open>The end of \<open>run\<close>: the hook is told, then the connection is over.\<close>

definition run_end ::
  "'h connection_hook option \<Rightarrow> 'h \<times> connection \<Rightarrow> 'h \<times> connection" where
  "run_end hk hc =
     (case hc of (h, conn) \<Rightarrow> (case hk of None \<Rightarrow> h | Some k \<Rightarrow> hk_on_close k h, run_over conn))"

section \<open>The framing's own log\<close>

text \<open>
  \<open>cap_frame_logs\<close>, run once a socket is served: what the \<open>log\<close> facade keeps from then on. The
  answer also says whether the cap was put on now.
\<close>

datatype level_filter = Level_off | Level_error | Level_warn | Level_info | Level_debug | Level_trace

fun level_rank :: "level_filter \<Rightarrow> nat" where
  "level_rank Level_off = 0"
| "level_rank Level_error = 1"
| "level_rank Level_warn = 2"
| "level_rank Level_info = 3"
| "level_rank Level_debug = 4"
| "level_rank Level_trace = 5"

definition cap_frame_logs :: "level_filter \<Rightarrow> level_filter \<times> bool" where
  "cap_frame_logs kept =
     (if level_rank Level_debug < level_rank kept then (Level_debug, True) else (kept, False))"

text \<open>Once a socket is served no frame's payload is logged, however often sockets are served.\<close>

lemma frames_are_not_logged:
  "level_rank (fst (cap_frame_logs kept)) < level_rank Level_trace"
  "cap_frame_logs (fst (cap_frame_logs kept)) = (fst (cap_frame_logs kept), False)"
  by (cases kept; simp add: cap_frame_logs_def)+

end
