(* ===== verification/Socket_Properties.thy ===== *)
theory Socket_Properties
  imports SocketLoop "HOL-Library.Multiset"
begin

text \<open>
  The properties of a socket's loop: what an inbound message is answered, that every message the
  guard dropped is answered once, that the writer loses, repeats and reorders nothing, the fence
  before a call's first frame, the turns of the queues, the write budget and the read budget.
\<close>

section \<open>Answers\<close>

lemma respond_fields [simp]:
  "lp_started (respond rp l) = lp_started l" "lp_dropped (respond rp l) = lp_dropped l"
  "lp_answered_drops (respond rp l) = lp_answered_drops l" "lp_accepting (respond rp l) = lp_accepting l"
  "lp_subscriptions (respond rp l) = lp_subscriptions l" "lp_running (respond rp l) = lp_running l"
  "lp_max_message (respond rp l) = lp_max_message l" "lp_budget (respond rp l) = lp_budget l"
  by (simp_all add: respond_def)

lemma lp_out_respond:
  "lp_out (respond rp l) = lp_out l @ (if answered rp then [Out_text (mr_json rp)] else [])"
  by (simp add: respond_def)

lemma answered_error [simp]: "answered (error_response w i e)"
  by (simp add: answered_def error_response_def)

text \<open>One message: at most one answer at once, or one call started, never both.\<close>

definition one_effect :: "('id, 'p) socket_loop \<Rightarrow> ('id, 'p) socket_loop \<Rightarrow> bool" where
  "one_effect l l' \<longleftrightarrow>
     lp_out l' = lp_out l \<and> lp_started l' = lp_started l \<or>
     (\<exists>a. lp_out l' = lp_out l @ [a]) \<and> lp_started l' = lp_started l \<or>
     lp_out l' = lp_out l \<and> (\<exists>c. lp_started l' = lp_started l @ [c])"

lemma one_effect_refl: "one_effect l l"
  by (simp add: one_effect_def)

lemma one_effect_respond: "one_effect l (respond rp l)"
  by (auto simp: one_effect_def lp_out_respond)

lemma one_effect_call: "one_effect l (loop_call w req (l\<lparr>lp_last_busy := now\<rparr>))"
  by (auto simp: loop_call_def one_effect_def lp_out_respond split: option.splits callback.splits)

lemma one_effect_single: "one_effect l (single w now d l)"
  by (auto simp: single_def one_effect_call one_effect_refl one_effect_respond split: option.splits prod.splits)

lemma one_effect_data: "one_effect l (message_data w now binary d l)"
  by (auto simp: message_data_def malformed_def one_effect_refl one_effect_respond one_effect_single
      split: option.splits list.splits)
    (auto simp: one_effect_def)

lemma one_effect_message: "message w now m l = (l', e) \<Longrightarrow> one_effect l l'"
proof -
  assume a: "message w now m l = (l', e)"
  have "one_effect l l2" if "one_effect (l\<lparr>lp_last_in := now\<rparr>) l2" for l2
    using that by (simp add: one_effect_def)
  then show ?thesis
    using a
    by (auto simp: message_def Let_def malformed_def one_effect_data one_effect_respond one_effect_refl
        split: ws_message.splits if_splits)
qed


definition quiet_world :: "(nat, nat) outside" where
  "quiet_world =
     \<lparr>os_request = (\<lambda>_. None), os_notification = (\<lambda>_. False),
      os_shape = (\<lambda>_. Some \<lparr>sp_method = False, sp_id = True, sp_result = True, sp_error = False\<rparr>),
      os_prepare_error = (\<lambda>_. (None, Invalid_request)), os_invalid_id = (\<lambda>_. None),
      os_array = (\<lambda>_. None), os_error_json = (\<lambda>_ _. [1]), os_methods = (\<lambda>_. None),
      os_batch_full = (\<lambda>_. None), os_batch_finish = (\<lambda>_. notification_response), os_hook = None,
      os_inputs_idle = True, os_take_frame = (\<lambda>_. False), os_binary_input = 1,
      os_binary_malformed = (\<lambda>_. False)\<rparr>"

definition sample_loop :: "(nat, nat) socket_loop" where
  "sample_loop = loop_new default_limits 0
     \<lparr>cn_peer = \<lparr>sa_ip = localhost, sa_port = 9\<rparr>, cn_id = 5, cn_closed = False, cn_calls = calls_new 4,
      cn_upgraded = None, cn_pending = None, cn_tls = False\<rparr>"


section \<open>Dropped messages\<close>

lemma answer_drops_out:
  "lp_answered_drops l \<le> lp_dropped l \<Longrightarrow>
   lp_out (answer_drops w l) =
     lp_out l @ replicate (lp_dropped l - lp_answered_drops l)
       (Out_text (os_error_json w None (Too_big_request (lp_max_message l)))) \<and>
   lp_answered_drops (answer_drops w l) = lp_dropped l \<and>
   lp_dropped (answer_drops w l) = lp_dropped l \<and>
   lp_started (answer_drops w l) = lp_started l"
proof (induction w l rule: answer_drops.induct)
  case (1 w l)
  show ?case
  proof (cases "lp_answered_drops l < lp_dropped l")
    case True
    then obtain k where k: "lp_dropped l - lp_answered_drops l = Suc k"
      "lp_dropped l - Suc (lp_answered_drops l) = k" by (metis Suc_diff_Suc)
    let ?l = "respond (error_response w None (Too_big_request (lp_max_message l)))
        (l\<lparr>lp_answered_drops := lp_answered_drops l + 1\<rparr>)"
    have "answer_drops w l = answer_drops w ?l"
      using True by (subst answer_drops.simps) simp
    then show ?thesis
      using 1(1) [OF True] True k by (simp add: lp_out_respond error_response_def)
        (simp add: error_response_def answered_def)
  next
    case False
    then have "answer_drops w l = l" by (subst answer_drops.simps) simp
    then show ?thesis using False 1(2) by simp
  qed
qed

lemma loop_call_drops [simp]:
  "lp_answered_drops (loop_call w r l) = lp_answered_drops l" "lp_dropped (loop_call w r l) = lp_dropped l"
  by (simp_all add: loop_call_def split: option.split callback.split)

lemma single_drops [simp]:
  "lp_answered_drops (single w now d l) = lp_answered_drops l" "lp_dropped (single w now d l) = lp_dropped l"
  by (simp_all add: single_def split: option.split prod.split)

lemma message_data_drops [simp]:
  "lp_answered_drops (message_data w now b d l) = lp_answered_drops l"
  "lp_dropped (message_data w now b d l) = lp_dropped l"
  by (simp_all add: message_data_def malformed_def split: option.split)

lemma message_drop_fields:
  "message w now m l = (l', e) \<Longrightarrow>
   lp_answered_drops l' = lp_answered_drops l \<and> lp_dropped l' = lp_dropped l"
  by (cases m) (auto simp: message_def malformed_def Let_def split: if_splits)

definition all_drops_answered :: "('id, 'p) socket_loop \<Rightarrow> bool" where
  "all_drops_answered l \<longleftrightarrow> lp_answered_drops l = lp_dropped l"

lemma accept_each_fields:
  "accept_each resolved fs l = (kept, l', moved) \<Longrightarrow>
   lp_answered_drops l' = lp_answered_drops l \<and> lp_dropped l' = lp_dropped l"
  by (induction resolved fs l arbitrary: kept l' moved rule: accept_each.induct)
    (auto split: option.splits prod.splits)

lemma poll_accepting_drops:
  "poll_accepting resolved l = (l', moved) \<Longrightarrow> all_drops_answered l' = all_drops_answered l"
  by (auto simp: poll_accepting_def all_drops_answered_def split: prod.splits dest!: accept_each_fields)

lemma read_turn_drops:
  assumes "read_turn w now t reads l = (l', reads', moved, None)" and "all_drops_answered l"
  shows "all_drops_answered l'"
proof (cases "reads < READ_BUDGET \<and> length (lp_out l) < OUT_HIGH")
  case False
  then show ?thesis using assms by (auto simp: read_turn_def)
next
  case True
  let ?l = "l\<lparr>lp_dropped := lp_dropped l + ti_dropped t\<rparr>"
  have le: "lp_answered_drops ?l \<le> lp_dropped ?l" using assms(2) by (simp add: all_drops_answered_def)
  show ?thesis
  proof (cases "ti_read t")
    case (Got m)
    obtain l2 e where m: "message w now m ?l = (l2, e)" by fastforce
    then show ?thesis using assms True Got le message_drop_fields [OF m] answer_drops_out [of l2 w]
      by (auto simp: read_turn_def all_drops_answered_def split: option.splits)
  qed (use assms True le answer_drops_out [of ?l w] in \<open>auto simp: read_turn_def all_drops_answered_def\<close>)
qed

text \<open>What taking a frame from the queues leaves as it was.\<close>

definition keeps :: "('id, 'p) socket_loop \<Rightarrow> ('id, 'p) socket_loop \<Rightarrow> bool" where
  "keeps l l' \<longleftrightarrow>
     lp_answered_drops l' = lp_answered_drops l \<and> lp_dropped l' = lp_dropped l \<and>
     lp_gathered l' = lp_gathered l \<and> lp_budget l' = lp_budget l \<and> lp_unflushed l' = lp_unflushed l"

lemma keeps_updates [simp]:
  "keeps l l" "keeps l (l'\<lparr>lp_turn := t\<rparr>) = keeps l l'" "keeps l (l'\<lparr>lp_out := out\<rparr>) = keeps l l'"
  "keeps (l\<lparr>lp_turn := t\<rparr>) l' = keeps l l'"
  by (simp_all add: keeps_def)

lemma keeps_trans: "keeps l l1 \<Longrightarrow> keeps l1 l2 \<Longrightarrow> keeps l l2"
  by (simp add: keeps_def)

lemma poll_queue_keeps: "poll_queue ready q l = (l', p) \<Longrightarrow> keeps l l'"
  by (cases q)
    (auto simp: poll_queue_def keeps_def split: if_splits list.splits prod.splits bool.splits)

lemma past_fence_keeps: "past_fence l b = (l', m) \<Longrightarrow> keeps l l'"
  by (auto simp: past_fence_def keeps_def split: list.splits)

lemma take_turns_keeps: "take_turns ready is l = (l', p) \<Longrightarrow> keeps l l'"
proof (induction ready "is" l arbitrary: l' p rule: take_turns.induct)
  case (2 ready i "is" l)
  obtain l1 q where pq: "poll_queue ready (TURNS ! ((lp_turn l + i) mod 3)) l = (l1, q)" by fastforce
  note k = poll_queue_keeps [OF pq]
  show ?case
  proof (cases q)
    case Nothing
    then have "keeps l1 l'" using 2 pq by auto
    with k show ?thesis by (rule keeps_trans)
  next
    case (Frame_out m)
    then show ?thesis using 2(2) pq k by auto
  next
    case Fence_raised
    show ?thesis
    proof (cases "lp_fenced l1")
      case None
      then show ?thesis using 2(2) pq k Fence_raised by auto
    next
      case (Some b)
      obtain l2 m where pf: "past_fence (l1\<lparr>lp_turn := (lp_turn l + i + 1) mod 3\<rparr>) b = (l2, m)" by fastforce
      have "keeps l l2" using keeps_trans [OF k] past_fence_keeps [OF pf] by simp
      then show ?thesis using 2(2) pq k Fence_raised Some pf by (auto split: list.splits)
    qed
  qed
qed simp

lemma next_out_keeps: "next_out ready l = (l', p) \<Longrightarrow> keeps l l'"
  by (auto simp: next_out_def simp del: take_turns.simps split: list.splits option.splits prod.splits
      dest: take_turns_keeps past_fence_keeps)

lemma write_frames_drops:
  "write_frames ready ss l = (Some (l', moved), ms) \<Longrightarrow>
   lp_answered_drops l' = lp_answered_drops l \<and> lp_dropped l' = lp_dropped l"
proof (induction ready ss l arbitrary: moved ms rule: write_frames.induct)
  case (2 ready s ss l)
  obtain l1 p where n: "next_out ready l = (l1, p)" by fastforce
  note k = next_out_keeps [OF n, unfolded keeps_def]
  show ?case
  proof (cases "lp_budget l \<le> lp_gathered l \<or> s = Sink_failed \<or> s = Not_ready \<or> s = Send_fails \<or> p = None")
    case True
    then show ?thesis using 2(3) n k by (auto split: if_splits sink.splits option.splits)
  next
    case False
    then obtain m where m: "p = Some m" "s = Takes" by (cases s) auto
    let ?l = "l1\<lparr>lp_gathered := lp_gathered l1 + out_len m, lp_unflushed := True\<rparr>"
    obtain res out where w: "write_frames ready ss ?l = (res, out)" by fastforce
    with 2(3) n m False obtain mv where r: "res = Some (l', mv)" by (auto split: option.splits)
    have "lp_answered_drops l' = lp_answered_drops ?l \<and> lp_dropped l' = lp_dropped ?l"
      using 2(1) n m False w r by auto
    then show ?thesis using k by simp
  qed
qed auto

lemma poll_write_drops:
  "poll_write ready ss fl l = (Some (l', moved), ms) \<Longrightarrow> all_drops_answered l' = all_drops_answered l"
  by (auto simp: poll_write_def all_drops_answered_def split: prod.splits option.splits if_splits flush.splits
      dest!: write_frames_drops)

lemma run_turns_drops:
  "run_turns w now ts reads l = (l', u, reads', ms) \<Longrightarrow> all_drops_answered l \<Longrightarrow>
   u = Slept \<or> u = Yielded \<Longrightarrow> all_drops_answered l'"
proof (induction w now ts reads l arbitrary: l' u reads' ms rule: run_turns.induct)
  case (2 w now t ts reads l)
  obtain l1 m1 where p: "poll_accepting (ti_resolved t) l = (l1, m1)" by fastforce
  obtain l2 r2 m2 e where r: "read_turn w now t reads l1 = (l2, r2, m2, e)" by (metis prod_cases4)
  from "2.prems"(1,3) p r have e: "e = None" by (auto split: option.splits)
  obtain res out where w: "poll_write (ti_ready t) (ti_sinks t) (ti_flush t) l2 = (res, out)" by fastforce
  from "2.prems"(1,3) p r e w obtain l3 m3 where res: "res = Some (l3, m3)" by (auto split: option.splits)
  have "all_drops_answered l1" using poll_accepting_drops [OF p] "2.prems"(2) by simp
  then have "all_drops_answered l2" using read_turn_drops r e by blast
  then have d: "all_drops_answered l3" using poll_write_drops w res by blast
  show ?case
  proof (cases "(m1 \<or> m2 \<or> m3) \<and> \<not> READ_BUDGET \<le> r2")
    case True
    obtain l4 u4 r4 ms4 where rest: "run_turns w now ts r2 l3 = (l4, u4, r4, ms4)" by (metis prod_cases4)
    then have "l' = l4" "u = u4" using "2.prems"(1) p r e w res True by auto
    then show ?thesis
      using "2.IH" p r e w res d rest True "2.prems"(3) by auto
  next
    case False
    then show ?thesis using "2.prems"(1) p r e w res d by (auto split: if_splits)
  qed
qed auto

lemma poll_run_drops:
  assumes "poll_run w k l = (l', u, reads, ms)" and "all_drops_answered l" and "u = Slept \<or> u = Yielded"
  shows "all_drops_answered l'"
proof -
  obtain l1 e where lv: "(if wi_ticked k then liveness (wi_now k) l else (l, None)) = (l1, e)" by fastforce
  then have "all_drops_answered l1"
    using assms(2) by (auto simp: liveness_def all_drops_answered_def split: if_splits option.splits)
  then have "all_drops_answered (if wi_ping_due k then l1\<lparr>lp_out := Out_ping # lp_out l1\<rparr> else l1)"
    by (simp add: all_drops_answered_def)
  moreover have "run_turns w (wi_now k) (wi_turns k) 0
      (if wi_ping_due k then l1\<lparr>lp_out := Out_ping # lp_out l1\<rparr> else l1) = (l', u, reads, ms)"
    using assms(1,3) lv by (auto simp: poll_run_def split: if_splits option.splits)
  ultimately show ?thesis using run_turns_drops assms(3) by blast
qed

text \<open>
  Every message the guard dropped over the cap is answered, once: the answers put out by
  \<open>answer_drops\<close> are exactly one \<open>-32007\<close> for each drop not yet answered, and a wakeup that
  leaves the socket open leaves no drop unanswered.
\<close>

theorem every_dropped_message_is_answered_once:
  assumes "all_drops_answered l"
    and "poll_run w k l = (l', u, reads, ms)" and "u = Slept \<or> u = Yielded"
  shows "all_drops_answered l' \<and>
    (\<forall>n. lp_out (answer_drops w (l'\<lparr>lp_dropped := lp_dropped l' + n\<rparr>)) =
       lp_out l' @ replicate n (Out_text (os_error_json w None (Too_big_request (lp_max_message l')))))"
proof -
  have "all_drops_answered l'" by (rule poll_run_drops [OF assms(2,1,3)])
  then show ?thesis
    using answer_drops_out [of "l'\<lparr>lp_dropped := lp_dropped l' + n\<rparr>" w for n]
    by (simp add: all_drops_answered_def)
qed

definition idle_turn :: "nat \<Rightarrow> (nat, nat) turn_input" where
  "idle_turn drops =
     \<lparr>ti_resolved = (\<lambda>_. None), ti_read = Read_waits, ti_dropped = drops, ti_ready = (\<lambda>_. True),
      ti_sinks = [], ti_flush = Flushed\<rparr>"

definition sample_wake :: "(nat, nat) wake_input" where
  "sample_wake =
     \<lparr>wi_now = 5, wi_stopping = False, wi_closing = False, wi_ticked = True, wi_ping_due = False,
      wi_turns = [idle_turn 2]\<rparr>"

lemma answer_drops_unflushed: "lp_unflushed (answer_drops w l) = lp_unflushed l"
proof (induction w l rule: answer_drops.induct)
  case (1 w l)
  then show ?case by (subst answer_drops.simps) (simp add: respond_def)
qed

lemma sample_wake_sleeps: "fst (snd (poll_run quiet_world sample_wake sample_loop)) = Slept"
  by (simp add: poll_run_def sample_wake_def liveness_def idle_turn_def read_turn_def poll_write_def
      poll_accepting_def sample_loop_def loop_new_def default_limits_def READ_BUDGET_def OUT_HIGH_def
      answer_drops_unflushed split: prod.split)

lemma every_dropped_message_is_answered_once_witness:
  "case poll_run quiet_world sample_wake sample_loop of
     (l', u, reads, ms) \<Rightarrow> all_drops_answered l' \<and>
       (\<forall>n. lp_out (answer_drops quiet_world (l'\<lparr>lp_dropped := lp_dropped l' + n\<rparr>)) =
          lp_out l' @ replicate n (Out_text (os_error_json quiet_world None (Too_big_request (lp_max_message l')))))"
proof -
  obtain l' u reads ms where p: "poll_run quiet_world sample_wake sample_loop = (l', u, reads, ms)"
    by (metis prod_cases4)
  have "all_drops_answered sample_loop" by (simp add: all_drops_answered_def sample_loop_def loop_new_def)
  moreover have "u = Slept" using sample_wake_sleeps p by simp
  then have "u = Slept \<or> u = Yielded" by simp
  ultimately show ?thesis
    unfolding p prod.case by (intro every_dropped_message_is_answered_once [OF _ p])
qed

section \<open>The writer\<close>

definition queued :: "('id, 'p) socket_loop \<Rightarrow> out_message multiset" where
  "queued l =
     mset (lp_out l) + mset (map own (lp_own l)) + mset (map Out_text (lp_table l)) +
     mset (map (Out_text \<circ> snd) (lp_frames l)) +
     (case lp_fenced l of None \<Rightarrow> {#} | Some b \<Rightarrow> {#Out_text b#})"

lemma queued_turn [simp]: "queued (l\<lparr>lp_turn := t\<rparr>) = queued l"
  by (simp add: queued_def)

lemma queued_written [simp]: "queued (l\<lparr>lp_gathered := g, lp_unflushed := u\<rparr>) = queued l"
  by (simp add: queued_def)

lemma poll_queue_queued:
  assumes "poll_queue ready q l = (l', p)" and "lp_fenced l = None"
  shows "case p of
      Nothing \<Rightarrow> queued l' = queued l \<and> lp_fenced l' = None \<and> lp_out l' = lp_out l
    | Frame_out m \<Rightarrow> queued l = add_mset m (queued l') \<and> lp_out l' = lp_out l
    | Fence_raised \<Rightarrow> (\<exists>b. lp_fenced l' = Some b) \<and> queued l' = queued l \<and> lp_out l' = lp_out l"
  using assms
  by (cases q) (auto simp: poll_queue_def queued_def split: if_splits list.splits prod.splits bool.splits)

lemma past_fence_queued:
  "past_fence l b = (l', m) \<Longrightarrow> lp_fenced l = Some b \<Longrightarrow> queued l = add_mset m (queued l')"
  by (auto simp: past_fence_def queued_def split: list.splits)

lemma take_turns_queued:
  "take_turns ready is l = (l', p) \<Longrightarrow> lp_fenced l = None \<Longrightarrow> lp_out l = [] \<Longrightarrow>
   queued l = (case p of None \<Rightarrow> queued l' | Some m \<Rightarrow> add_mset m (queued l'))"
proof (induction ready "is" l arbitrary: l' p rule: take_turns.induct)
  case (2 ready i "is" l)
  obtain l1 q where pq: "poll_queue ready (TURNS ! ((lp_turn l + i) mod 3)) l = (l1, q)" by fastforce
  note k = poll_queue_queued [OF pq "2.prems"(2)]
  show ?case
  proof (cases q)
    case Nothing
    then show ?thesis using 2 pq k by auto
  next
    case (Frame_out m)
    then show ?thesis using "2.prems" pq k by auto
  next
    case Fence_raised
    then obtain b where b: "lp_fenced l1 = Some b" "queued l1 = queued l" "lp_out l1 = []"
      using k "2.prems"(3) by auto
    obtain l2 m where pf: "past_fence (l1\<lparr>lp_turn := (lp_turn l + i + 1) mod 3\<rparr>) b = (l2, m)" by fastforce
    then have "queued l1 = add_mset m (queued l2)" using past_fence_queued [OF pf] b by simp
    then show ?thesis using "2.prems"(1) pq Fence_raised b pf by auto
  qed
qed simp

lemma next_out_queued:
  "next_out ready l = (l', p) \<Longrightarrow>
   queued l = (case p of None \<Rightarrow> queued l' | Some m \<Rightarrow> add_mset m (queued l'))"
  by (auto simp: next_out_def simp del: take_turns.simps split: list.splits option.splits prod.splits
      dest: take_turns_queued past_fence_queued)
    (auto simp: queued_def)

lemma write_frames_queued:
  "write_frames ready ss l = (Some (l', moved), ms) \<Longrightarrow>
   queued l = mset ms + queued l' \<and> (ms \<noteq> [] \<longrightarrow> lp_unflushed l') \<and> (ms = [] \<longrightarrow> lp_unflushed l' = lp_unflushed l) \<and>
   lp_budget l' = lp_budget l \<and>
   (ms \<noteq> [] \<longrightarrow> lp_gathered l + sum_list (map out_len (butlast ms)) < lp_budget l)"
proof (induction ready ss l arbitrary: moved ms rule: write_frames.induct)
  case (2 ready s ss l)
  obtain l1 p where n: "next_out ready l = (l1, p)" by fastforce
  note k = next_out_keeps [OF n, unfolded keeps_def] and qd = next_out_queued [OF n]
  show ?case
  proof (cases "lp_budget l \<le> lp_gathered l \<or> s = Sink_failed \<or> s = Not_ready \<or> s = Send_fails \<or> p = None")
    case True
    then show ?thesis using "2.prems" n k qd by (auto split: if_splits sink.splits option.splits)
  next
    case False
    then obtain m where m: "p = Some m" "s = Takes" by (cases s) auto
    let ?l = "l1\<lparr>lp_gathered := lp_gathered l1 + out_len m, lp_unflushed := True\<rparr>"
    obtain res out where w: "write_frames ready ss ?l = (res, out)" by fastforce
    with "2.prems" n m False obtain mv where r: "res = Some (l', mv)" "ms = m # out"
      by (auto split: option.splits)
    have "queued ?l = mset out + queued l' \<and> (out \<noteq> [] \<longrightarrow> lp_unflushed l') \<and>
        (out = [] \<longrightarrow> lp_unflushed l' = lp_unflushed ?l) \<and> lp_budget l' = lp_budget ?l \<and>
        (out \<noteq> [] \<longrightarrow> lp_gathered ?l + sum_list (map out_len (butlast out)) < lp_budget ?l)"
      using "2.IH" n m False w r by auto
    then show ?thesis using k qd m r False by (cases "out = []") auto
  qed
qed auto

text \<open>
  The writer loses, repeats and invents nothing, and keeps its budget: the frames a wakeup
  hands the socket are taken from the loop's own answers and the three queues, each once, those
  left are still queued; all but the last fit under the budget with what was gathered before; and
  what was handed over is flushed in the same wakeup whenever the socket takes the flush.
\<close>

theorem the_writer_loses_and_repeats_nothing:
  assumes "poll_write ready ss fl l = (Some (l', moved), ms)"
  shows "queued l = mset ms + queued l' \<and>
    (ms \<noteq> [] \<longrightarrow> lp_gathered l + sum_list (map out_len (butlast ms)) < lp_budget l) \<and>
    (fl = Flushed \<longrightarrow> \<not> lp_unflushed l') \<and> (ms \<noteq> [] \<longrightarrow> moved \<or> fl \<noteq> Flushed)"
proof -
  obtain l1 mv where w: "write_frames ready ss l = (Some (l1, mv), ms)"
    using assms by (auto simp: poll_write_def split: prod.splits option.splits if_splits flush.splits)
  have flushed: "queued (l1\<lparr>lp_unflushed := False, lp_gathered := 0\<rparr>) = queued l1" by (simp add: queued_def)
  show ?thesis
    using write_frames_queued [OF w] assms w flushed
    by (auto simp: poll_write_def split: if_splits flush.splits)
qed

lemma the_writer_loses_and_repeats_nothing_witness:
  "let l = sample_loop\<lparr>lp_table := [[1, 2]], lp_frames := [(True, [3])]\<rparr> in
   case poll_write (\<lambda>_. True) [Takes, Takes, Not_ready] Flushed l of (res, ms) \<Rightarrow>
   case res of None \<Rightarrow> True | Some (l', moved) \<Rightarrow>
     queued l = mset ms + queued l' \<and>
     (ms \<noteq> [] \<longrightarrow> lp_gathered l + sum_list (map out_len (butlast ms)) < lp_budget l) \<and>
     (Flushed = Flushed \<longrightarrow> \<not> lp_unflushed l') \<and> (ms \<noteq> [] \<longrightarrow> moved \<or> Flushed \<noteq> Flushed)"
proof -
  let ?l = "sample_loop\<lparr>lp_table := [[1, 2]], lp_frames := [(True, [3])]\<rparr>"
  obtain res ms where p: "poll_write (\<lambda>_. True) [Takes, Takes, Not_ready] Flushed ?l = (res, ms)" by fastforce
  show ?thesis
  proof (cases res)
    case None
    with p show ?thesis by (simp add: Let_def)
  next
    case (Some r)
    obtain l' moved where "r = (l', moved)" by fastforce
    with p Some have "poll_write (\<lambda>_. True) [Takes, Takes, Not_ready] Flushed ?l = (Some (l', moved), ms)"
      by simp
    from the_writer_loses_and_repeats_nothing [OF this] show ?thesis
      unfolding Let_def p prod.case Some \<open>r = _\<close> option.case .
  qed
qed

section \<open>The fence and the turns\<close>

fun outs :: "(out_queue \<Rightarrow> bool) \<Rightarrow> nat \<Rightarrow> ('id, 'p) socket_loop \<Rightarrow> out_message list" where
  "outs ready 0 l = []"
| "outs ready (Suc n) l =
     (case next_out ready l of (l', None) \<Rightarrow> [] | (l', Some m) \<Rightarrow> m # outs ready n l')"

lemma outs_fenced:
  "lp_out l = [] \<Longrightarrow> lp_fenced l = Some b \<Longrightarrow>
   outs ready (Suc (length (lp_table l))) l = map Out_text (lp_table l) @ [Out_text b]"
proof (induction "lp_table l" arbitrary: l)
  case Nil
  then show ?case by (simp add: next_out_def past_fence_def split: list.splits)
next
  case (Cons m ms)
  let ?l = "l\<lparr>lp_table := ms\<rparr>"
  have "next_out ready l = (?l, Some (Out_text m))"
    using Cons.prems Cons.hyps(2) [symmetric] by (simp add: next_out_def past_fence_def)
  moreover have "outs ready (Suc (length ms)) ?l = map Out_text ms @ [Out_text b]"
    using Cons.hyps(1) [of ?l] Cons.prems by simp
  ultimately show ?case using Cons.hyps(2) [symmetric] by simp
qed



lemma turn_own:
  "lp_out l = [] \<Longrightarrow> lp_fenced l = None \<Longrightarrow> ready Own \<Longrightarrow> lp_own_open l \<Longrightarrow> lp_turn l = 0 \<Longrightarrow>
   lp_own l = f # rest \<Longrightarrow> next_out ready l = (l\<lparr>lp_own := rest, lp_turn := 1\<rparr>, Some (own f))"
  by (simp add: next_out_def TURNS_def poll_queue_def)

lemma turn_table:
  "lp_out l = [] \<Longrightarrow> lp_fenced l = None \<Longrightarrow> ready Table \<Longrightarrow> lp_turn l = Suc 0 \<Longrightarrow>
   lp_table l = t # rest \<Longrightarrow> next_out ready l = (l\<lparr>lp_table := rest, lp_turn := 2\<rparr>, Some (Out_text t))"
  by (simp add: next_out_def TURNS_def poll_queue_def)

lemma turn_frames:
  "lp_out l = [] \<Longrightarrow> lp_fenced l = None \<Longrightarrow> ready Frames \<Longrightarrow> lp_turn l = 2 \<Longrightarrow>
   lp_frames l = (False, b) # rest \<Longrightarrow>
   next_out ready l = (l\<lparr>lp_frames := rest, lp_turn := 0\<rparr>, Some (Out_text b))"
  by (simp add: next_out_def TURNS_def poll_queue_def)

lemma three_outs:
  "next_out ready l = (l1, Some a) \<Longrightarrow> next_out ready l1 = (l2, Some b) \<Longrightarrow>
   next_out ready l2 = (l3, Some c) \<Longrightarrow> outs ready 3 l = [a, b, c]"
  by (simp add: numeral_3_eq_3)

text \<open>
  No queue starves another: with a frame waiting in each of the three, none of them a call's
  first, the next three frames out are one of each, whichever queue's turn it is.
\<close>

theorem the_queues_take_turns:
  assumes "lp_out l = []" and "lp_fenced l = None" and "lp_turn l < 3" and "\<And>q. ready q" and "lp_own_open l"
    and "lp_own l = f # own_rest" and "lp_table l = t # table_rest" and "lp_frames l = (False, b) # frames_rest"
  shows "mset (outs ready 3 l) = {#own f, Out_text t, Out_text b#}"
proof -
  note r = assms(1,2,5-8) assms(4)
  consider "lp_turn l = 0" | "lp_turn l = Suc 0" | "lp_turn l = 2" using assms(3) by linarith
  then show ?thesis
  proof cases
    case 1
    have "outs ready 3 l = [own f, Out_text t, Out_text b]"
      by (rule three_outs [OF turn_own turn_table turn_frames]) (simp_all add: r 1)
    then show ?thesis by simp
  next
    case 2
    have "outs ready 3 l = [Out_text t, Out_text b, own f]"
      by (rule three_outs [OF turn_table turn_frames turn_own]) (simp_all add: r 2)
    then show ?thesis by simp
  next
    case 3
    have "outs ready 3 l = [Out_text b, own f, Out_text t]"
      by (rule three_outs [OF turn_frames turn_own turn_table]) (simp_all add: r 3)
    then show ?thesis by simp
  qed
qed

lemma the_queues_take_turns_witness:
  "mset (outs (\<lambda>_. True) 3
     (sample_loop\<lparr>lp_own := [Own_text [9]], lp_table := [[1], [2]], lp_frames := [(False, [3])], lp_turn := 1\<rparr>)) =
   {#own (Own_text [9]), Out_text [1], Out_text [3]#}"
  by (rule the_queues_take_turns) (simp_all add: sample_loop_def loop_new_def)

section \<open>The read budget\<close>

lemma read_turn_reads:
  "read_turn w now t reads l = (l', reads', moved, e) \<Longrightarrow> reads \<le> READ_BUDGET \<Longrightarrow> reads' \<le> READ_BUDGET"
  by (auto simp: read_turn_def Let_def split: if_splits ws_read.splits prod.splits option.splits)

lemma run_turns_reads:
  "run_turns w now ts reads l = (l', u, reads', ms) \<Longrightarrow> reads \<le> READ_BUDGET \<Longrightarrow> reads' \<le> READ_BUDGET"
proof (induction w now ts reads l arbitrary: l' u reads' ms rule: run_turns.induct)
  case (2 w now t ts reads l)
  obtain l1 m1 where p: "poll_accepting (ti_resolved t) l = (l1, m1)" by fastforce
  obtain l2 r2 m2 e where r: "read_turn w now t reads l1 = (l2, r2, m2, e)" by (metis prod_cases4)
  have r2: "r2 \<le> READ_BUDGET" by (rule read_turn_reads [OF r "2.prems"(2)])
  show ?case
  proof (cases e)
    case (Some x)
    then show ?thesis using "2.prems" p r r2 by simp
  next
    case None
    obtain res out where w: "poll_write (ti_ready t) (ti_sinks t) (ti_flush t) l2 = (res, out)" by fastforce
    show ?thesis
    proof (cases "\<exists>l3 m3. res = Some (l3, m3) \<and> (m1 \<or> m2 \<or> m3) \<and> \<not> READ_BUDGET \<le> r2")
      case True
      then obtain l3 m3 where res: "res = Some (l3, m3)" "m1 \<or> m2 \<or> m3" "\<not> READ_BUDGET \<le> r2" by blast
      obtain l4 u4 r4 ms4 where rest: "run_turns w now ts r2 l3 = (l4, u4, r4, ms4)" by (metis prod_cases4)
      then have "r4 \<le> READ_BUDGET" using "2.IH" p r None w res r2 by auto
      then show ?thesis using "2.prems"(1) p r None w res rest by auto
    next
      case False
      then show ?thesis using "2.prems"(1) p r None w r2 by (auto split: option.splits if_splits prod.splits)
    qed
  qed
qed auto

text \<open>
  One wakeup reads at most its budget of frames, however many have arrived, and a wakeup that
  stops at the budget asks to be woken again rather than sleeping on what is left.
\<close>

theorem a_wakeup_reads_at_most_its_budget:
  assumes "poll_run w k l = (l', u, reads, ms)"
  shows "reads \<le> READ_BUDGET"
  using assms
  by (auto simp: poll_run_def split: if_splits option.splits prod.splits dest: run_turns_reads)

lemma a_wakeup_reads_at_most_its_budget_witness:
  "fst (snd (snd (poll_run quiet_world sample_wake sample_loop))) \<le> READ_BUDGET"
  by (rule a_wakeup_reads_at_most_its_budget
      [where l' = "fst (poll_run quiet_world sample_wake sample_loop)"
        and u = "fst (snd (poll_run quiet_world sample_wake sample_loop))"
        and ms = "snd (snd (snd (poll_run quiet_world sample_wake sample_loop)))"]) simp

end
