(* ===== verification/Socket_Life.thy ===== *)
theory Socket_Life
  imports Writer Socket_Properties "HOL-Library.Sublist"
begin

text \<open>
  The life of one upgraded socket: the loop's wakeups (ws/conn.rs, \<open>poll_run\<close>), in any
  interleaving with what this side's writers, the method table and the calls put on its three
  queues, until the loop ends. What holds over the whole of it: what goes out, in which order, and
  how the end is told.
\<close>

section \<open>Where a frame comes from\<close>

datatype origin = From_own | From_table | From_frames | From_answers | From_pings

text \<open>
  What waits on a socket, by where it comes from, as it will be written: its three queues, the
  answers the loop made itself, and its pings, which go ahead of them.
\<close>

fun streams :: "('id, 'p) socket_loop \<Rightarrow> origin \<Rightarrow> out_message list" where
  "streams l From_own = map own (lp_own l)"
| "streams l From_table = map Out_text (lp_table l)"
| "streams l From_frames =
     (case lp_fenced l of None \<Rightarrow> [] | Some b \<Rightarrow> [Out_text b]) @ map (Out_text \<circ> snd) (lp_frames l)"
| "streams l From_answers = filter (\<lambda>m. m \<noteq> Out_ping) (lp_out l)"
| "streams l From_pings = filter (\<lambda>m. m = Out_ping) (lp_out l)"

text \<open>The frames of one origin among those written, each marked with its own.\<close>

definition of_origin :: "origin \<Rightarrow> (origin \<times> out_message) list \<Rightarrow> out_message list" where
  "of_origin q tr = map snd (filter (\<lambda>x. fst x = q) tr)"

lemma of_origin_simps [simp]:
  "of_origin q [] = []"
  "of_origin q ((q', m) # tr) = (if q' = q then m # of_origin q tr else of_origin q tr)"
  "of_origin q (tr @ tr') = of_origin q tr @ of_origin q tr'"
  by (simp_all add: of_origin_def)

text \<open>One frame taken: it heads its own stream, and the others stay as they are.\<close>

definition took :: "('id, 'p) socket_loop \<Rightarrow> ('id, 'p) socket_loop \<Rightarrow> origin \<Rightarrow> out_message \<Rightarrow> bool" where
  "took l l' q m \<longleftrightarrow> (\<forall>q'. streams l q' = (if q' = q then [m] else []) @ streams l' q')"

lemma forall_origin: "(\<forall>q. P q) \<longleftrightarrow> P From_own \<and> P From_table \<and> P From_frames \<and> P From_answers \<and> P From_pings"
  by (metis origin.exhaust)

lemma streams_turn [simp]:
  "streams (l\<lparr>lp_turn := t\<rparr>) = streams l"
  "streams (l\<lparr>lp_gathered := g, lp_unflushed := u\<rparr>) = streams l"
  "streams (l\<lparr>lp_unflushed := u, lp_gathered := g\<rparr>) = streams l"
  by (rule ext, case_tac x; simp)+

lemma took_turn [simp]: "took (l\<lparr>lp_turn := t\<rparr>) l' q m = took l l' q m" "took l (l'\<lparr>lp_turn := t\<rparr>) q m = took l l' q m"
  by (simp_all add: took_def)

lemma streams_eq_iff:
  "streams l' = streams l \<longleftrightarrow>
     streams l' From_own = streams l From_own \<and> streams l' From_table = streams l From_table \<and>
     streams l' From_frames = streams l From_frames \<and> streams l' From_answers = streams l From_answers \<and>
     streams l' From_pings = streams l From_pings"
  unfolding fun_eq_iff by (rule forall_origin)

text \<open>The ways a queue answers a poll.\<close>

lemma poll_queue_cases:
  assumes "poll_queue ready q l = (l', p)" and "lp_fenced l = None"
  shows "(p = Nothing \<and> (l' = l \<or> l' = l\<lparr>lp_own_open := False\<rparr>)) \<or>
    (\<exists>f fs. lp_own l = f # fs \<and> l' = l\<lparr>lp_own := fs\<rparr> \<and> p = Frame_out (own f)) \<or>
    (\<exists>m ms. lp_table l = m # ms \<and> l' = l\<lparr>lp_table := ms\<rparr> \<and> p = Frame_out (Out_text m)) \<or>
    (\<exists>b fs. lp_frames l = (False, b) # fs \<and> l' = l\<lparr>lp_frames := fs\<rparr> \<and> p = Frame_out (Out_text b)) \<or>
    (\<exists>b fs. lp_frames l = (True, b) # fs \<and> l' = l\<lparr>lp_frames := fs, lp_fenced := Some b\<rparr> \<and> p = Fence_raised)"
  using assms by (cases q) (auto simp: poll_queue_def split: if_splits list.splits bool.splits)

lemma took_heads:
  "lp_own l = f # fs \<Longrightarrow> took l (l\<lparr>lp_own := fs\<rparr>) From_own (own f)"
  "lp_table l = m # ms \<Longrightarrow> took l (l\<lparr>lp_table := ms\<rparr>) From_table (Out_text m)"
  "lp_fenced l = None \<Longrightarrow> lp_frames l = (False, b) # bs \<Longrightarrow>
   took l (l\<lparr>lp_frames := bs\<rparr>) From_frames (Out_text b)"
  "lp_fenced l = Some b \<Longrightarrow> took l (l\<lparr>lp_fenced := None\<rparr>) From_frames (Out_text b)"
  "lp_out l = r # rs \<Longrightarrow> took l (l\<lparr>lp_out := rs\<rparr>) (if r = Out_ping then From_pings else From_answers) r"
  unfolding took_def forall_origin by simp_all

lemma poll_queue_streams:
  assumes "poll_queue ready q l = (l', p)" and "lp_fenced l = None"
  shows "case p of
      Nothing \<Rightarrow> streams l' = streams l \<and> lp_fenced l' = None \<and> lp_out l' = lp_out l
    | Frame_out m \<Rightarrow> (\<exists>g. took l l' g m)
    | Fence_raised \<Rightarrow> (\<exists>b. lp_fenced l' = Some b) \<and> streams l' = streams l \<and> lp_out l' = lp_out l"
  using poll_queue_cases [OF assms] assms(2)
  by (elim disjE exE conjE) (simp_all add: streams_eq_iff, (blast intro: took_heads)+)

lemma past_fence_streams:
  assumes "past_fence l b = (l', m)" and "lp_fenced l = Some b"
  shows "\<exists>g. took l l' g m"
proof (cases "lp_table l")
  case Nil
  then show ?thesis using assms took_heads(4) [OF assms(2)] by (auto simp: past_fence_def)
next
  case (Cons t ts)
  then show ?thesis using assms took_heads(2) [OF Cons] by (auto simp: past_fence_def)
qed

text \<open>One frame for the socket comes off the head of one stream.\<close>

definition one_off :: "('id, 'p) socket_loop \<Rightarrow> ('id, 'p) socket_loop \<Rightarrow> out_message option \<Rightarrow> bool" where
  "one_off l l' p \<longleftrightarrow> (case p of None \<Rightarrow> streams l' = streams l | Some m \<Rightarrow> \<exists>g. took l l' g m)"

lemma took_cong: "streams l1 = streams l \<Longrightarrow> took l1 l' g m \<Longrightarrow> took l l' g m"
  by (simp add: took_def)

lemma one_off_cong: "streams l1 = streams l \<Longrightarrow> one_off l1 l' p \<Longrightarrow> one_off l l' p"
  by (cases p) (simp_all add: one_off_def took_def)

lemma take_turns_streams:
  "take_turns ready is l = (l', p) \<Longrightarrow> lp_fenced l = None \<Longrightarrow> lp_out l = [] \<Longrightarrow> one_off l l' p"
proof (induction ready "is" l arbitrary: l' p rule: take_turns.induct)
  case (2 ready i "is" l)
  obtain l1 q where pq: "poll_queue ready (TURNS ! ((lp_turn l + i) mod 3)) l = (l1, q)" by fastforce
  note k = poll_queue_streams [OF pq "2.prems"(2)]
  show ?case
  proof (cases q)
    case Nothing
    then have "one_off l1 l' p" using 2 pq k by auto
    then show ?thesis using one_off_cong k Nothing by auto
  next
    case (Frame_out m)
    then show ?thesis using "2.prems" pq k by (auto simp: one_off_def)
  next
    case Fence_raised
    then obtain b where b: "lp_fenced l1 = Some b" "streams l1 = streams l" "lp_out l1 = []"
      using k "2.prems"(3) by auto
    obtain l2 m where pf: "past_fence (l1\<lparr>lp_turn := (lp_turn l + i + 1) mod 3\<rparr>) b = (l2, m)" by fastforce
    then obtain g where "took l1 l2 g m" using past_fence_streams [OF pf] b by auto
    then show ?thesis
      using "2.prems"(1) pq Fence_raised b pf took_cong [OF b(2), of l2 g m] by (auto simp: one_off_def)
  qed
qed (simp add: one_off_def)

lemma next_out_streams:
  assumes "next_out ready l = (l', p)"
  shows "one_off l l' p"
proof (cases "lp_out l")
  case (Cons m ms)
  then show ?thesis using assms took_heads(5) [OF Cons] by (auto simp: next_out_def one_off_def)
next
  case Nil
  show ?thesis
  proof (cases "lp_fenced l")
    case None
    then show ?thesis
      using assms Nil by (auto simp: next_out_def simp del: take_turns.simps intro: take_turns_streams)
  next
    case (Some b)
    then show ?thesis
      using assms Nil past_fence_streams [of l b] by (auto simp: next_out_def one_off_def split: prod.splits)
  qed
qed

text \<open>
  What is written is a beginning of each stream, woven together; where the socket is not gone,
  what is left is still there.
\<close>

definition woven :: "(origin \<Rightarrow> out_message list) \<Rightarrow> out_message list \<Rightarrow> (origin \<Rightarrow> out_message list) \<Rightarrow> bool" where
  "woven before ms after \<longleftrightarrow> (\<exists>tr. map snd tr = ms \<and> (\<forall>q. before q = of_origin q tr @ after q))"

lemma woven_refl: "woven s [] s"
  unfolding woven_def by (rule exI [of _ "[]"]) simp

lemma woven_trans:
  assumes "woven s ms t" and "woven t ns u"
  shows "woven s (ms @ ns) u"
proof -
  from assms obtain tr tr' where "map snd tr = ms" "\<forall>q. s q = of_origin q tr @ t q"
      "map snd tr' = ns" "\<forall>q. t q = of_origin q tr' @ u q"
    unfolding woven_def by blast
  then show ?thesis unfolding woven_def by (intro exI [of _ "tr @ tr'"]) simp
qed

lemma woven_took: "took l l' g m \<Longrightarrow> woven (streams l) [m] (streams l')"
  unfolding woven_def took_def by (intro exI [of _ "[(g, m)]"]) auto

lemma write_frames_woven:
  "write_frames ready ss l = (res, ms) \<Longrightarrow>
   \<exists>rest. woven (streams l) ms rest \<and> (\<forall>l' moved. res = Some (l', moved) \<longrightarrow> rest = streams l')"
proof (induction ready ss l arbitrary: res ms rule: write_frames.induct)
  case (1 ready l)
  then show ?case using woven_refl by auto
next
  case (2 ready s ss l)
  obtain l1 p where n: "next_out ready l = (l1, p)" by fastforce
  note off = next_out_streams [OF n, unfolded one_off_def]
  show ?case
  proof (cases "lp_budget l \<le> lp_gathered l \<or> s = Sink_failed \<or> s = Not_ready \<or> s = Send_fails \<or> p = None")
    case True
    then have "ms = []" "\<forall>l' moved. res = Some (l', moved) \<longrightarrow> streams l' = streams l"
      using "2.prems" n off by (auto split: if_splits sink.splits option.splits)
    then show ?thesis using woven_refl by metis
  next
    case False
    then obtain m where m: "p = Some m" "s = Takes" by (cases s) auto
    with off obtain g where g: "took l l1 g m" by auto
    let ?l = "l1\<lparr>lp_gathered := lp_gathered l1 + out_len m, lp_unflushed := True\<rparr>"
    obtain res1 out where w: "write_frames ready ss ?l = (res1, out)" by fastforce
    then obtain rest where rest: "woven (streams l1) out rest"
        "\<forall>l' moved. res1 = Some (l', moved) \<longrightarrow> rest = streams l'"
      using "2.IH" n m False by fastforce
    have "ms = [m] @ out" "\<forall>l' moved. res = Some (l', moved) \<longrightarrow> (\<exists>mv. res1 = Some (l', mv))"
      using "2.prems" n m False w by (auto split: option.splits)
    then show ?thesis using woven_trans [OF woven_took [OF g] rest(1)] rest(2) by blast
  qed
qed

lemma poll_write_woven:
  assumes "poll_write ready ss fl l = (res, ms)"
  shows "\<exists>rest. woven (streams l) ms rest \<and> (\<forall>l' moved. res = Some (l', moved) \<longrightarrow> rest = streams l')"
proof -
  obtain res1 ms1 where w: "write_frames ready ss l = (res1, ms1)" by fastforce
  from write_frames_woven [OF w] assms w show ?thesis
    by (auto simp: poll_write_def split: option.splits if_splits flush.splits)
qed

section \<open>A wakeup\<close>

text \<open>
  Over a wakeup the loop adds answers and pings of its own; the queues only give frames up. The
  frames written are a beginning of each stream, with what was added to it, woven together.
\<close>

definition flow :: "(origin \<Rightarrow> out_message list) \<Rightarrow> out_message list \<Rightarrow> (origin \<Rightarrow> out_message list) \<Rightarrow> bool" where
  "flow before ms after \<longleftrightarrow>
     (\<exists>tr added. map snd tr = ms \<and> (\<forall>q \<in> {From_own, From_table, From_frames}. added q = []) \<and>
        (\<forall>q. before q @ added q = of_origin q tr @ after q))"

lemma woven_flow: "woven s ms t \<Longrightarrow> flow s ms t"
  unfolding woven_def flow_def by (elim exE, rule_tac x = tr in exI, rule exI [of _ "\<lambda>_. []"]) simp

lemma flow_trans:
  assumes "flow s ms t" and "flow t ns u"
  shows "flow s (ms @ ns) u"
proof -
  from assms obtain tr a tr' b where
      1: "map snd tr = ms" "\<forall>q \<in> {From_own, From_table, From_frames}. a q = []"
      "\<And>q. s q @ a q = of_origin q tr @ t q" and
      2: "map snd tr' = ns" "\<forall>q \<in> {From_own, From_table, From_frames}. b q = []"
      "\<And>q. t q @ b q = of_origin q tr' @ u q"
    unfolding flow_def by metis
  have "s q @ a q @ b q = of_origin q (tr @ tr') @ u q" for q
    using 1(3) [of q] 2(3) [of q] by (metis append.assoc of_origin_simps(3))
  with 1(1,2) 2(1,2) show ?thesis
    unfolding flow_def by (intro exI [of _ "tr @ tr'"] exI [of _ "\<lambda>q. a q @ b q"]) simp
qed

text \<open>The reading half of a turn only adds answers.\<close>

definition answering :: "('id, 'p) socket_loop \<Rightarrow> ('id, 'p) socket_loop \<Rightarrow> bool" where
  "answering l l' \<longleftrightarrow>
     lp_own l' = lp_own l \<and> lp_table l' = lp_table l \<and> lp_frames l' = lp_frames l \<and>
     lp_fenced l' = lp_fenced l \<and> (\<exists>added. lp_out l' = lp_out l @ added)"

lemma answering_refl [simp]: "answering l l"
  by (simp add: answering_def)

lemma answering_trans: "answering l l1 \<Longrightarrow> answering l1 l2 \<Longrightarrow> answering l l2"
  by (auto simp: answering_def)

lemma answering_respond: "answering l l1 \<Longrightarrow> answering l (respond rp l1)"
  by (auto simp: answering_def respond_def)

lemma answering_responded: "answering (respond rp l) l' \<Longrightarrow> answering l l'"
  by (rule answering_trans [OF answering_respond [OF answering_refl]])

lemma answering_fields [simp]:
  "answering (l\<lparr>lp_answered_drops := d\<rparr>) l' = answering l l'"
  "answering l (l'\<lparr>lp_last_in := t\<rparr>) = answering l l'"
  "answering l (l'\<lparr>lp_last_busy := t\<rparr>) = answering l l'"
  "answering l (l'\<lparr>lp_dropped := d\<rparr>) = answering l l'"
  "answering l (l'\<lparr>lp_answered_drops := d\<rparr>) = answering l l'"
  "answering l (l'\<lparr>lp_accepting := fs\<rparr>) = answering l l'"
  "answering l (l'\<lparr>lp_running := n, lp_started := st\<rparr>) = answering l l'"
  "answering l (l'\<lparr>lp_last_busy := t, lp_running := n, lp_started := st\<rparr>) = answering l l'"
  "answering l (l'\<lparr>lp_subscriptions := n, lp_accepting := fs, lp_started := st\<rparr>) = answering l l'"
  by (simp_all add: answering_def)

lemma answering_accept_each:
  "accept_each resolved fs l = (kept, l', moved) \<Longrightarrow> answering l l'"
proof (induction resolved fs l arbitrary: kept l' moved rule: accept_each.induct)
  case (2 resolved f fs l)
  then show ?case
    by (auto split: option.splits prod.splits) (metis answering_responded)
qed simp

lemma answering_poll_accepting: "poll_accepting resolved l = (l', moved) \<Longrightarrow> answering l l'"
  by (auto simp: poll_accepting_def split: prod.splits dest: answering_accept_each)

lemma answering_drops: "answering l (answer_drops w l)"
proof (induction w l rule: answer_drops.induct)
  case (1 w l)
  then show ?case
    by (subst answer_drops.simps) (auto dest!: answering_responded)
qed

lemma answering_loop_call: "answering l (loop_call w req (l\<lparr>lp_last_busy := now\<rparr>))"
  by (auto simp: loop_call_def intro: answering_respond split: option.split callback.split)

lemma answering_data: "answering l (message_data w now b d l)"
  by (auto simp: message_data_def single_def malformed_def Let_def
      intro: answering_respond answering_loop_call split: option.split prod.split)

lemma answering_message: "message w now m l = (l', e) \<Longrightarrow> answering l l'"
  using answering_data [of "l\<lparr>lp_last_in := now\<rparr>" w now]
  by (cases m) (auto simp: message_def malformed_def Let_def answering_def respond_def split: if_splits)

lemma answering_read_turn:
  assumes "read_turn w now t reads l = (l', reads', moved, over)"
  shows "answering l l'"
proof -
  let ?l = "l\<lparr>lp_dropped := lp_dropped l + ti_dropped t\<rparr>"
  have d: "answering l (answer_drops w l1)" if "answering ?l l1" for l1
    using answering_trans [OF _ answering_drops] that by (auto simp: answering_def)
  show ?thesis
    using assms d [OF answering_message] d [of ?l] answering_message [of w now _ ?l]
    by (auto simp: read_turn_def Let_def answering_def split: if_splits ws_read.splits prod.splits option.splits)
qed

lemma answering_flow:
  assumes "answering l l'"
  shows "flow (streams l) [] (streams l')"
proof -
  from assms obtain more_out where out: "lp_out l' = lp_out l @ more_out" by (auto simp: answering_def)
  let ?added = "\<lambda>q. case q of From_answers \<Rightarrow> filter (\<lambda>m. m \<noteq> Out_ping) more_out
      | From_pings \<Rightarrow> filter (\<lambda>m. m = Out_ping) more_out | _ \<Rightarrow> []"
  have "\<forall>q. streams l q @ ?added q = of_origin q [] @ streams l' q"
    unfolding forall_origin using assms out by (simp add: answering_def)
  then show ?thesis unfolding flow_def by (intro exI [of _ "[]"] exI [of _ ?added]) simp
qed

lemma flow_refl: "flow s [] s"
  by (rule woven_flow [OF woven_refl])

lemma run_turns_flow:
  "run_turns w now ts reads l = (l', u, reads', ms) \<Longrightarrow>
   \<exists>rest. flow (streams l) ms rest \<and> (u = Slept \<or> u = Yielded \<longrightarrow> rest = streams l')"
proof (induction w now ts reads l arbitrary: l' u reads' ms rule: run_turns.induct)
  case (1 w now reads l)
  then show ?case using flow_refl by auto
next
  case (2 w now t ts reads l)
  obtain l1 m1 where p: "poll_accepting (ti_resolved t) l = (l1, m1)" by fastforce
  obtain l2 r2 m2 e where r: "read_turn w now t reads l1 = (l2, r2, m2, e)" by (metis prod_cases4)
  have "flow (streams l) [] (streams l2)"
    by (intro answering_flow answering_trans [OF answering_poll_accepting [OF p] answering_read_turn [OF r]])
  note f = flow_trans [OF this, simplified]
  show ?case
  proof (cases e)
    case (Some x)
    then have "ms = []" "u = Ended x" using "2.prems" p r by auto
    then show ?thesis using f [OF flow_refl] by auto
  next
    case None
    obtain res out where w: "poll_write (ti_ready t) (ti_sinks t) (ti_flush t) l2 = (res, out)" by fastforce
    obtain rest where rest: "woven (streams l2) out rest" "\<And>l' mv. res = Some (l', mv) \<Longrightarrow> rest = streams l'"
      using poll_write_woven [OF w] by blast
    note fw = f [OF woven_flow [OF rest(1)]]
    show ?thesis
    proof (cases "\<exists>l3 m3. res = Some (l3, m3) \<and> (m1 \<or> m2 \<or> m3) \<and> \<not> READ_BUDGET \<le> r2")
      case True
      then obtain l3 m3 where res: "res = Some (l3, m3)" "m1 \<or> m2 \<or> m3" "\<not> READ_BUDGET \<le> r2" by blast
      obtain l4 u4 r4 ms4 where next_turns: "run_turns w now ts r2 l3 = (l4, u4, r4, ms4)" by (metis prod_cases4)
      have eqs: "l' = l4" "u = u4" "ms = out @ ms4" using "2.prems" p r None w res next_turns by auto
      have "\<exists>rest4. flow (streams l3) ms4 rest4 \<and> (u4 = Slept \<or> u4 = Yielded \<longrightarrow> rest4 = streams l4)"
        using "2.IH" p r None w res next_turns by simp
      then obtain rest4 where "flow (streams l3) ms4 rest4" "u4 = Slept \<or> u4 = Yielded \<longrightarrow> rest4 = streams l4"
        by blast
      then show ?thesis using flow_trans [OF fw] rest(2) [OF res(1)] eqs by blast
    next
      case False
      have "ms = out \<and> (u = Slept \<or> u = Yielded \<longrightarrow> rest = streams l')"
      proof (cases res)
        case None
        with "2.prems" p r \<open>e = None\<close> w show ?thesis by auto
      next
        case (Some x)
        obtain l3 m3 where x: "x = (l3, m3)" by fastforce
        with False Some have "\<not> (m1 \<or> m2 \<or> m3) \<or> READ_BUDGET \<le> r2" by simp
        with "2.prems" p r \<open>e = None\<close> w Some x rest(2) show ?thesis by (auto split: if_splits)
      qed
      then show ?thesis using fw by blast
    qed
  qed
qed

lemma liveness_streams: "streams (fst (liveness now l)) = streams l"
  by (auto simp: liveness_def streams_eq_iff split: option.split)

lemma ping_flow: "flow (streams l) [] (streams (l\<lparr>lp_out := Out_ping # lp_out l\<rparr>))"
proof -
  let ?added = "\<lambda>q. if q = From_pings then [Out_ping] else []"
  have pings: "filter (\<lambda>m. m = Out_ping) ms @ [Out_ping] = Out_ping # filter (\<lambda>m. m = Out_ping) ms" for ms
    by (induction ms) auto
  have "\<forall>q. streams l q @ ?added q = of_origin q [] @ streams (l\<lparr>lp_out := Out_ping # lp_out l\<rparr>) q"
    unfolding forall_origin using pings by simp
  then show ?thesis unfolding flow_def by (intro exI [of _ "[]"] exI [of _ ?added]) simp
qed

lemma poll_run_flow:
  assumes "poll_run w k l = (l', u, reads, ms)"
  shows "\<exists>rest. flow (streams l) ms rest \<and> (u = Slept \<or> u = Yielded \<longrightarrow> rest = streams l')"
proof -
  obtain l1 e where lv: "(if wi_ticked k then liveness (wi_now k) l else (l, None)) = (l1, e)" by fastforce
  show ?thesis
  proof (cases "wi_stopping k \<or> wi_closing k \<or> (\<exists>x. e = Some x)")
    case True
    then have "ms = [] \<and> u \<noteq> Slept \<and> u \<noteq> Yielded" using assms lv by (auto simp: poll_run_def split: if_splits)
    then show ?thesis using flow_refl by blast
  next
    case False
    let ?l = "if wi_ping_due k then l1\<lparr>lp_out := Out_ping # lp_out l1\<rparr> else l1"
    have "streams l1 = streams l" using lv liveness_streams [of "wi_now k" l] by (auto split: if_splits)
    then have "flow (streams l) [] (streams ?l)" using ping_flow [of l1] flow_refl by auto
    moreover have "run_turns w (wi_now k) (wi_turns k) 0 ?l = (l', u, reads, ms)"
      using assms False lv by (simp add: poll_run_def)
    ultimately show ?thesis using run_turns_flow flow_trans [of "streams l" "[]"] by fastforce
  qed
qed

section \<open>The life of a socket\<close>

text \<open>
  A socket's loop, its hook and its connection, and what happened: the frames each queue was given,
  the frames that went out, and how often the hook was told of the end. \<open>sl_bound\<close> is the
  limits' \<open>queue\<close>, each queue's bound.
\<close>

record ('id, 'p, 'h) socket_life =
  sl_loop :: "('id, 'p) socket_loop"
  sl_bound :: nat
  sl_over :: bool
  sl_hook :: "'h connection_hook option"
  sl_hook_state :: 'h
  sl_conn :: connection
  sl_own_in :: "outbound list"
  sl_table_in :: "bytes list"
  sl_frames_in :: "(bool \<times> bytes) list"
  sl_out :: "out_message list"
  sl_told :: nat

definition life_new ::
  "socket_limits \<Rightarrow> nat \<Rightarrow> connection \<Rightarrow> 'h connection_hook option \<Rightarrow> 'h \<Rightarrow> ('id, 'p, 'h) socket_life"
where
  "life_new limits now conn hk h =
     \<lparr>sl_loop = loop_new limits now conn, sl_bound = queue limits, sl_over = False, sl_hook = hk,
      sl_hook_state = h, sl_conn = conn, sl_own_in = [], sl_table_in = [], sl_frames_in = [],
      sl_out = [], sl_told = 0\<rparr>"

text \<open>The queue this side's writers see, and what one of them puts on it.\<close>

definition own_queue :: "('id, 'p, 'h) socket_life \<Rightarrow> writer_queue" where
  "own_queue s = \<lparr>wq_frames = lp_own (sl_loop s), wq_bound = sl_bound s, wq_gone = sl_over s\<rparr>"

definition own_queued ::
  "outbound \<Rightarrow> writer_queue \<Rightarrow> bool \<Rightarrow> ('id, 'p, 'h) socket_life \<Rightarrow> ('id, 'p, 'h) socket_life" where
  "own_queued f q took_it s =
     s\<lparr>sl_loop := (sl_loop s)\<lparr>lp_own := wq_frames q\<rparr>,
       sl_own_in := (if took_it then sl_own_in s @ [f] else sl_own_in s)\<rparr>"

text \<open>
  A wakeup of the loop: the hook may have changed its state, and at the loop's end it is told,
  once, and the connection is over.
\<close>

definition life_wake ::
  "('id, 'p) outside \<Rightarrow> ('id, 'p) wake_input \<Rightarrow> 'h \<Rightarrow> ('id, 'p, 'h) socket_life \<Rightarrow> ('id, 'p, 'h) socket_life"
where
  "life_wake w k h s =
     (case poll_run w k (sl_loop s) of (l, u, _, ms) \<Rightarrow>
      case u of
        Ended e \<Rightarrow>
          (case run_end (sl_hook s) (h, sl_conn s) of (h', conn) \<Rightarrow>
             s\<lparr>sl_loop := l, sl_out := sl_out s @ ms, sl_over := True, sl_hook_state := h',
               sl_conn := conn, sl_told := sl_told s + (if sl_hook s = None then 0 else 1)\<rparr>)
      | _ \<Rightarrow> s\<lparr>sl_loop := l, sl_out := sl_out s @ ms, sl_hook_state := h\<rparr>)"

text \<open>
  Anything may come between two wakeups: a writer sends or tries to, the method table or a call
  puts a frame on its queue where there is room, a subscription or a call ends, the connection's
  count changes. The world may answer differently at each wakeup.
\<close>

inductive life_between :: "('id, 'p, 'h) socket_life \<Rightarrow> ('id, 'p, 'h) socket_life \<Rightarrow> bool" where
  life_send:
    "writer_send f (own_queue s) = (q, answer) \<Longrightarrow> life_between s (own_queued f q (answer = Some (Ok ())) s)"
| life_try_send:
    "writer_try_send f (own_queue s) = (q, result) \<Longrightarrow> life_between s (own_queued f q (result = Ok ()) s)"
| life_table:
    "\<not> sl_over s \<Longrightarrow> length (lp_table (sl_loop s)) < sl_bound s \<Longrightarrow>
     life_between s (s\<lparr>sl_loop := (sl_loop s)\<lparr>lp_table := lp_table (sl_loop s) @ [m]\<rparr>,
                     sl_table_in := sl_table_in s @ [m]\<rparr>)"
| life_frame:
    "\<not> sl_over s \<Longrightarrow> length (lp_frames (sl_loop s)) < sl_bound s \<Longrightarrow>
     life_between s (s\<lparr>sl_loop := (sl_loop s)\<lparr>lp_frames := lp_frames (sl_loop s) @ [f]\<rparr>,
                     sl_frames_in := sl_frames_in s @ [f]\<rparr>)"
| life_calls:
    "subs \<le> lp_subscriptions (sl_loop s) \<Longrightarrow> running \<le> lp_running (sl_loop s) \<Longrightarrow>
     life_between s (s\<lparr>sl_loop := (sl_loop s)\<lparr>lp_subscriptions := subs, lp_running := running, lp_calls := calls\<rparr>\<rparr>)"

text \<open>A step of a socket's life: what may come between two wakeups, or a wakeup of the loop.\<close>

inductive life_step :: "('id, 'p, 'h) socket_life \<Rightarrow> ('id, 'p, 'h) socket_life \<Rightarrow> bool" where
  life_goes_on: "life_between s s' \<Longrightarrow> life_step s s'"
| life_wakes: "\<not> sl_over s \<Longrightarrow> life_step s (life_wake w k h s)"

text \<open>What each queue was given, as it will be written.\<close>

fun given :: "('id, 'p, 'h) socket_life \<Rightarrow> origin \<Rightarrow> out_message list" where
  "given s From_own = map own (sl_own_in s)"
| "given s From_table = map Out_text (sl_table_in s)"
| "given s From_frames = map (Out_text \<circ> snd) (sl_frames_in s)"
| "given s From_answers = []"
| "given s From_pings = []"

abbreviation queues :: "origin set" where
  "queues \<equiv> {From_own, From_table, From_frames}"

definition in_order :: "('id, 'p, 'h) socket_life \<Rightarrow> bool" where
  "in_order s \<longleftrightarrow>
     (\<exists>tr rest. map snd tr = sl_out s \<and>
        (\<forall>q \<in> queues. given s q = of_origin q tr @ rest q \<and> (\<not> sl_over s \<longrightarrow> rest q = streams (sl_loop s) q)))"

definition bounded_queues :: "('id, 'p, 'h) socket_life \<Rightarrow> bool" where
  "bounded_queues s \<longleftrightarrow> sl_over s \<or>
     (length (streams (sl_loop s) From_own) \<le> sl_bound s \<and> length (streams (sl_loop s) From_table) \<le> sl_bound s \<and>
      length (streams (sl_loop s) From_frames) \<le> sl_bound s + 1)"

definition told_once :: "('id, 'p, 'h) socket_life \<Rightarrow> bool" where
  "told_once s \<longleftrightarrow>
     sl_told s = (if sl_over s \<and> sl_hook s \<noteq> None then 1 else 0) \<and> (sl_over s \<longrightarrow> is_closed (sl_conn s))"

definition life_ok :: "('id, 'p, 'h) socket_life \<Rightarrow> bool" where
  "life_ok s \<longleftrightarrow> in_order s \<and> bounded_queues s \<and> told_once s"

lemma in_order_given:
  assumes "in_order s" and "sl_out s' = sl_out s" and "sl_over s' = sl_over s"
    and "\<And>q. q \<in> queues \<Longrightarrow> \<exists>new. given s' q = given s q @ new q \<and>
           (\<not> sl_over s \<longrightarrow> streams (sl_loop s') q = streams (sl_loop s) q @ new q)"
  shows "in_order s'"
proof -
  from assms(1) obtain tr rest where tr: "map snd tr = sl_out s"
      "\<And>q. q \<in> queues \<Longrightarrow> given s q = of_origin q tr @ rest q \<and> (\<not> sl_over s \<longrightarrow> rest q = streams (sl_loop s) q)"
    unfolding in_order_def by metis
  from assms(4) obtain new where new: "\<And>q. q \<in> queues \<Longrightarrow> given s' q = given s q @ new q q \<and>
           (\<not> sl_over s \<longrightarrow> streams (sl_loop s') q = streams (sl_loop s) q @ new q q)" by metis
  show ?thesis
    unfolding in_order_def using tr new assms(2,3)
    by (intro exI [of _ tr] exI [of _ "\<lambda>q. rest q @ new q q"]) simp
qed

lemma life_wake_fields:
  assumes "poll_run w k (sl_loop s) = (l, u, reads, ms)"
  shows "sl_loop (life_wake w k h s) = l" "sl_out (life_wake w k h s) = sl_out s @ ms"
    "sl_over (life_wake w k h s) \<longleftrightarrow> sl_over s \<or> (\<exists>e. u = Ended e)"
    "sl_bound (life_wake w k h s) = sl_bound s" "sl_hook (life_wake w k h s) = sl_hook s"
    "given (life_wake w k h s) q = given s q"
    "sl_told (life_wake w k h s) = sl_told s + (if (\<exists>e. u = Ended e) \<and> sl_hook s \<noteq> None then 1 else 0)"
    "(\<exists>e. u = Ended e) \<Longrightarrow> is_closed (sl_conn (life_wake w k h s))"
  using assms
  by (cases q; cases u; simp add: life_wake_def run_end_def run_over_def ended_def is_closed_def)+

lemma life_wake_ok:
  assumes "life_ok s" and awake: "\<not> sl_over s"
  shows "life_ok (life_wake w k h s)"
proof -
  obtain l u reads ms where run: "poll_run w k (sl_loop s) = (l, u, reads, ms)" by (metis prod_cases4)
  note fields = life_wake_fields [OF run, of h]
  from poll_run_flow [OF run] obtain tr added rest where fl: "map snd tr = ms"
      "\<And>q. q \<in> queues \<Longrightarrow> streams (sl_loop s) q = of_origin q tr @ rest q"
      "\<not> (\<exists>e. u = Ended e) \<Longrightarrow> rest = streams l"
    unfolding flow_def by (metis append_Nil2 wakeup.exhaust)
  from assms obtain tr0 where tr0: "map snd tr0 = sl_out s"
      "\<And>q. q \<in> queues \<Longrightarrow> given s q = of_origin q tr0 @ streams (sl_loop s) q"
    unfolding life_ok_def in_order_def by metis
  have "in_order (life_wake w k h s)"
    unfolding in_order_def fields using tr0 fl awake
    by (intro exI [of _ "tr0 @ tr"] exI [of _ rest]) simp
  moreover have "length (streams l q) \<le> length (streams (sl_loop s) q)"
    if "q \<in> queues" "\<not> (\<exists>e. u = Ended e)" for q
    using fl(2) [OF that(1)] fl(3) [OF that(2)] by simp
  then have "bounded_queues (life_wake w k h s)"
    using assms unfolding life_ok_def bounded_queues_def fields by (meson insertI1 insertI2 le_trans)
  moreover have "told_once (life_wake w k h s)"
    using assms fields(8) unfolding life_ok_def told_once_def fields by simp
  ultimately show ?thesis by (simp add: life_ok_def)
qed

lemma life_between_ok:
  assumes "life_between s s'" and "life_ok s"
  shows "life_ok s'"
  using assms
proof cases
  case (life_send f q answer)
  have "in_order s'"
    using assms(2) unfolding life_ok_def
    by (rule in_order_given [OF conjunct1])
      (use life_send in \<open>auto simp: own_queued_def own_queue_def writer_send_def split: if_splits\<close>)
  moreover have "bounded_queues s'"
    using assms(2) life_send
    by (auto simp: life_ok_def bounded_queues_def own_queued_def own_queue_def writer_send_def split: if_splits)
  ultimately show ?thesis
    using assms(2) life_send by (simp add: life_ok_def told_once_def own_queued_def)
next
  case (life_try_send f q result)
  have "in_order s'"
    using assms(2) unfolding life_ok_def
    by (rule in_order_given [OF conjunct1])
      (use life_try_send in \<open>auto simp: own_queued_def own_queue_def writer_try_send_def split: if_splits\<close>)
  moreover have "bounded_queues s'"
    using assms(2) life_try_send
    by (auto simp: life_ok_def bounded_queues_def own_queued_def own_queue_def writer_try_send_def split: if_splits)
  ultimately show ?thesis
    using assms(2) life_try_send by (simp add: life_ok_def told_once_def own_queued_def)
next
  case (life_table m)
  have "in_order s'"
    using assms(2) unfolding life_ok_def
    by (rule in_order_given [OF conjunct1]) (use life_table in auto)
  then show ?thesis
    using assms(2) life_table by (simp add: life_ok_def told_once_def bounded_queues_def)
next
  case (life_frame f)
  have "in_order s'"
    using assms(2) unfolding life_ok_def
    by (rule in_order_given [OF conjunct1]) (use life_frame in auto)
  then show ?thesis
    using assms(2) life_frame
    by (simp add: life_ok_def told_once_def bounded_queues_def split: option.splits)
next
  case (life_calls subs running calls)
  have "in_order s'"
    using assms(2) unfolding life_ok_def
    by (rule in_order_given [OF conjunct1]) (use life_calls in auto)
  then show ?thesis
    using assms(2) life_calls by (simp add: life_ok_def told_once_def bounded_queues_def)
qed

lemma life_step_ok: "life_step s s' \<Longrightarrow> life_ok s \<Longrightarrow> life_ok s'"
  by (auto elim!: life_step.cases intro: life_between_ok life_wake_ok)

lemma life_between_keeps:
  "life_between s s' \<Longrightarrow>
   sl_bound s' = sl_bound s \<and> sl_hook s' = sl_hook s \<and> sl_over s' = sl_over s \<and>
   lp_last_in (sl_loop s') = lp_last_in (sl_loop s) \<and> lp_last_busy (sl_loop s') = lp_last_busy (sl_loop s) \<and>
   lp_ping_timeout (sl_loop s') = lp_ping_timeout (sl_loop s) \<and> lp_idle (sl_loop s') = lp_idle (sl_loop s)"
  by (induction rule: life_between.induct) (auto simp: own_queued_def)

lemma life_step_keeps:
  "life_step s s' \<Longrightarrow> sl_bound s' = sl_bound s \<and> sl_hook s' = sl_hook s"
  by (auto elim!: life_step.cases simp: life_between_keeps life_wake_def split: prod.split wakeup.split)

lemma life_new_ok: "life_ok (life_new limits now conn hk h)"
proof -
  let ?s = "life_new limits now conn hk h"
  have "given ?s q = of_origin q [] @ streams (sl_loop ?s) q" if "q \<in> queues" for q
    using that by (auto simp: life_new_def loop_new_def)
  then have "in_order ?s"
    unfolding in_order_def
    by (intro exI [of _ "[]"] exI [of _ "streams (sl_loop ?s)"]) (simp add: life_new_def loop_new_def)
  then show ?thesis by (simp add: life_ok_def bounded_queues_def told_once_def life_new_def loop_new_def)
qed

lemma life_reachable:
  assumes "life_step\<^sup>*\<^sup>* (life_new limits now conn hk h) s"
  shows "life_ok s \<and> sl_bound s = queue limits \<and> sl_hook s = hk"
  using assms
proof (induction rule: rtranclp_induct)
  case base
  show ?case using life_new_ok [of limits now conn hk h] by (simp add: life_new_def)
next
  case (step s s')
  then show ?case using life_step_ok life_step_keeps by metis
qed

section \<open>Properties\<close>


definition one_sent :: "(nat, nat, unit) socket_life" where
  "one_sent =
     (let s = life_new default_limits 0
        \<lparr>cn_peer = \<lparr>sa_ip = localhost, sa_port = 9\<rparr>, cn_id = 5, cn_closed = False, cn_calls = calls_new 4,
         cn_upgraded = None, cn_pending = None, cn_tls = False\<rparr> None ()
      in own_queued (Own_text [7]) \<lparr>wq_frames = [Own_text [7]], wq_bound = 1024, wq_gone = False\<rparr> True s)"

definition writing_wake :: "(nat, nat) wake_input" where
  "writing_wake = sample_wake\<lparr>wi_turns := [(idle_turn 0)\<lparr>ti_sinks := [Takes, Takes]\<rparr>]\<rparr>"

lemma writing_wake_writes: "sl_out (life_wake quiet_world writing_wake () one_sent) = [Out_text [7]]"
  by (simp add: one_sent_def writing_wake_def life_wake_def own_queued_def life_new_def loop_new_def
      poll_run_def sample_wake_def liveness_def idle_turn_def read_turn_def poll_write_def next_out_def
      poll_accepting_def default_limits_def READ_BUDGET_def OUT_HIGH_def answer_drops.simps
      poll_queue_def TURNS_def)

lemma one_sent_reachable:
  "life_step\<^sup>*\<^sup>*
     (life_new default_limits 0
        \<lparr>cn_peer = \<lparr>sa_ip = localhost, sa_port = 9\<rparr>, cn_id = 5, cn_closed = False, cn_calls = calls_new 4,
         cn_upgraded = None, cn_pending = None, cn_tls = False\<rparr> None ())
     (life_wake quiet_world writing_wake () one_sent)"
proof -
  let ?conn = "\<lparr>cn_peer = \<lparr>sa_ip = localhost, sa_port = 9\<rparr>, cn_id = 5, cn_closed = False, cn_calls = calls_new 4,
         cn_upgraded = None, cn_pending = None, cn_tls = False\<rparr> :: connection"
  let ?s0 = "life_new default_limits 0 ?conn None () :: (nat, nat, unit) socket_life"
  have "life_step ?s0 one_sent"
    using life_goes_on [OF life_try_send [of "Own_text [7]" ?s0 "\<lparr>wq_frames = [Own_text [7]], wq_bound = 1024, wq_gone = False\<rparr>" "Ok ()"]]
    by (simp add: one_sent_def own_queue_def writer_try_send_def life_new_def loop_new_def default_limits_def)
  moreover have "life_step one_sent (life_wake quiet_world writing_wake () one_sent)"
    by (rule life_wakes) (simp add: one_sent_def own_queued_def life_new_def)
  ultimately show ?thesis by auto
qed


end
