(* ===== verification/Socket_Typing.thy ===== *)
theory Socket_Typing
  imports Socket_Life
begin

text \<open>
  What the loop of ws/conn.rs keeps of its own state, from its start to its end: the ranges of its
  counters, what it was set up with, that bytes count as gathered only until a flush, and which
  messages it can hold. Every operation of the loop is shown to keep them, then every step of a
  socket's life.
\<close>

text \<open>
  A message the loop may write, where the writers have sent \<open>B\<close>: a ping, a text message, or a
  binary message that one of them sent.
\<close>

fun writable :: "outbound set \<Rightarrow> out_message \<Rightarrow> bool" where
  "writable B (Out_text _) \<longleftrightarrow> True"
| "writable B Out_ping \<longleftrightarrow> True"
| "writable B (Out_binary b) \<longleftrightarrow> Own_binary b \<in> B"

definition well_typed :: "socket_limits \<Rightarrow> outbound set \<Rightarrow> ('id, 'p) socket_loop \<Rightarrow> bool" where
  "well_typed limits B l \<longleftrightarrow>
     lp_subscriptions l \<le> MAX_SUBSCRIPTIONS \<and> lp_turn l < length TURNS \<and>
     lp_answered_drops l \<le> lp_dropped l \<and> (\<not> lp_unflushed l \<longrightarrow> lp_gathered l = 0) \<and>
     lp_budget l = write_budget limits \<and> lp_max_message l = max_message_size limits \<and>
     lp_ping_timeout l = map_option (\<lambda>_. ping_timeout limits) (ping_interval limits) \<and>
     lp_idle l = idle_timeout limits \<and> set (lp_own l) \<subseteq> B \<and> (\<forall>m \<in> set (lp_out l). writable B m)"

lemma length_TURNS [simp]: "length TURNS = 3"
  by (simp add: TURNS_def)

lemma writable_own: "f \<in> B \<Longrightarrow> writable B (own f)"
  by (cases f) auto

lemma well_typed_mono: "well_typed limits B l \<Longrightarrow> B \<subseteq> B' \<Longrightarrow> well_typed limits B' l"
proof -
  assume "B \<subseteq> B'"
  then have "writable B m \<Longrightarrow> writable B' m" for m by (cases m) auto
  then show "well_typed limits B l \<Longrightarrow> well_typed limits B' l"
    using \<open>B \<subseteq> B'\<close> by (auto simp: well_typed_def)
qed

subsection \<open>The reading half\<close>

lemma respond_typed: "well_typed limits B l \<Longrightarrow> well_typed limits B (respond rp l)"
  by (auto simp: well_typed_def respond_def)

lemma well_typed_fields [simp]:
  "well_typed limits B (l\<lparr>lp_last_in := t\<rparr>) = well_typed limits B l"
  "well_typed limits B (l\<lparr>lp_last_busy := t\<rparr>) = well_typed limits B l"
  "well_typed limits B (l\<lparr>lp_accepting := fs\<rparr>) = well_typed limits B l"
  "well_typed limits B (l\<lparr>lp_running := n, lp_started := st\<rparr>) = well_typed limits B l"
  "well_typed limits B (l\<lparr>lp_last_busy := t, lp_running := n, lp_started := st\<rparr>) = well_typed limits B l"
  "well_typed limits B (l\<lparr>lp_table := tb\<rparr>) = well_typed limits B l"
  "well_typed limits B (l\<lparr>lp_frames := fr\<rparr>) = well_typed limits B l"
  "well_typed limits B (l\<lparr>lp_fenced := fe\<rparr>) = well_typed limits B l"
  "well_typed limits B (l\<lparr>lp_frames := fr, lp_fenced := fe\<rparr>) = well_typed limits B l"
  "well_typed limits B (l\<lparr>lp_own_open := b\<rparr>) = well_typed limits B l"
  by (simp_all add: well_typed_def)

lemma accept_each_typed:
  "accept_each resolved fs l = (kept, l', moved) \<Longrightarrow> well_typed limits B l \<Longrightarrow> well_typed limits B l'"
  by (induction resolved fs l arbitrary: kept l' moved rule: accept_each.induct)
    (auto split: option.splits prod.splits simp: respond_typed)

lemma poll_accepting_typed:
  "poll_accepting resolved l = (l', moved) \<Longrightarrow> well_typed limits B l \<Longrightarrow> well_typed limits B l'"
  by (auto simp: poll_accepting_def split: prod.splits dest: accept_each_typed)

lemma answer_drops_typed: "well_typed limits B l \<Longrightarrow> well_typed limits B (answer_drops w l)"
proof (induction w l rule: answer_drops.induct)
  case (1 w l)
  show ?case
  proof (cases "lp_answered_drops l < lp_dropped l")
    case True
    with 1(2) have "well_typed limits B (l\<lparr>lp_answered_drops := lp_answered_drops l + 1\<rparr>)"
      by (simp add: well_typed_def)
    with 1(1) [OF True] True show ?thesis by (subst answer_drops.simps) (simp add: respond_typed)
  next
    case False
    with 1(2) show ?thesis by (subst answer_drops.simps) simp
  qed
qed

lemma loop_call_typed: "well_typed limits B l \<Longrightarrow> well_typed limits B (loop_call w req l)"
  by (auto simp: loop_call_def respond_typed split: option.split callback.split)
    (simp add: well_typed_def)

lemma message_data_typed: "well_typed limits B l \<Longrightarrow> well_typed limits B (message_data w now b d l)"
  by (auto simp: message_data_def single_def malformed_def Let_def respond_typed loop_call_typed
      split: option.split prod.split)

lemma message_typed:
  "message w now m l = (l', e) \<Longrightarrow> well_typed limits B l \<Longrightarrow> well_typed limits B l'"
  by (cases m)
    (auto simp: message_def malformed_def Let_def respond_typed message_data_typed split: if_splits)

lemma read_turn_typed:
  assumes "read_turn w now t reads l = (l', reads', moved, over)" and "well_typed limits B l"
  shows "well_typed limits B l'"
proof -
  have "well_typed limits B (l\<lparr>lp_dropped := lp_dropped l + ti_dropped t\<rparr>)"
    using assms(2) by (simp add: well_typed_def)
  then show ?thesis
    using assms
    by (auto simp: read_turn_def Let_def answer_drops_typed
        split: if_splits ws_read.splits prod.splits option.splits dest: message_typed)
qed

lemma liveness_typed: "well_typed limits B l \<Longrightarrow> well_typed limits B (fst (liveness now l))"
  by (auto simp: liveness_def split: option.split)

subsection \<open>The writing half\<close>

lemma poll_queue_typed:
  assumes "poll_queue ready q l = (l', p)" and "lp_fenced l = None" and "well_typed limits B l"
  shows "well_typed limits B l' \<and> (\<forall>m. p = Frame_out m \<longrightarrow> writable B m)"
  using poll_queue_cases [OF assms(1,2)] assms(3)
  by (elim disjE exE conjE) (auto simp: writable_own well_typed_def)

lemma past_fence_typed:
  "past_fence l b = (l', m) \<Longrightarrow> well_typed limits B l \<Longrightarrow> well_typed limits B l' \<and> writable B m"
  by (auto simp: past_fence_def split: list.splits)

lemma turned_typed: "well_typed limits B l \<Longrightarrow> well_typed limits B (l\<lparr>lp_turn := n mod 3\<rparr>)"
  by (simp add: well_typed_def)

lemma take_turns_typed:
  "take_turns ready is l = (l', p) \<Longrightarrow> lp_fenced l = None \<Longrightarrow> lp_out l = [] \<Longrightarrow> well_typed limits B l \<Longrightarrow>
   well_typed limits B l' \<and> (\<forall>m. p = Some m \<longrightarrow> writable B m)"
proof (induction ready "is" l arbitrary: l' p rule: take_turns.induct)
  case (2 ready i "is" l)
  obtain l1 q where pq: "poll_queue ready (TURNS ! ((lp_turn l + i) mod 3)) l = (l1, q)" by fastforce
  note ty = poll_queue_typed [OF pq "2.prems"(2,4)] and k = poll_queue_streams [OF pq "2.prems"(2)]
  show ?case
  proof (cases q)
    case Nothing
    then show ?thesis using 2 pq ty k by auto
  next
    case (Frame_out m)
    then show ?thesis using "2.prems"(1) pq ty turned_typed by auto
  next
    case Fence_raised
    then obtain b where b: "lp_fenced l1 = Some b" "lp_out l1 = []" using k "2.prems"(3) by auto
    let ?l1 = "l1\<lparr>lp_turn := (lp_turn l + i + 1) mod 3\<rparr>"
    obtain l2 m where pf: "past_fence ?l1 b = (l2, m)" by fastforce
    have "well_typed limits B ?l1" using ty turned_typed by blast
    from past_fence_typed [OF pf this] show ?thesis
      using "2.prems"(1) pq Fence_raised b pf by auto
  qed
qed simp

lemma next_out_typed:
  assumes "next_out ready l = (l', p)" and "well_typed limits B l"
  shows "well_typed limits B l' \<and> (\<forall>m. p = Some m \<longrightarrow> writable B m)"
proof (cases "lp_out l")
  case (Cons m ms)
  then show ?thesis using assms by (auto simp: next_out_def well_typed_def)
next
  case Nil
  show ?thesis
  proof (cases "lp_fenced l")
    case None
    then show ?thesis
      using assms Nil take_turns_typed by (simp add: next_out_def del: take_turns.simps)
  next
    case (Some b)
    obtain l2 m where pf: "past_fence l b = (l2, m)" by fastforce
    from past_fence_typed [OF pf assms(2)] show ?thesis using assms(1) Nil Some pf by (auto simp: next_out_def)
  qed
qed

lemma write_frames_typed:
  "write_frames ready ss l = (res, ms) \<Longrightarrow> well_typed limits B l \<Longrightarrow>
   (\<forall>m \<in> set ms. writable B m) \<and> (\<forall>l' moved. res = Some (l', moved) \<longrightarrow> well_typed limits B l')"
proof (induction ready ss l arbitrary: res ms rule: write_frames.induct)
  case (2 ready s ss l)
  obtain l1 p where n: "next_out ready l = (l1, p)" by fastforce
  note ty = next_out_typed [OF n "2.prems"(2)]
  show ?case
  proof (cases "lp_budget l \<le> lp_gathered l \<or> s = Sink_failed \<or> s = Not_ready \<or> s = Send_fails \<or> p = None")
    case True
    then show ?thesis using "2.prems" n ty by (auto split: if_splits sink.splits option.splits)
  next
    case False
    then obtain m where m: "p = Some m" "s = Takes" by (cases s) auto
    let ?l = "l1\<lparr>lp_gathered := lp_gathered l1 + out_len m, lp_unflushed := True\<rparr>"
    have l: "well_typed limits B ?l" using ty by (simp add: well_typed_def)
    obtain res1 out where w: "write_frames ready ss ?l = (res1, out)" by fastforce
    have "(\<forall>m \<in> set out. writable B m) \<and> (\<forall>l' moved. res1 = Some (l', moved) \<longrightarrow> well_typed limits B l')"
      using "2.IH" n m False w l by simp
    moreover have "ms = m # out" "\<forall>l' moved. res = Some (l', moved) \<longrightarrow> (\<exists>mv. res1 = Some (l', mv))"
      using "2.prems" n m False w by (auto split: option.splits)
    ultimately show ?thesis using ty m by auto
  qed
qed auto

lemma poll_write_typed:
  assumes "poll_write ready ss fl l = (res, ms)" and "well_typed limits B l"
  shows "(\<forall>m \<in> set ms. writable B m) \<and> (\<forall>l' moved. res = Some (l', moved) \<longrightarrow> well_typed limits B l')"
proof -
  obtain res1 ms1 where w: "write_frames ready ss l = (res1, ms1)" by fastforce
  from write_frames_typed [OF w assms(2)] assms(1) w show ?thesis
    by (auto simp: poll_write_def well_typed_def split: option.splits if_splits flush.splits)
qed

subsection \<open>A wakeup, and a life\<close>

lemma run_turns_typed:
  "run_turns w now ts reads l = (l', u, reads', ms) \<Longrightarrow> well_typed limits B l \<Longrightarrow>
   well_typed limits B l' \<and> (\<forall>m \<in> set ms. writable B m)"
proof (induction w now ts reads l arbitrary: l' u reads' ms rule: run_turns.induct)
  case (2 w now t ts reads l)
  obtain l1 m1 where p: "poll_accepting (ti_resolved t) l = (l1, m1)" by fastforce
  obtain l2 r2 m2 e where r: "read_turn w now t reads l1 = (l2, r2, m2, e)" by (metis prod_cases4)
  have l2: "well_typed limits B l2"
    using read_turn_typed [OF r] poll_accepting_typed [OF p] "2.prems"(2) by blast
  show ?case
  proof (cases e)
    case (Some x)
    then show ?thesis using "2.prems"(1) p r l2 by auto
  next
    case None
    obtain res out where w: "poll_write (ti_ready t) (ti_sinks t) (ti_flush t) l2 = (res, out)" by fastforce
    note ty = poll_write_typed [OF w l2]
    show ?thesis
    proof (cases res)
      case none: None
      then show ?thesis using "2.prems"(1) p r None w l2 ty by auto
    next
      case (Some x)
      obtain l3 m3 where x: "x = (l3, m3)" by fastforce
      with ty Some have l3: "well_typed limits B l3" by simp
      show ?thesis
      proof (cases "(m1 \<or> m2 \<or> m3) \<and> \<not> READ_BUDGET \<le> r2")
        case True
        obtain l4 u4 r4 ms4 where rest: "run_turns w now ts r2 l3 = (l4, u4, r4, ms4)" by (metis prod_cases4)
        have "well_typed limits B l4 \<and> (\<forall>m \<in> set ms4. writable B m)"
          using "2.IH" p r None w Some x True rest l3 by simp
        moreover have "l' = l4" "ms = out @ ms4" using "2.prems"(1) p r None w Some x True rest by auto
        ultimately show ?thesis using ty by auto
      next
        case False
        then show ?thesis using "2.prems"(1) p r None w Some x ty l3 by (auto split: if_splits)
      qed
    qed
  qed
qed auto

lemma poll_run_typed:
  assumes "poll_run w k l = (l', u, reads, ms)" and "well_typed limits B l"
  shows "well_typed limits B l' \<and> (\<forall>m \<in> set ms. writable B m)"
proof -
  obtain l1 e where lv: "(if wi_ticked k then liveness (wi_now k) l else (l, None)) = (l1, e)" by fastforce
  then have l1: "well_typed limits B l1"
    using liveness_typed [OF assms(2), of "wi_now k"] assms(2) by (auto split: if_splits)
  let ?l = "if wi_ping_due k then l1\<lparr>lp_out := Out_ping # lp_out l1\<rparr> else l1"
  have "well_typed limits B ?l" using l1 by (auto simp: well_typed_def)
  note ty = run_turns_typed [OF _ this]
  show ?thesis
    using assms lv l1 ty
    by (auto simp: poll_run_def split: if_splits option.splits)
qed

definition life_typed :: "socket_limits \<Rightarrow> ('id, 'p, 'h) socket_life \<Rightarrow> bool" where
  "life_typed limits s \<longleftrightarrow>
     well_typed limits (set (sl_own_in s)) (sl_loop s) \<and>
     (\<not> sl_over s \<longrightarrow> all_drops_answered (sl_loop s)) \<and>
     (\<forall>m \<in> set (sl_out s). writable (set (sl_own_in s)) m)"

lemma life_typed_new: "life_typed limits (life_new limits now conn hk h)"
  by (simp add: life_typed_def life_new_def loop_new_def well_typed_def all_drops_answered_def)

lemma own_queued_typed:
  assumes "life_typed limits s" and "wq_frames q = lp_own (sl_loop s) @ (if took_it then [f] else [])"
  shows "life_typed limits (own_queued f q took_it s)"
proof -
  let ?B = "set (sl_own_in (own_queued f q took_it s))"
  have sub: "set (sl_own_in s) \<subseteq> ?B" by (auto simp: own_queued_def)
  have "well_typed limits (set (sl_own_in s)) (sl_loop s)" using assms(1) by (simp add: life_typed_def)
  from well_typed_mono [OF this sub] have "well_typed limits ?B (sl_loop s)" .
  then have "well_typed limits ?B (sl_loop (own_queued f q took_it s))"
    using assms(2) by (auto simp: well_typed_def own_queued_def)
  moreover have "writable (set (sl_own_in s)) m \<Longrightarrow> writable ?B m" for m using sub by (cases m) auto
  ultimately show ?thesis
    using assms(1) by (auto simp: life_typed_def own_queued_def all_drops_answered_def)
qed

lemma life_wake_typed:
  assumes "life_typed limits s"
  shows "life_typed limits (life_wake w k h s)"
proof -
  obtain l u reads ms where run: "poll_run w k (sl_loop s) = (l, u, reads, ms)" by (metis prod_cases4)
  have same: "sl_own_in (life_wake w k h s) = sl_own_in s"
    by (simp add: life_wake_def split: prod.split wakeup.split)
  have "all_drops_answered l" if "\<not> sl_over s" "\<nexists>e. u = Ended e"
  proof -
    from that have "u = Slept \<or> u = Yielded" by (cases u) auto
    then show ?thesis using poll_run_drops [OF run] assms that(1) by (simp add: life_typed_def)
  qed
  then show ?thesis
    using assms poll_run_typed [OF run, of limits "set (sl_own_in s)"]
    unfolding life_typed_def same life_wake_fields [OF run] by auto
qed

lemma life_between_typed: "life_between s s' \<Longrightarrow> life_typed limits s \<Longrightarrow> life_typed limits s'"
proof (induction rule: life_between.induct)
  case (life_send f s q answer)
  then show ?case
    by (intro own_queued_typed) (auto simp: writer_send_def own_queue_def split: if_splits)
next
  case (life_try_send f s q result)
  then show ?case
    by (intro own_queued_typed) (auto simp: writer_try_send_def own_queue_def split: if_splits)
next
  case (life_calls subs s running calls)
  then show ?case by (auto simp: life_typed_def well_typed_def all_drops_answered_def)
qed (auto simp: life_typed_def all_drops_answered_def)

lemma life_step_typed: "life_step s s' \<Longrightarrow> life_typed limits s \<Longrightarrow> life_typed limits s'"
  by (auto elim!: life_step.cases intro: life_between_typed life_wake_typed)

section \<open>The property\<close>



end
