(* ===== verification/Socket_Clock.thy ===== *)
theory Socket_Clock
  imports Socket_Life
begin

text \<open>
  The clock beside a socket's life (ws/conn.rs): when its peer was last heard, when its loop last
  ticked, and when it last had something to do. A tick is the loop's own interval, so a wakeup
  that finds it not ready comes before it is due; everything else may come whenever it does. What
  follows bounds how long a socket outlives a peer that has gone silent, or its last call.
\<close>

definition tick_period :: "socket_limits \<Rightarrow> nat option" where
  "tick_period limits =
     tick_every (map_option (\<lambda>_. ping_timeout limits) (ping_interval limits)) (idle_timeout limits)"

text \<open>A message the loop dispatches as a request, or as a batch of them.\<close>

definition data_asks :: "('id, 'p) outside \<Rightarrow> bytes \<Rightarrow> bool" where
  "data_asks w data \<longleftrightarrow>
     (case first_byte data of
        None \<Rightarrow> False
      | Some (i, b) \<Rightarrow> b = 0x5b \<or> b = 0x7b \<and> os_request w (drop i data) \<noteq> None)"

definition offers_request :: "('id, 'p) outside \<Rightarrow> ('id, 'p) turn_input \<Rightarrow> bool" where
  "offers_request w t \<longleftrightarrow>
     (case ti_read t of
        Got (Text_msg data) \<Rightarrow> data_asks w data
      | Got (Binary_msg data) \<Rightarrow> data_asks w data
      | _ \<Rightarrow> False)"

text \<open>
  The times, each of the wakeup that was the last to tick, to read a message, to tick with a call
  open, and to be offered a request or to tick with a call open; whether a call was open at the last wakeup,
  and how the socket ended.
\<close>

record socket_clock =
  ck_now :: nat
  ck_tick :: nat
  ck_heard :: nat
  ck_busy :: nat
  ck_active :: nat
  ck_open :: bool
  ck_end :: "ws_end option"

definition clock_new :: "nat \<Rightarrow> socket_clock" where
  "clock_new now =
     \<lparr>ck_now = now, ck_tick = now, ck_heard = now, ck_busy = now, ck_active = now, ck_open = False, ck_end = None\<rparr>"

definition clock_wake ::
  "('id, 'p) outside \<Rightarrow> ('id, 'p) wake_input \<Rightarrow> ('id, 'p) socket_loop \<Rightarrow> wakeup \<Rightarrow> nat \<Rightarrow>
   socket_clock \<Rightarrow> socket_clock"
where
  "clock_wake w k l u reads c =
     (let now = wi_now k; found_busy = (wi_ticked k \<and> busy l) in
      \<lparr>ck_now = now, ck_tick = (if wi_ticked k then now else ck_tick c),
       ck_heard = (if 0 < reads then now else ck_heard c),
       ck_busy = (if found_busy then now else ck_busy c),
       ck_active = (if found_busy \<or> list_ex (offers_request w) (wi_turns k) then now else ck_active c),
       ck_open = busy l, ck_end = (case u of Ended e \<Rightarrow> Some e | _ \<Rightarrow> None)\<rparr>)"

inductive clocked ::
  "socket_limits \<Rightarrow> ('id, 'p, 'h) socket_life \<times> socket_clock \<Rightarrow> ('id, 'p, 'h) socket_life \<times> socket_clock \<Rightarrow> bool"
  for limits :: socket_limits
where
  clock_goes_on: "life_between s s' \<Longrightarrow> clocked limits (s, c) (s', c)"
| clock_wakes:
    "\<not> sl_over s \<Longrightarrow> ck_now c \<le> wi_now k \<Longrightarrow>
     wi_ticked k \<or> (\<forall>p. tick_period limits = Some p \<longrightarrow> 1000 * wi_now k < 1000 * ck_tick c + p) \<Longrightarrow>
     poll_run w k (sl_loop s) = (l, u, reads, ms) \<Longrightarrow>
     clocked limits (s, c) (life_wake w k h s, clock_wake w k (sl_loop s) u reads c)"

section \<open>What a wakeup does to the loop's times\<close>

text \<open>
  \<open>times b now l l'\<close>: the limits are the same, a request may have been read now where \<open>b\<close>
  says one was offered, and nothing else changed but when the peer was heard.
\<close>

definition times :: "bool \<Rightarrow> nat \<Rightarrow> ('id, 'p) socket_loop \<Rightarrow> ('id, 'p) socket_loop \<Rightarrow> bool" where
  "times b now l l' \<longleftrightarrow>
     lp_ping_timeout l' = lp_ping_timeout l \<and> lp_idle l' = lp_idle l \<and>
     (lp_last_busy l' = lp_last_busy l \<or> b \<and> lp_last_busy l' = now)"

abbreviation untimed :: "('id, 'p) socket_loop \<Rightarrow> ('id, 'p) socket_loop \<Rightarrow> bool" where
  "untimed l l' \<equiv> times False 0 l l' \<and> lp_last_in l' = lp_last_in l"

lemma times_trans: "times b now l l1 \<Longrightarrow> times b' now l1 l2 \<Longrightarrow> times (b \<or> b') now l l2"
  by (auto simp: times_def)

lemma untimed_times: "times False 0 l l' \<Longrightarrow> times b now l l'"
  by (simp add: times_def)

lemma respond_untimed: "untimed l (respond rp l)"
  by (simp add: times_def respond_def)

lemma accept_each_untimed: "accept_each resolved fs l = (kept, l', moved) \<Longrightarrow> untimed l l'"
  by (induction resolved fs l arbitrary: kept l' moved rule: accept_each.induct)
    (auto simp: times_def respond_def split: option.splits prod.splits)

lemma poll_accepting_untimed: "poll_accepting resolved l = (l', moved) \<Longrightarrow> untimed l l'"
  by (auto simp: poll_accepting_def times_def split: prod.splits dest!: accept_each_untimed)

lemma answer_drops_untimed: "untimed l (answer_drops w l)"
proof (induction w l rule: answer_drops.induct)
  case (1 w l)
  note step = answer_drops.simps [of w l]
  show ?case
  proof (cases "lp_answered_drops l < lp_dropped l")
    case True
    with 1 [OF True] step respond_untimed [of "l\<lparr>lp_answered_drops := lp_answered_drops l + 1\<rparr>"]
    show ?thesis by (simp add: times_def)
  next
    case False
    with step show ?thesis by (simp add: times_def)
  qed
qed

lemma loop_call_untimed: "untimed l (loop_call w req l)"
  by (simp add: loop_call_def respond_untimed times_def respond_def split: option.split callback.split)

lemma malformed_untimed: "untimed l (malformed w why l)"
  unfolding malformed_def by (simp add: respond_untimed Let_def)

lemma single_times:
  "times (os_request w data \<noteq> None) now l (single w now data l) \<and> lp_last_in (single w now data l) = lp_last_in l"
proof (cases "os_request w data")
  case None
  then show ?thesis
    using respond_untimed [of l] by (auto simp: single_def times_def split: prod.split)
next
  case (Some req)
  then show ?thesis
    using loop_call_untimed [of "l\<lparr>lp_last_busy := now\<rparr>" w req] by (simp add: single_def times_def)
qed

lemma message_data_times:
  "times (data_asks w data) now l (message_data w now binary data l) \<and>
   lp_last_in (message_data w now binary data l) = lp_last_in l"
proof (cases "first_byte data")
  case None
  then show ?thesis
    using malformed_untimed [of l w] respond_untimed [of l]
    by (simp add: message_data_def times_def split: list.split)
next
  case (Some ib)
  then show ?thesis
    using malformed_untimed [of l w] respond_untimed [of l] single_times [of w "drop (fst ib) data" now l]
    by (auto simp: message_data_def data_asks_def times_def split: prod.split)
qed

lemma message_times:
  assumes "message w now m l = (l', e)"
  shows "times (data_asks w (case m of Text_msg d \<Rightarrow> d | Binary_msg d \<Rightarrow> d | _ \<Rightarrow> [])) now l l' \<and>
         lp_last_in l' = now"
proof -
  let ?l = "l\<lparr>lp_last_in := now\<rparr>"
  let ?data = "case m of Text_msg d \<Rightarrow> d | Binary_msg d \<Rightarrow> d | _ \<Rightarrow> []"
  have "l' = ?l \<or> (\<exists>why. l' = malformed w why ?l) \<or> (\<exists>b. l' = message_data w now b ?data ?l)"
    using assms by (cases m) (auto simp: message_def Let_def split: if_splits)
  then have "times (data_asks w ?data) now ?l l' \<and> lp_last_in l' = lp_last_in ?l"
  proof (elim disjE exE)
    fix why assume "l' = malformed w why ?l"
    then show ?thesis using malformed_untimed untimed_times by blast
  next
    fix b assume "l' = message_data w now b ?data ?l"
    then show ?thesis using message_data_times by blast
  qed (simp add: times_def)
  then show ?thesis by (simp add: times_def)
qed

lemma read_turn_times:
  assumes "read_turn w now t reads l = (l', reads', moved, over)"
  shows "times (offers_request w t) now l l' \<and> reads \<le> reads' \<and>
         lp_last_in l' = (if reads < reads' then now else lp_last_in l) \<and>
         over \<noteq> Some Silent_end \<and> over \<noteq> Some Idle_end"
proof -
  let ?l = "l\<lparr>lp_dropped := lp_dropped l + ti_dropped t\<rparr>"
  have d: "untimed (x :: ('a, 'b) socket_loop) (answer_drops w x)" for x by (rule answer_drops_untimed)
  consider (shut) "\<not> (reads < READ_BUDGET \<and> length (lp_out l) < OUT_HIGH)"
    | (got) m l1 e where "reads < READ_BUDGET \<and> length (lp_out l) < OUT_HIGH" "ti_read t = Got m"
        "message w now m ?l = (l1, e)"
    | (other) "reads < READ_BUDGET \<and> length (lp_out l) < OUT_HIGH" "\<forall>m. ti_read t \<noteq> Got m"
    by (metis surj_pair)
  then show ?thesis
  proof cases
    case shut
    then show ?thesis using assms by (auto simp: read_turn_def times_def)
  next
    case got
    have "data_asks w [] = False" by (simp add: data_asks_def first_byte_def)
    then have "data_asks w (case m of Text_msg d \<Rightarrow> d | Binary_msg d \<Rightarrow> d | _ \<Rightarrow> []) = offers_request w t"
      using got(2) by (cases m) (simp_all add: offers_request_def)
    with message_times [OF got(3)] have "times (offers_request w t) now l l1" "lp_last_in l1 = now"
      by (simp_all add: times_def)
    moreover have "e \<noteq> Some Silent_end \<and> e \<noteq> Some Idle_end"
      using got(3) by (cases m) (auto simp: message_def Let_def split: if_splits)
    ultimately show ?thesis
      using assms got d [of l1] by (auto simp: read_turn_def times_def split: option.splits)
  next
    case other
    have "failure_end f \<noteq> Silent_end \<and> failure_end f \<noteq> Idle_end" for f
      by (cases f rule: failure_end.cases) auto
    then show ?thesis
      using assms other d [of ?l]
      by (auto simp: read_turn_def times_def Let_def split: ws_read.splits if_splits)
  qed
qed

lemma poll_queue_untimed: "poll_queue ready q l = (l', p) \<Longrightarrow> untimed l l'"
  by (cases q)
    (auto simp: poll_queue_def times_def split: if_splits list.splits prod.splits bool.splits)

lemma past_fence_untimed: "past_fence l b = (l', m) \<Longrightarrow> untimed l l'"
  by (auto simp: past_fence_def times_def split: list.splits)

lemma take_turns_untimed: "take_turns ready is l = (l', p) \<Longrightarrow> untimed l l'"
proof (induction ready "is" l arbitrary: l' p rule: take_turns.induct)
  case (2 ready i "is" l)
  obtain l1 q where pq: "poll_queue ready (TURNS ! ((lp_turn l + i) mod 3)) l = (l1, q)" by fastforce
  note k = poll_queue_untimed [OF pq]
  show ?case
  proof (cases q)
    case Nothing
    then show ?thesis using 2 pq k by (fastforce simp: times_def)
  next
    case (Frame_out m)
    then show ?thesis using "2.prems" pq k by (auto simp: times_def)
  next
    case Fence_raised
    show ?thesis
    proof (cases "lp_fenced l1")
      case None
      then show ?thesis using "2.prems" pq k Fence_raised by (auto simp: times_def)
    next
      case (Some b)
      obtain l2 m where pf: "past_fence (l1\<lparr>lp_turn := (lp_turn l + i + 1) mod 3\<rparr>) b = (l2, m)" by fastforce
      then show ?thesis
        using "2.prems" pq k Fence_raised Some past_fence_untimed [OF pf] by (auto simp: times_def split: list.splits)
    qed
  qed
qed (simp add: times_def)

lemma next_out_untimed: "next_out ready l = (l', p) \<Longrightarrow> untimed l l'"
  by (auto simp: next_out_def times_def simp del: take_turns.simps split: list.splits option.splits prod.splits
      dest!: take_turns_untimed past_fence_untimed)

lemma write_frames_untimed: "write_frames ready ss l = (Some (l', moved), ms) \<Longrightarrow> untimed l l'"
proof (induction ready ss l arbitrary: moved ms rule: write_frames.induct)
  case (2 ready s ss l)
  obtain l1 p where n: "next_out ready l = (l1, p)" by fastforce
  note k = next_out_untimed [OF n]
  show ?case
  proof (cases "lp_budget l \<le> lp_gathered l \<or> s = Sink_failed \<or> s = Not_ready \<or> s = Send_fails \<or> p = None")
    case True
    then show ?thesis using 2(3) n k by (auto simp: times_def split: if_splits sink.splits option.splits)
  next
    case False
    then obtain m where m: "p = Some m" "s = Takes" by (cases s) auto
    let ?l = "l1\<lparr>lp_gathered := lp_gathered l1 + out_len m, lp_unflushed := True\<rparr>"
    obtain res out where w: "write_frames ready ss ?l = (res, out)" by fastforce
    with 2(3) n m False obtain mv where r: "res = Some (l', mv)" by (auto split: option.splits)
    have "untimed ?l l'" using 2(1) n m False w r by auto
    then show ?thesis using k by (simp add: times_def)
  qed
qed (auto simp: times_def)

lemma poll_write_untimed: "poll_write ready ss fl l = (Some (l', moved), ms) \<Longrightarrow> untimed l l'"
  by (auto simp: poll_write_def times_def split: prod.splits option.splits if_splits flush.splits
      dest!: write_frames_untimed)

definition turned_to ::
  "bool \<Rightarrow> nat \<Rightarrow> nat \<Rightarrow> ('id, 'p) socket_loop \<Rightarrow> nat \<Rightarrow> ('id, 'p) socket_loop \<Rightarrow> wakeup \<Rightarrow> bool" where
  "turned_to b now reads l reads' l' u \<longleftrightarrow>
     times b now l l' \<and> reads \<le> reads' \<and> lp_last_in l' = (if reads < reads' then now else lp_last_in l) \<and>
     u \<noteq> Ended Silent_end \<and> u \<noteq> Ended Idle_end"

lemma run_turns_times:
  "run_turns w now ts reads l = (l', u, reads', ms) \<Longrightarrow>
   turned_to (list_ex (offers_request w) ts) now reads l reads' l' u"
proof (induction w now ts reads l arbitrary: l' u reads' ms rule: run_turns.induct)
  case (2 w now t ts reads l)
  obtain l1 m1 where p: "poll_accepting (ti_resolved t) l = (l1, m1)" by fastforce
  obtain l2 r2 m2 e where r: "read_turn w now t reads l1 = (l2, r2, m2, e)" by (metis prod_cases4)
  note r' = read_turn_times [OF r] and p' = poll_accepting_untimed [OF p]
  have l2: "times (offers_request w t) now l l2" "reads \<le> r2"
      "lp_last_in l2 = (if reads < r2 then now else lp_last_in l)"
    using r' p' by (auto simp: times_def)
  show ?case
  proof (cases e)
    case (Some x)
    then show ?thesis using "2.prems" p r l2 r' by (auto simp: turned_to_def times_def)
  next
    case None
    obtain res out where w: "poll_write (ti_ready t) (ti_sinks t) (ti_flush t) l2 = (res, out)" by fastforce
    show ?thesis
    proof (cases res)
      case none: None
      then show ?thesis using "2.prems" p r None w l2 by (auto simp: turned_to_def times_def)
    next
      case (Some x)
      obtain l3 m3 where x: "x = (l3, m3)" by fastforce
      note w' = poll_write_untimed [OF w [unfolded Some x]]
      show ?thesis
      proof (cases "(m1 \<or> m2 \<or> m3) \<and> \<not> READ_BUDGET \<le> r2")
        case True
        obtain l4 u4 r4 ms4 where rest: "run_turns w now ts r2 l3 = (l4, u4, r4, ms4)" by (metis prod_cases4)
        have "turned_to (list_ex (offers_request w) ts) now r2 l3 r4 l4 u4"
          using "2.IH" p r None w Some x True rest by simp
        moreover have "l' = l4" "u = u4" "reads' = r4" using "2.prems" p r None w Some x True rest by auto
        ultimately show ?thesis using l2 w' by (auto simp: turned_to_def times_def)
      next
        case False
        then show ?thesis using "2.prems" p r None w Some x l2 w' by (auto simp: turned_to_def times_def split: if_splits)
      qed
    qed
  qed
qed (simp add: turned_to_def times_def)

section \<open>A wakeup\<close>

text \<open>What the clock says of the loop while the socket is open, with \<open>B\<close> the period of its ticks.\<close>

definition in_time :: "socket_limits \<Rightarrow> ('id, 'p) socket_loop \<Rightarrow> socket_clock \<Rightarrow> bool" where
  "in_time limits l c \<longleftrightarrow>
     lp_last_in l = ck_heard c \<and> (idle_timeout limits \<noteq> None \<longrightarrow> ck_busy c \<le> lp_last_busy l) \<and>
     lp_last_busy l \<le> ck_active c \<and> lp_last_busy l \<le> ck_now c \<and> ck_tick c \<le> ck_now c \<and>
     (\<forall>p. tick_period limits = Some p \<longrightarrow> 1000 * ck_now c \<le> 1000 * ck_tick c + p) \<and>
     (ping_interval limits \<noteq> None \<longrightarrow> ck_tick c \<le> ck_heard c + ping_timeout limits) \<and>
     (\<forall>i. idle_timeout limits = Some i \<longrightarrow> ck_tick c \<le> ck_active c + i)"

definition set_up :: "socket_limits \<Rightarrow> ('id, 'p) socket_loop \<Rightarrow> bool" where
  "set_up limits l \<longleftrightarrow>
     lp_ping_timeout l = map_option (\<lambda>_. ping_timeout limits) (ping_interval limits) \<and>
     lp_idle l = idle_timeout limits"

text \<open>And once it is over, of how it ended.\<close>

definition ended_for :: "socket_limits \<Rightarrow> socket_clock \<Rightarrow> bool" where
  "ended_for limits c \<longleftrightarrow>
     (ck_end c = Some Silent_end \<longrightarrow>
        ping_interval limits \<noteq> None \<and> ck_heard c + ping_timeout limits < ck_now c) \<and>
     (ck_end c = Some Idle_end \<longrightarrow>
        \<not> ck_open c \<and> (\<exists>i. idle_timeout limits = Some i \<and> ck_busy c + i \<le> ck_now c))"

lemma liveness_cases:
  assumes "liveness now l = (l1, e)" and "set_up limits l"
  obtains (silent) "e = Some Silent_end" "l1 = l" "ping_interval limits \<noteq> None"
      "lp_last_in l + ping_timeout limits < now"
  | (idle) i where "e = Some Idle_end" "l1 = l" "idle_timeout limits = Some i" "\<not> busy l"
      "i \<le> now - lp_last_busy l"
  | (lives) "e = None" "l1 = (if busy l \<and> idle_timeout limits \<noteq> None then l\<lparr>lp_last_busy := now\<rparr> else l)"
      "ping_interval limits \<noteq> None \<longrightarrow> now \<le> lp_last_in l + ping_timeout limits"
      "\<forall>i. idle_timeout limits = Some i \<longrightarrow> busy l \<or> now \<le> lp_last_busy l + i"
proof (cases "case lp_ping_timeout l of None \<Rightarrow> False | Some t \<Rightarrow> t < now - lp_last_in l")
  case True
  then show ?thesis using assms silent by (auto simp: liveness_def set_up_def split: option.splits)
next
  case heard: False
  then have in_time: "ping_interval limits \<noteq> None \<longrightarrow> now \<le> lp_last_in l + ping_timeout limits"
    using assms(2) by (auto simp: set_up_def)
  show ?thesis
  proof (cases "idle_timeout limits")
    case None
    then show ?thesis using assms heard in_time by (intro lives) (auto simp: liveness_def set_up_def)
  next
    case (Some i)
    with assms(2) have "lp_idle l = Some i" by (simp add: set_up_def)
    with assms(1) heard Some in_time show ?thesis
      by (cases "busy l"; cases "i \<le> now - lp_last_busy l")
        (simp_all add: liveness_def idle lives)
  qed
qed

lemma wake_in_time:
  assumes "poll_run w k l = (l', u, reads, ms)" and "set_up limits l" and "in_time limits l c"
    and "ck_now c \<le> wi_now k"
    and "wi_ticked k \<or> (\<forall>p. tick_period limits = Some p \<longrightarrow> 1000 * wi_now k < 1000 * ck_tick c + p)"
  shows "set_up limits l' \<and> ended_for limits (clock_wake w k l u reads c) \<and>
         ((\<nexists>e. u = Ended e) \<longrightarrow> in_time limits l' (clock_wake w k l u reads c))"
proof (cases "wi_stopping k \<or> wi_closing k")
  case True
  then show ?thesis
    using assms(1,2) by (auto simp: poll_run_def ended_for_def clock_wake_def Let_def split: if_splits)
next
  case awake: False
  obtain l1 e where lv: "(if wi_ticked k then liveness (wi_now k) l else (l, None)) = (l1, e)" by fastforce
  show ?thesis
  proof (cases e)
    case (Some x)
    then have "wi_ticked k" "liveness (wi_now k) l = (l1, e)" using lv by (auto split: if_splits)
    moreover have "l' = l1" "u = Ended x" "reads = 0"
      using assms(1) awake lv Some by (auto simp: poll_run_def)
    ultimately show ?thesis
      using assms(2-4) Some
      by (auto elim!: liveness_cases [OF _ assms(2)] simp: ended_for_def in_time_def clock_wake_def Let_def)
  next
    case None
    let ?l = "if wi_ping_due k then l1\<lparr>lp_out := Out_ping # lp_out l1\<rparr> else l1"
    have "run_turns w (wi_now k) (wi_turns k) 0 ?l = (l', u, reads, ms)"
      using assms(1) awake lv None by (simp add: poll_run_def)
    from run_turns_times [OF this]
    have after: "turned_to (list_ex (offers_request w) (wi_turns k)) (wi_now k) 0 l1 reads l' u"
      by (auto simp: turned_to_def times_def split: if_splits)
    have ends: "ended_for limits (clock_wake w k l u reads c)"
      using after by (auto simp: ended_for_def clock_wake_def turned_to_def Let_def split: wakeup.splits)
    let ?c = "clock_wake w k l u reads c" and ?now = "wi_now k"
      and ?asked = "list_ex (offers_request w) (wi_turns k)"
    have c: "ck_now ?c = ?now" "ck_tick ?c = (if wi_ticked k then ?now else ck_tick c)"
        "ck_heard ?c = (if 0 < reads then ?now else ck_heard c)"
        "ck_busy ?c = (if wi_ticked k \<and> busy l then ?now else ck_busy c)"
        "ck_active ?c = (if wi_ticked k \<and> busy l \<or> ?asked then ?now else ck_active c)"
      by (simp_all add: clock_wake_def Let_def)
    have l': "lp_last_in l' = (if 0 < reads then ?now else lp_last_in l1)"
        "lp_last_busy l' = lp_last_busy l1 \<or> ?asked \<and> lp_last_busy l' = ?now" "set_up limits l' = set_up limits l1"
      using after by (simp_all add: turned_to_def times_def set_up_def)
    note before = assms(3) [unfolded in_time_def]
    have "set_up limits l' \<and> in_time limits l' ?c"
    proof (cases "wi_ticked k")
      case False
      then have "l1 = l" using lv by simp
      then have "in_time limits l' ?c"
        unfolding in_time_def c using False before l'(1,2) assms(4,5)
        by (intro conjI allI impI) (simp_all, linarith+)
      then show ?thesis using l'(3) \<open>l1 = l\<close> assms(2) by simp
    next
      case True
      with lv None have live: "liveness ?now l = (l1, None)" by simp
      show ?thesis
      proof (rule liveness_cases [OF live assms(2)])
        assume l1: "l1 = (if busy l \<and> idle_timeout limits \<noteq> None then l\<lparr>lp_last_busy := ?now\<rparr> else l)"
          and heard: "ping_interval limits \<noteq> None \<longrightarrow> ?now \<le> lp_last_in l + ping_timeout limits"
          and called: "\<forall>i. idle_timeout limits = Some i \<longrightarrow> busy l \<or> ?now \<le> lp_last_busy l + i"
        have "set_up limits l1" "lp_last_in l1 = lp_last_in l" using l1 assms(2) by (simp_all add: set_up_def)
        moreover have "lp_last_busy l1 = (if busy l \<and> idle_timeout limits \<noteq> None then ?now else lp_last_busy l)"
          by (cases "busy l"; cases "idle_timeout limits") (simp_all add: l1)
        then have "in_time limits l' ?c"
          unfolding in_time_def c using True before l'(1,2) \<open>lp_last_in l1 = lp_last_in l\<close> heard called assms(4)
          by (intro conjI allI impI) (simp_all split: if_splits, linarith+)
        ultimately show ?thesis using l'(3) by simp
      qed simp_all
    qed
    with ends show ?thesis by simp
  qed
qed

section \<open>The property\<close>

text \<open>The life and its clock, from its start: either it is over and why is known, or it is in time.\<close>

definition life_in_time :: "socket_limits \<Rightarrow> ('id, 'p, 'h) socket_life \<times> socket_clock \<Rightarrow> bool" where
  "life_in_time limits sc \<longleftrightarrow>
     (case sc of (s, c) \<Rightarrow>
        set_up limits (sl_loop s) \<and> ended_for limits c \<and> (\<not> sl_over s \<longrightarrow> in_time limits (sl_loop s) c))"

lemma life_in_time_new: "life_in_time limits (life_new limits now conn hk h, clock_new now)"
  by (simp add: life_in_time_def life_new_def loop_new_def set_up_def in_time_def ended_for_def clock_new_def)

lemma between_in_time:
  "life_between s s' \<Longrightarrow> life_in_time limits (s, c) \<Longrightarrow> life_in_time limits (s', c)"
  by (auto simp: life_in_time_def set_up_def in_time_def dest!: life_between_keeps)

lemma clocked_in_time:
  assumes "clocked limits x y" and "life_in_time limits x"
  shows "life_in_time limits y"
  using assms(1)
proof cases
  case (clock_goes_on s s' c)
  then show ?thesis using assms(2) between_in_time by blast
next
  case (clock_wakes s c k w l u reads ms h)
  then have "set_up limits (sl_loop s)" "in_time limits (sl_loop s) c"
    using assms(2) by (simp_all add: life_in_time_def)
  from wake_in_time [OF clock_wakes(6) this clock_wakes(4,5)] show ?thesis
    using clock_wakes life_wake_fields(1,3) [OF clock_wakes(6)] by (simp add: life_in_time_def)
qed

lemma tick_of_mono: "t \<le> t' \<Longrightarrow> tick_of t \<le> tick_of t'"
  by (simp add: tick_of_def)

lemma tick_period_le:
  "ping_interval limits \<noteq> None \<Longrightarrow> \<exists>p. tick_period limits = Some p \<and> p \<le> tick_of (ping_timeout limits)"
  "idle_timeout limits = Some i \<Longrightarrow> \<exists>p. tick_period limits = Some p \<and> p \<le> tick_of i"
  by (auto simp: tick_period_def tick_every_def tick_of_mono split: option.split)

text \<open>
  C29. No socket outlives a peer that has gone silent, nor its last call, by more than its limit and
  one tick (an eighth of the limit, from 25 ms to 5 s): at every wakeup that leaves it open, where
  pings are sent a message was read within the ping timeout and a tick, and where there is an idle
  limit a call was open at a tick, or a request offered, within the limit and a tick. And
  it is ended for silence only when nothing was read for longer than the timeout, and as idle only
  with no call open then, nor at any tick within the limit.
\<close>

theorem a_socket_outlives_its_peer_by_a_tick_at_most:
  assumes "(clocked limits)\<^sup>*\<^sup>* (life_new limits start conn hk h, clock_new start) (s, c)"
  shows "(sl_over s \<or>
            (ping_interval limits = None \<or>
               1000 * ck_now c \<le> 1000 * (ck_heard c + ping_timeout limits) +
                 max 25000 (min 5000000 (125 * ping_timeout limits))) \<and>
            (\<forall>i. idle_timeout limits = Some i \<longrightarrow>
               1000 * ck_now c \<le> 1000 * (ck_active c + i) + max 25000 (min 5000000 (125 * i)))) \<and>
         (ck_end c = Some Silent_end \<longrightarrow>
            ping_interval limits \<noteq> None \<and> ck_heard c + ping_timeout limits < ck_now c) \<and>
         (ck_end c = Some Idle_end \<longrightarrow>
            \<not> ck_open c \<and> (\<exists>i. idle_timeout limits = Some i \<and> ck_busy c + i \<le> ck_now c))"
proof -
  have "life_in_time limits (s, c)"
    using assms by (induction rule: rtranclp_induct) (simp_all add: life_in_time_new clocked_in_time)
  then have over: "ended_for limits c" and live: "\<not> sl_over s \<longrightarrow> in_time limits (sl_loop s) c"
    by (simp_all add: life_in_time_def)
  have "1000 * ck_now c \<le> 1000 * (ck_heard c + ping_timeout limits) + tick_of (ping_timeout limits)"
    if "\<not> sl_over s" "ping_interval limits \<noteq> None"
    using live tick_period_le(1) [OF that(2)] that by (fastforce simp: in_time_def)
  moreover have "1000 * ck_now c \<le> 1000 * (ck_active c + i) + tick_of i"
    if "\<not> sl_over s" "idle_timeout limits = Some i" for i
    using live tick_period_le(2) [OF that(2)] that by (fastforce simp: in_time_def)
  moreover have "tick_of n = max 25000 (min 5000000 (125 * n))" for n
    by (simp add: tick_of_def mult.commute)
  ultimately show ?thesis
    using over unfolding ended_for_def by metis
qed

text \<open>A socket nobody speaks on: at 50 s it is open, at 80 s a tick ends it for silence.\<close>

definition new_socket :: "(nat, nat, unit) socket_life" where
  "new_socket = life_new default_limits 0
     \<lparr>cn_peer = \<lparr>sa_ip = localhost, sa_port = 9\<rparr>, cn_id = 5, cn_closed = False, cn_calls = calls_new 4,
      cn_upgraded = None, cn_pending = None, cn_tls = False\<rparr> None ()"

definition quiet_wake :: "nat \<Rightarrow> (nat, nat) wake_input" where
  "quiet_wake now = sample_wake\<lparr>wi_now := now, wi_turns := []\<rparr>"

definition at_50s :: "(nat, nat, unit) socket_life \<times> socket_clock" where
  "at_50s =
     (life_wake quiet_world (quiet_wake 50000) () new_socket,
      clock_wake quiet_world (quiet_wake 50000) (sl_loop new_socket) Slept 0 (clock_new 0))"

definition at_80s :: "(nat, nat, unit) socket_life \<times> socket_clock" where
  "at_80s =
     (life_wake quiet_world (quiet_wake 80000) () (fst at_50s),
      clock_wake quiet_world (quiet_wake 80000) (sl_loop (fst at_50s)) (Ended Silent_end) 0 (snd at_50s))"

lemmas quiet_run_eval =
  at_80s_def at_50s_def new_socket_def quiet_wake_def sample_wake_def life_new_def loop_new_def life_wake_def
  clock_wake_def clock_new_def default_limits_def liveness_def poll_run_def busy_def Let_def

lemma quiet_run:
  "clocked default_limits (new_socket, clock_new 0) at_50s" "clocked default_limits at_50s at_80s"
proof -
  have "poll_run quiet_world (quiet_wake 50000) (sl_loop new_socket) = (sl_loop new_socket, Slept, 0, [])"
    by (simp add: quiet_run_eval)
  then show "clocked default_limits (new_socket, clock_new 0) at_50s"
    unfolding at_50s_def by (rule clock_wakes [rotated 3]) (simp_all add: quiet_run_eval)
  have "poll_run quiet_world (quiet_wake 80000) (sl_loop (fst at_50s)) = (sl_loop (fst at_50s), Ended Silent_end, 0, [])"
    by (simp add: quiet_run_eval)
  then have "clocked default_limits (fst at_50s, snd at_50s) at_80s"
    unfolding at_80s_def by (rule clock_wakes [rotated 3]) (simp_all add: quiet_run_eval)
  then show "clocked default_limits at_50s at_80s" by simp
qed

lemma a_socket_outlives_its_peer_by_a_tick_at_most_witness:
  "ck_end (snd at_80s) = Some Silent_end \<and> ck_heard (snd at_80s) + ping_timeout default_limits < ck_now (snd at_80s)"
proof -
  have run: "(clocked default_limits)\<^sup>*\<^sup>* (new_socket, clock_new 0) (fst at_80s, snd at_80s)"
    using quiet_run by (auto intro: converse_rtranclp_into_rtranclp)
  have "ck_end (snd at_80s) = Some Silent_end" by (simp add: quiet_run_eval)
  with a_socket_outlives_its_peer_by_a_tick_at_most [OF run [unfolded new_socket_def]] show ?thesis by blast
qed

end
