(* ===== verification/Resource.thy ===== *)
theory Resource
  imports Http
begin

text \<open>
  protected_resource.rs (AUTH-6): RFC 9728 metadata. The document is served at the well-known
  path followed by the resource's own path; \<open>to_json\<close> is serde's, so the serializer is an
  argument of \<open>prepare\<close>.
\<close>

definition WELL_KNOWN_PATH :: string where
  "WELL_KNOWN_PATH = ''/.well-known/oauth-protected-resource''"

record protected_resource =
  pr_resource :: string
  pr_authorization_servers :: "string list"
  pr_scopes_supported :: "string list option"
  pr_bearer_methods_supported :: "string list"

definition default_resource :: protected_resource where
  "default_resource =
     \<lparr>pr_resource = [], pr_authorization_servers = [], pr_scopes_supported = None,
      pr_bearer_methods_supported = [''header'']\<rparr>"

definition new_resource :: "string \<Rightarrow> string list \<Rightarrow> protected_resource" where
  "new_resource resource servers =
     default_resource\<lparr>pr_resource := resource, pr_authorization_servers := servers\<rparr>"

definition with_scopes :: "string list \<Rightarrow> protected_resource \<Rightarrow> protected_resource" where
  "with_scopes scopes p = p\<lparr>pr_scopes_supported := Some scopes\<rparr>"

text \<open>\<open>str::find\<close>: the index of the first occurrence.\<close>

fun find_at :: "string \<Rightarrow> string \<Rightarrow> nat option" where
  "find_at pat s =
     (if starts_with pat s then Some 0
      else case s of [] \<Rightarrow> None | _ # cs \<Rightarrow> map_option Suc (find_at pat cs))"

declare find_at.simps [simp del]

text \<open>\<open>("scheme://authority", "/path...")\<close>, query and fragment dropped.\<close>

definition split_origin :: "string \<Rightarrow> string \<times> string" where
  "split_origin full =
     (let resource = takeWhile (\<lambda>c. c \<noteq> CHR ''?'' \<and> c \<noteq> CHR ''#'') full;
          after_scheme = (case find_at ''://'' resource of None \<Rightarrow> 0 | Some i \<Rightarrow> i + 3)
      in case find_at ''/'' (drop after_scheme resource) of
           Some i \<Rightarrow> (take (after_scheme + i) resource, drop (after_scheme + i) resource)
         | None \<Rightarrow> (resource, []))"

definition metadata_path :: "protected_resource \<Rightarrow> string" where
  "metadata_path p =
     WELL_KNOWN_PATH @ trim_end_matches CHR ''/'' (snd (split_origin (pr_resource p)))"

definition metadata_url :: "protected_resource \<Rightarrow> string" where
  "metadata_url p = fst (split_origin (pr_resource p)) @ metadata_path p"

record prepared =
  pp_path :: string
  pp_url :: string
  pp_body :: string

definition prepare :: "(protected_resource \<Rightarrow> string) \<Rightarrow> protected_resource \<Rightarrow> prepared" where
  "prepare to_json p = \<lparr>pp_path = metadata_path p, pp_url = metadata_url p, pp_body = to_json p\<rparr>"

lemma split_origin_append:
  "fst (split_origin s) @ snd (split_origin s) = takeWhile (\<lambda>c. c \<noteq> CHR ''?'' \<and> c \<noteq> CHR ''#'') s"
  by (simp add: split_origin_def Let_def split: option.splits)

lemma find_at_starts: "find_at pat s = Some i \<Longrightarrow> starts_with pat (drop i s)"
proof (induction s arbitrary: i)
  case Nil
  then show ?case by (subst (asm) find_at.simps) (auto split: if_splits)
next
  case (Cons c s)
  then show ?case by (subst (asm) find_at.simps) (auto split: if_splits)
qed

lemma starts_with_single: "starts_with [c] s \<longleftrightarrow> (\<exists>t. s = c # t)"
  by (cases s) (auto simp: starts_with_def)

lemma split_origin_path:
  "snd (split_origin s) = [] \<or> (\<exists>t. snd (split_origin s) = CHR ''/'' # t)"
proof -
  have "\<And>r k i. find_at ''/'' (drop k r) = Some i \<Longrightarrow> \<exists>t. drop (k + i) r = CHR ''/'' # t"
    using find_at_starts starts_with_single by (metis add.commute drop_drop)
  then show ?thesis by (auto simp: split_origin_def Let_def split: option.splits)
qed

lemma metadata_path_starts: "starts_with WELL_KNOWN_PATH (metadata_path p)"
  by (simp add: metadata_path_def)

lemma WELL_KNOWN_trim: "trim_end_matches CHR ''/'' WELL_KNOWN_PATH = WELL_KNOWN_PATH"
  by (simp add: WELL_KNOWN_PATH_def trim_end_matches_def)

lemma trim_end_append:
  "trim_end_matches c (a @ b) =
   (if trim_end_matches c b = [] then trim_end_matches c a else a @ trim_end_matches c b)"
proof (cases "\<forall>x\<in>set b. x = c")
  case True
  then have "dropWhile (\<lambda>x. x = c) (rev b @ rev a) = dropWhile (\<lambda>x. x = c) (rev a)"
    by (subst dropWhile_append2) auto
  moreover have "dropWhile (\<lambda>x. x = c) (rev b) = []" using True by simp
  ultimately show ?thesis by (simp add: trim_end_matches_def)
next
  case False
  then obtain x where "x \<in> set b" "x \<noteq> c" by blast
  then have "dropWhile (\<lambda>x. x = c) (rev b @ rev a) = dropWhile (\<lambda>x. x = c) (rev b) @ rev a"
    by (simp add: dropWhile_append1)
  moreover have "dropWhile (\<lambda>x. x = c) (rev b) \<noteq> []" using \<open>x \<in> set b\<close> \<open>x \<noteq> c\<close> by auto
  ultimately show ?thesis by (auto simp: trim_end_matches_def)
qed

text \<open>The path served never ends in a slash, so the comparison in the middleware can meet it.\<close>

lemma metadata_path_trimmed: "trim_end_matches CHR ''/'' (metadata_path p) = metadata_path p"
  by (simp add: metadata_path_def trim_end_append WELL_KNOWN_trim)

end
