(* ===== verification/Auth.thy ===== *)
theory Auth
  imports Upgrade Resource
begin

text \<open>
  The checks on the WebSocket's port (websocket.rs, module \<open>auth\<close>): the host, the RFC 9728
  metadata, the origin, the static key, the session, the quotas, in that order, then the
  upgrade. The session validator is plexus-core's: what it answers for an input, and what an
  \<open>AuthContext\<close> says of who it is, are a \<open>validator\<close>, an argument. Whether the \<open>http\<close>
  crate takes a text as a header value is \<open>header_ok\<close>.
\<close>

record 'ctx validator =
  vl_validate :: "string \<Rightarrow> 'ctx option"
  vl_principal :: "'ctx \<Rightarrow> string option"
  vl_user_id :: "'ctx \<Rightarrow> string"

record policy =
  po_anonymous_view :: bool
  po_credential_cookies :: "string list"
  po_metadata :: "prepared option"

text \<open>
  The host's own routes on the port (TRANSPORT-26): the path the socket keeps. Their router is
  axum's.
\<close>

record host_routes =
  hr_socket_path :: string

definition host_routes_new :: host_routes where
  "host_routes_new = \<lparr>hr_socket_path = ''/ws''\<rparr>"

definition socket_at :: "string \<Rightarrow> host_routes \<Rightarrow> host_routes" where
  "socket_at path r = r\<lparr>hr_socket_path := path\<rparr>"

text \<open>A connection hook (\<open>Hooks\<close>) is named by a number.\<close>

record upgrade_options =
  uo_reject_on_session_failure :: bool
  uo_anonymous_view :: bool
  uo_credential_cookies :: "string list"
  uo_protected_resource :: "protected_resource option"
  uo_limits :: socket_limits
  uo_hooks :: "nat option"
  uo_routes :: "host_routes option"

definition default_options :: upgrade_options where
  "default_options =
     \<lparr>uo_reject_on_session_failure = False, uo_anonymous_view = False, uo_credential_cookies = [],
      uo_protected_resource = None, uo_limits = default_limits, uo_hooks = None, uo_routes = None\<rparr>"

definition default_policy :: policy where
  "default_policy = \<lparr>po_anonymous_view = False, po_credential_cookies = [], po_metadata = None\<rparr>"

definition policy_of :: "(protected_resource \<Rightarrow> string) \<Rightarrow> upgrade_options \<Rightarrow> policy" where
  "policy_of to_json opts =
     \<lparr>po_anonymous_view = uo_anonymous_view opts, po_credential_cookies = uo_credential_cookies opts,
      po_metadata = map_option (prepare to_json) (uo_protected_resource opts)\<rparr>"

section \<open>Whether a credential is presented\<close>

definition filter_map :: "('a \<Rightarrow> 'b option) \<Rightarrow> 'a list \<Rightarrow> 'b list" where
  "filter_map f xs = concat (map (\<lambda>x. case f x of None \<Rightarrow> [] | Some y \<Rightarrow> [y]) xs)"

definition cookie_pairs :: "header_map \<Rightarrow> (string \<times> string) list" where
  "cookie_pairs h =
     filter_map (split_once CHR ''='')
       (concat (map (split_on CHR '';'') (filter_map to_str (header_get_all h ''cookie''))))"

definition presents_credential :: "policy \<Rightarrow> header_map \<Rightarrow> bool" where
  "presents_credential p h \<longleftrightarrow>
     contains_key h ''authorization'' \<or>
     list_ex (\<lambda>(name, val). trim val \<noteq> [] \<and> List.member (po_credential_cookies p) (trim name))
       (cookie_pairs h)"

section \<open>The answers of the checks\<close>

definition bearer_realm :: string where
  "bearer_realm = ''Bearer realm='' @ [CHR 0x22] @ ''plexus'' @ [CHR 0x22]"

definition quoted :: "string \<Rightarrow> string" where
  "quoted s = [CHR 0x22] @ s @ [CHR 0x22]"

definition metadata_response :: "policy \<Rightarrow> request \<Rightarrow> response option" where
  "metadata_response p r =
     (case po_metadata p of
        None \<Rightarrow> None
      | Some m \<Rightarrow>
          if rq_method r \<noteq> ''GET'' \<or> trim_end_matches CHR ''/'' (rq_path r) \<noteq> pp_path m then None
          else Some \<lparr>rp_status = 200,
                 rp_headers = [(''content-type'', ''application/json''),
                               (''access-control-allow-origin'', ''*''),
                               (''cache-control'', ''max-age=3600'')],
                 rp_body = pp_body m\<rparr>)"

definition unauthorized_with :: "(string \<Rightarrow> bool) \<Rightarrow> string \<Rightarrow> string \<Rightarrow> response" where
  "unauthorized_with header_ok body challenge =
     \<lparr>rp_status = 401,
      rp_headers = [(''www-authenticate'', if header_ok challenge then challenge else bearer_realm), text_plain],
      rp_body = body\<rparr>"

definition unauthorized :: "(string \<Rightarrow> bool) \<Rightarrow> string \<Rightarrow> response" where
  "unauthorized header_ok body = unauthorized_with header_ok body bearer_realm"

definition session_unauthorized :: "(string \<Rightarrow> bool) \<Rightarrow> policy \<Rightarrow> string \<Rightarrow> bool \<Rightarrow> response" where
  "session_unauthorized header_ok p body presented =
     unauthorized_with header_ok body
       (bearer_realm @
        (if presented then '', error='' @ quoted ''invalid_token'' else []) @
        (case po_metadata p of None \<Rightarrow> [] | Some m \<Rightarrow> '', resource_metadata='' @ quoted (pp_url m)))"

definition misdirected :: response where
  "misdirected = \<lparr>rp_status = 421, rp_headers = [text_plain], rp_body = REFUSAL\<rparr>"

definition forbidden :: "string \<Rightarrow> response" where
  "forbidden body = \<lparr>rp_status = 403, rp_headers = [text_plain], rp_body = body\<rparr>"

section \<open>The origin\<close>

definition normalize_origin :: "string \<Rightarrow> string" where
  "normalize_origin s = to_ascii_lowercase (trim_end_matches CHR ''/'' (trim s))"

definition normalized_origins :: "string list \<Rightarrow> string list" where
  "normalized_origins os = map normalize_origin os"

definition origin_refused :: "string list \<Rightarrow> header_map \<Rightarrow> string option" where
  "origin_refused allowed h =
     (if allowed = [] then None
      else case header_get h ''origin'' of
        None \<Rightarrow> None
      | Some v \<Rightarrow>
          (case to_str v of
             None \<Rightarrow> Some ''<not text>''
           | Some s \<Rightarrow> if List.member allowed (normalize_origin s) then None else Some s))"

definition strip_bearer :: "string \<Rightarrow> string option" where
  "strip_bearer v = strip_prefix ''Bearer '' v"

definition bearer_token :: "header_map \<Rightarrow> string option" where
  "bearer_token h = Option.bind (header_str h ''authorization'') strip_bearer"

section \<open>The middleware\<close>

record ('ctx, 'net) middleware =
  mw_api_key :: "string option"
  mw_api_key_header :: string
  mw_validator :: "'ctx validator option"
  mw_reject :: bool
  mw_allowed_origins :: "string list"
  mw_allowed_hosts :: "string list"
  mw_policy :: policy
  mw_proxies :: "'net trusted_proxies"

text \<open>
  \<open>take_quota\<close>: an upgrade takes its place as who it is and keeps its permit in its extensions;
  anything else, and a request no connection carries, takes none.
\<close>

definition too_many :: "string \<Rightarrow> response" where
  "too_many why =
     \<lparr>rp_status = 429, rp_headers = [(''retry-after'', ''5''), text_plain],
      rp_body = ''Too many connections: '' @ why\<rparr>"

definition take_quota ::
  "quotas option \<Rightarrow> request \<Rightarrow> 'ctx extensions \<Rightarrow> string option \<Rightarrow>
   quotas option \<times> (response + 'ctx extensions)"
where
  "take_quota quotas r ext who =
     (case quotas of
        None \<Rightarrow> (None, Ok ext)
      | Some q \<Rightarrow>
          if \<not> is_upgrade_request r then (Some q, Ok ext)
          else case (case ex_client ext of
                       Some c \<Rightarrow> Some (fc_ip c)
                     | None \<Rightarrow> map_option (\<lambda>c. sa_ip (cn_peer c)) (ex_connection ext)) of
                 None \<Rightarrow> (Some q, Ok ext)
               | Some ip \<Rightarrow>
                   (case admit q ip who of
                      (q', Inr permit) \<Rightarrow> (Some q', Ok (ext\<lparr>ex_permit := Some permit\<rparr>))
                    | (q', Inl why) \<Rightarrow> (Some q', Err (too_many why))))"

text \<open>The static key's gate: the refusal, or nothing when it passes.\<close>

definition key_gate :: "(string \<Rightarrow> bool) \<Rightarrow> ('ctx, 'net) middleware \<Rightarrow> header_map \<Rightarrow> response option" where
  "key_gate header_ok mw h =
     (case mw_api_key mw of
        None \<Rightarrow> None
      | Some expected \<Rightarrow>
          (case header_str h (mw_api_key_header mw) of
             Some v \<Rightarrow>
               if v = expected then None else Some (unauthorized header_ok ''Unauthorized: api key invalid'')
           | None \<Rightarrow>
               if mw_validator mw = None \<and> bearer_token h = Some expected then None
               else Some (unauthorized header_ok ''Unauthorized: api key required'')))"

text \<open>
  What the validator is asked, in order, and what it said: the first \<open>Cookie\<close> header whole,
  then the bearer token when the cookies sign no one in.
\<close>

definition identify_session :: "'ctx validator \<Rightarrow> header_map \<Rightarrow> 'ctx option \<times> string list" where
  "identify_session v h =
     (let first = (case header_str h ''cookie'' of
                     None \<Rightarrow> (None, [])
                   | Some c \<Rightarrow> (vl_validate v c, [c]))
      in case fst first of
           Some ctx \<Rightarrow> (Some ctx, snd first)
         | None \<Rightarrow>
             (case bearer_token h of
                None \<Rightarrow> (None, snd first)
              | Some t \<Rightarrow> (vl_validate v t, snd first @ [t])))"

definition principal_of :: "'ctx validator \<Rightarrow> 'ctx \<Rightarrow> string" where
  "principal_of v ctx = (case vl_principal v ctx of Some p \<Rightarrow> p | None \<Rightarrow> vl_user_id v ctx)"

text \<open>
  The session's step: an answer, or the extensions the request goes on with. The flag says a
  watch on the sign-in was started.
\<close>

datatype 'ctx checked =
    Refused_with response
  | Passed "'ctx extensions" bool

definition quota_then ::
  "quotas option \<Rightarrow> request \<Rightarrow> 'ctx extensions \<Rightarrow> string option \<Rightarrow>
   ('ctx extensions \<Rightarrow> 'ctx checked) \<Rightarrow> quotas option \<times> 'ctx checked"
where
  "quota_then quotas r ext who k =
     (case take_quota quotas r ext who of
        (q, Inl resp) \<Rightarrow> (q, Refused_with resp)
      | (q, Inr ext') \<Rightarrow> (q, k ext'))"

definition session_step ::
  "(string \<Rightarrow> bool) \<Rightarrow> ('ctx, 'net) middleware \<Rightarrow> 'ctx validator \<Rightarrow> quotas option \<Rightarrow> request \<Rightarrow>
   'ctx extensions \<Rightarrow> quotas option \<times> 'ctx checked"
where
  "session_step header_ok mw v quotas r ext =
     (let h = rq_headers r;
          p = mw_policy mw;
          attempted = header_str h ''cookie'' \<noteq> None \<or> bearer_token h \<noteq> None;
          presented = presents_credential p h
      in case fst (identify_session v h) of
           Some ctx \<Rightarrow>
             quota_then quotas r ext (Some (principal_of v ctx))
               (\<lambda>ext'. Passed (ext'\<lparr>ex_auth := Some ctx\<rparr>)
                         (is_upgrade_request r \<and> ex_connection ext' \<noteq> None))
         | None \<Rightarrow>
             if po_anonymous_view p \<and> presented
             then (quotas, Refused_with (session_unauthorized header_ok p
                             ''Unauthorized: session invalid or expired'' True))
             else if po_anonymous_view p
             then quota_then quotas r ext None (\<lambda>ext'. Passed ext' False)
             else if mw_reject mw
             then (quotas, Refused_with (session_unauthorized header_ok p
                             (if attempted then ''Unauthorized: session invalid or expired''
                              else ''Unauthorized: session cookie or bearer required'') attempted))
             else quota_then quotas r ext None (\<lambda>ext'. Passed ext' False))"

text \<open>
  \<open>CombinedAuthMiddleware::call\<close> up to the inner service. The list is what the validator was
  asked.
\<close>

definition stamp_client ::
  "('net \<Rightarrow> ip_addr \<Rightarrow> bool) \<Rightarrow> ('ctx, 'net) middleware \<Rightarrow> request \<Rightarrow> 'ctx extensions \<Rightarrow> 'ctx extensions"
where
  "stamp_client net_contains mw r ext =
     (case ex_connection ext of
        None \<Rightarrow> ext
      | Some conn \<Rightarrow>
          ext\<lparr>ex_client := Some (client_of net_contains (mw_proxies mw) conn (rq_headers r))\<rparr>)"

definition checks ::
  "('net \<Rightarrow> ip_addr \<Rightarrow> bool) \<Rightarrow> (string \<Rightarrow> bool) \<Rightarrow> ('ctx, 'net) middleware \<Rightarrow> quotas option \<Rightarrow>
   request \<Rightarrow> 'ctx extensions \<Rightarrow> (quotas option \<times> 'ctx checked) \<times> string list"
where
  "checks net_contains header_ok mw quotas r ext0 =
     (let ext = stamp_client net_contains mw r ext0;
          h = rq_headers r;
          refuse = (\<lambda>resp. ((quotas, Refused_with resp), []))
      in case refused (mw_allowed_hosts mw) r of
           Some _ \<Rightarrow> refuse misdirected
         | None \<Rightarrow>
         case metadata_response (mw_policy mw) r of
           Some resp \<Rightarrow> refuse resp
         | None \<Rightarrow>
         case origin_refused (mw_allowed_origins mw) h of
           Some _ \<Rightarrow> refuse (forbidden ''Forbidden: origin not allowed'')
         | None \<Rightarrow>
         case key_gate header_ok mw h of
           Some resp \<Rightarrow> refuse resp
         | None \<Rightarrow>
         case mw_validator mw of
           Some v \<Rightarrow> (session_step header_ok mw v quotas r ext, snd (identify_session v h))
         | None \<Rightarrow> (quota_then quotas r ext None (\<lambda>ext'. Passed ext' False), []))"

text \<open>
  The middleware around the upgrade, over the quotas and the server's sockets. A request that
  does not end in a socket is dropped, and a permit it took with it; the socket keeps its own.
\<close>

record port_state =
  pt_quotas :: "quotas option"
  pt_shared :: shared

definition serve_port ::
  "('net \<Rightarrow> ip_addr \<Rightarrow> bool) \<Rightarrow> (string \<Rightarrow> bool) \<Rightarrow> nat \<Rightarrow> (string \<Rightarrow> string) \<Rightarrow>
   ('ctx, 'net) middleware \<Rightarrow> port_state \<Rightarrow> request \<Rightarrow> 'ctx extensions \<Rightarrow> port_state \<times> 'ctx outcome"
where
  "serve_port net_contains header_ok max_batch accept_key mw st r ext0 =
     (case fst (checks net_contains header_ok mw (pt_quotas st) r ext0) of
        (q, Refused_with resp) \<Rightarrow> (st\<lparr>pt_quotas := q\<rparr>, Answer resp)
      | (q, Passed ext watched) \<Rightarrow>
          (case upgrade max_batch accept_key (pt_shared st) r ext of
             (sh, Switch resp conn ext' n) \<Rightarrow>
               (\<lparr>pt_quotas = q, pt_shared = sh\<rparr>, Switch resp conn ext' n)
           | (sh, Answer resp) \<Rightarrow>
               (\<lparr>pt_quotas = (case ex_permit ext of
                               None \<Rightarrow> q
                             | Some permit \<Rightarrow> map_option (\<lambda>qs. drop_permit qs permit) q),
                 pt_shared = sh\<rparr>,
                Answer resp)))"

section \<open>The middleware driven alone (module \<open>testing\<close>)\<close>

definition combined_auth_middleware ::
  "string option \<Rightarrow> string \<Rightarrow> 'ctx validator option \<Rightarrow> bool \<Rightarrow> ('ctx, 'net) middleware" where
  "combined_auth_middleware key header validator reject =
     \<lparr>mw_api_key = key, mw_api_key_header = header, mw_validator = validator, mw_reject = reject,
      mw_allowed_origins = [], mw_allowed_hosts = [], mw_policy = default_policy,
      mw_proxies = tp_default\<rparr>"

definition combined_auth_middleware_with_options ::
  "(protected_resource \<Rightarrow> string) \<Rightarrow> 'ctx validator option \<Rightarrow> string list \<Rightarrow> upgrade_options \<Rightarrow>
   ('ctx, 'net) middleware" where
  "combined_auth_middleware_with_options to_json validator origins options =
     \<lparr>mw_api_key = None, mw_api_key_header = ''x-plexus-api-key'', mw_validator = validator,
      mw_reject = uo_reject_on_session_failure options,
      mw_allowed_origins = normalized_origins origins, mw_allowed_hosts = [],
      mw_policy = policy_of to_json options, mw_proxies = tp_default\<rparr>"

definition combined_auth_middleware_with_origins ::
  "'ctx validator option \<Rightarrow> bool \<Rightarrow> string list \<Rightarrow> ('ctx, 'net) middleware" where
  "combined_auth_middleware_with_origins validator reject origins =
     \<lparr>mw_api_key = None, mw_api_key_header = ''x-plexus-api-key'', mw_validator = validator,
      mw_reject = reject, mw_allowed_origins = normalized_origins origins, mw_allowed_hosts = [],
      mw_policy = default_policy, mw_proxies = tp_default\<rparr>"

text \<open>A validator that knows one session: the example the properties are tried on.\<close>

definition one_user :: "nat validator" where
  "one_user =
     \<lparr>vl_validate = (\<lambda>s. if s = ''sid=1'' then Some 7 else None), vl_principal = (\<lambda>_. Some ''ada''),
      vl_user_id = (\<lambda>_. ''u7'')\<rparr>"

end
