(* ===== verification/Port.thy ===== *)
theory Port
  imports Auth
begin

text \<open>
  The properties of the checks on the WebSocket's port, and of the port as a whole: what a served
  request proved, what the validator is asked and what comes of it, and what the sockets open on
  the port hold of the quotas and of the total.
\<close>

section \<open>What a request that passes has proved\<close>

lemma quota_then_Passed:
  assumes "quota_then quotas r ext who k = (q, Passed ext' w)"
  shows "\<exists>ext1. take_quota quotas r ext who = (q, Ok ext1) \<and> k ext1 = Passed ext' w"
  using assms by (auto simp: quota_then_def split: prod.splits sum.splits)

lemma checks_Passed:
  assumes "fst (checks nc ok mw quotas r ext0) = (q, Passed ext w)"
  shows "refused (mw_allowed_hosts mw) r = None"
    and "metadata_response (mw_policy mw) r = None"
    and "origin_refused (mw_allowed_origins mw) (rq_headers r) = None"
    and "key_gate ok mw (rq_headers r) = None"
    and "case mw_validator mw of
           None \<Rightarrow> quota_then quotas r (stamp_client nc mw r ext0) None (\<lambda>e. Passed e False) = (q, Passed ext w)
         | Some v \<Rightarrow> session_step ok mw v quotas r (stamp_client nc mw r ext0) = (q, Passed ext w)"
  using assms by (auto simp: checks_def Let_def split: option.splits)

lemma checks_asked:
  assumes "x \<in> set (snd (checks nc ok mw quotas r ext0))"
  shows "refused (mw_allowed_hosts mw) r = None"
    and "origin_refused (mw_allowed_origins mw) (rq_headers r) = None"
    and "key_gate ok mw (rq_headers r) = None"
    and "\<exists>v. mw_validator mw = Some v \<and> x \<in> set (snd (identify_session v (rq_headers r)))"
  using assms by (auto simp: checks_def Let_def split: option.splits)

lemma key_gate_passed:
  "key_gate ok mw h = None \<Longrightarrow> mw_api_key mw = Some key \<Longrightarrow>
   header_str h (mw_api_key_header mw) = Some key \<or>
   header_str h (mw_api_key_header mw) = None \<and> mw_validator mw = None \<and> bearer_token h = Some key"
  by (auto simp: key_gate_def split: option.splits if_splits)

lemma origin_passed:
  "origin_refused allowed h = None \<Longrightarrow> allowed \<noteq> [] \<Longrightarrow>
   header_get h ''origin'' = None \<or> (\<exists>s. header_str h ''origin'' = Some s \<and> normalize_origin s \<in> set allowed)"
  by (auto simp: origin_refused_def header_str_def split: option.splits if_splits)

lemma serve_port_Switch:
  assumes "serve_port nc ok mb ak mw st r ext0 = (st', Switch resp conn ext' n)"
  shows "\<exists>q ext w. fst (checks nc ok mw (pt_quotas st) r ext0) = (q, Passed ext w) \<and>
    pt_quotas st' = q \<and> ex_permit ext' = ex_permit ext \<and> ex_auth ext' = ex_auth ext \<and>
    upgrade mb ak (pt_shared st) r ext = (pt_shared st', Switch resp conn ext' n)"
proof -
  obtain q chk where c: "fst (checks nc ok mw (pt_quotas st) r ext0) = (q, chk)" by fastforce
  then obtain ext w where p: "chk = Passed ext w"
    using assms by (cases chk) (auto simp: serve_port_def)
  then have up: "upgrade mb ak (pt_shared st) r ext = (pt_shared st', Switch resp conn ext' n)"
      and "pt_quotas st' = q"
    using assms c by (auto simp: serve_port_def split: prod.splits outcome.splits)
  then show ?thesis using c p upgrade_Switch(4) [OF up] by auto
qed

lemma serve_port_opens:
  "fst (checks nc ok mw (pt_quotas st) r ext0) = (q, Passed ext w) \<Longrightarrow>
   upgrade mb ak (pt_shared st) r ext = (sh, Switch resp conn ext' n) \<Longrightarrow>
   serve_port nc ok mb ak mw st r ext0 = (\<lparr>pt_quotas = q, pt_shared = sh\<rparr>, Switch resp conn ext' n)"
  by (simp add: serve_port_def)

text \<open>
  C1. A socket is opened only through every gate: with hosts listed, the request named one of
  them; with origins listed, it carried no \<open>Origin\<close> or one of them; with a static key, it carried
  the key in its header, or, only where no session validator is set, as a bearer token. Nothing
  else opens a socket.
\<close>

theorem a_socket_is_opened_only_through_every_gate:
  assumes "serve_port nc ok mb ak mw st r ext0 = (st', Switch resp conn ext n)"
  shows "(mw_allowed_hosts mw \<noteq> [] \<longrightarrow> (\<exists>h. named_host r = Some h \<and> h \<in> set (mw_allowed_hosts mw))) \<and>
         (mw_allowed_origins mw \<noteq> [] \<longrightarrow>
            header_get (rq_headers r) ''origin'' = None \<or>
            (\<exists>s. header_str (rq_headers r) ''origin'' = Some s \<and> normalize_origin s \<in> set (mw_allowed_origins mw))) \<and>
         (\<forall>key. mw_api_key mw = Some key \<longrightarrow>
            header_str (rq_headers r) (mw_api_key_header mw) = Some key \<or>
            mw_validator mw = None \<and> bearer_token (rq_headers r) = Some key) \<and>
         is_upgrade_request r"
proof -
  obtain q e w where p: "fst (checks nc ok mw (pt_quotas st) r ext0) = (q, Passed e w)"
      and up: "upgrade mb ak (pt_shared st) r e = (pt_shared st', Switch resp conn ext n)"
    using serve_port_Switch [OF assms] by blast
  show ?thesis
    using checks_Passed(1,3,4) [OF p] upgrade_Switch(1) [OF up]
      refused_None_iff [of "mw_allowed_hosts mw" r] origin_passed key_gate_passed by blast
qed

definition keyed_middleware :: "(nat, nat) middleware" where
  "keyed_middleware = combined_auth_middleware (Some ''k1'') ''x-plexus-api-key'' None False"

definition upgrade_headers :: header_map where
  "upgrade_headers =
     [(''connection'', Text ''keep-alive, Upgrade''), (''upgrade'', Text ''websocket''),
      (''sec-websocket-version'', Text ''13''), (''sec-websocket-key'', Text ''abc'')]"

definition upgrade_request :: "header_map \<Rightarrow> request" where
  "upgrade_request h =
     \<lparr>rq_method = ''GET'', rq_path = ''/'', rq_query = None, rq_authority = None,
      rq_headers = h @ upgrade_headers\<rparr>"

definition sample_connection :: connection where
  "sample_connection =
     \<lparr>cn_peer = \<lparr>sa_ip = localhost, sa_port = 9\<rparr>, cn_id = 5, cn_closed = False, cn_calls = calls_new 4,
      cn_upgraded = None, cn_pending = None, cn_tls = False\<rparr>"

definition sample_extensions :: "nat extensions" where
  "sample_extensions = no_extensions\<lparr>ex_connection := Some sample_connection\<rparr>"

definition sample_port :: port_state where
  "sample_port = \<lparr>pt_quotas = None, pt_shared = shared_new default_limits 2\<rparr>"

lemmas upgrade_eval =
  is_upgrade_request_def has_token_def upgrade_request_def upgrade_headers_def eq_ignore_ascii_case_def
  to_ascii_lowercase_def ascii_lower_def trim_ascii_def trim_with_def is_ascii_whitespace_def code_def
  char_of_def bit_iff_odd

lemma sample_is_upgrade:
  "is_upgrade_request (upgrade_request [])"
  "is_upgrade_request (upgrade_request [(''x-plexus-api-key'', Text ''k1'')])"
  "is_upgrade_request (upgrade_request [(''cookie'', Text ''a=1'')])"
  by (simp_all add: upgrade_eval)

definition no_net :: "nat \<Rightarrow> ip_addr \<Rightarrow> bool" where
  "no_net n ip \<longleftrightarrow> False"

lemma a_socket_is_opened_only_through_every_gate_witness:
  "let r = upgrade_request [(''x-plexus-api-key'', Text ''k1'')]; mw = keyed_middleware in
   (mw_allowed_hosts mw \<noteq> [] \<longrightarrow> (\<exists>h. named_host r = Some h \<and> h \<in> set (mw_allowed_hosts mw))) \<and>
   (mw_allowed_origins mw \<noteq> [] \<longrightarrow>
      header_get (rq_headers r) ''origin'' = None \<or>
      (\<exists>s. header_str (rq_headers r) ''origin'' = Some s \<and> normalize_origin s \<in> set (mw_allowed_origins mw))) \<and>
   (\<forall>key. mw_api_key mw = Some key \<longrightarrow>
      header_str (rq_headers r) (mw_api_key_header mw) = Some key \<or>
      mw_validator mw = None \<and> bearer_token (rq_headers r) = Some key) \<and>
   is_upgrade_request r"
proof -
  let ?r = "upgrade_request [(''x-plexus-api-key'', Text ''k1'')]"
  let ?e = "stamp_client no_net keyed_middleware ?r sample_extensions"
  have "fst (checks no_net (\<lambda>_. True) keyed_middleware (pt_quotas sample_port) ?r sample_extensions) =
      (None, Passed ?e False)"
    by (simp add: checks_def keyed_middleware_def combined_auth_middleware_def refused_def
        metadata_response_def default_policy_def origin_refused_def key_gate_def quota_then_def
        take_quota_def sample_port_def header_str_def)
      (simp add: upgrade_request_def quota_then_def take_quota_def)
  note passed = this
  have "ex_connection ?e = Some sample_connection"
    by (simp add: stamp_client_def sample_extensions_def no_extensions_def)
  then have "\<exists>sh resp conn ext n.
      upgrade 8 id (pt_shared sample_port) ?r ?e = (sh, Switch resp conn ext n)"
    using sample_is_upgrade(2)
    by (simp add: upgrade_def sample_port_def shared_new_def)
      (simp add: upgrade_request_def upgrade_headers_def try_acquire_def)
  then obtain sh resp conn ext n where
    up: "upgrade 8 id (pt_shared sample_port) ?r ?e = (sh, Switch resp conn ext n)" by blast
  from a_socket_is_opened_only_through_every_gate [OF serve_port_opens [OF passed up]]
  show ?thesis unfolding Let_def .
qed

section \<open>What the validator is asked, and what comes of it\<close>

lemma take_quota_keeps:
  "take_quota quotas r ext who = (q, Ok ext') \<Longrightarrow>
   ex_auth ext' = ex_auth ext \<and> ex_connection ext' = ex_connection ext \<and> ex_client ext' = ex_client ext"
  by (auto simp: take_quota_def split: option.splits if_splits prod.splits sum.splits)

lemma identify_session_said:
  "identify_session v h = (Some ctx, asked) \<Longrightarrow> \<exists>x\<in>set asked. vl_validate v x = Some ctx"
  by (auto simp: identify_session_def Let_def split: option.splits)

lemma identify_session_asked:
  "x \<in> set (snd (identify_session v h)) \<Longrightarrow>
   header_str h ''cookie'' = Some x \<or> bearer_token h = Some x"
  by (auto simp: identify_session_def Let_def split: option.splits)

lemma session_step_auth:
  assumes "session_step ok mw v quotas r ext0 = (q, Passed ext w)" and "ex_auth ext0 = None"
  shows "ex_auth ext = fst (identify_session v (rq_headers r))"
proof (cases "fst (identify_session v (rq_headers r))")
  case None
  then show ?thesis using assms
    by (auto simp: session_step_def Let_def split: if_splits dest!: quota_then_Passed dest: take_quota_keeps)
next
  case (Some ctx)
  then show ?thesis using assms
    by (auto simp: session_step_def Let_def dest!: quota_then_Passed)
qed


definition session_middleware :: "bool \<Rightarrow> (nat, nat) middleware" where
  "session_middleware anonymous =
     (combined_auth_middleware None ''x-plexus-api-key'' (Some one_user) False)
       \<lparr>mw_policy := default_policy\<lparr>po_anonymous_view := anonymous, po_credential_cookies := [''sid'']\<rparr>\<rparr>"

lemmas checks_eval =
  checks_def session_middleware_def combined_auth_middleware_def refused_def metadata_response_def
  default_policy_def origin_refused_def key_gate_def quota_then_def take_quota_def header_str_def
  session_step_def identify_session_def bearer_token_def one_user_def stamp_client_def
  no_extensions_def strip_bearer_def


text \<open>No credential: no \<open>Authorization\<close> header, and every credential cookie empty.\<close>

definition bears_no_credential :: "string list \<Rightarrow> header_map \<Rightarrow> bool" where
  "bears_no_credential cookies h \<longleftrightarrow>
     header_get_all h ''authorization'' = [] \<and>
     (\<forall>v \<in> set (header_get_all h ''cookie''). \<forall>line. to_str v = Some line \<longrightarrow>
        (\<forall>pair \<in> set (split_on CHR '';'' line). \<forall>name val. split_once CHR ''='' pair = Some (name, val) \<longrightarrow>
           trim name \<in> set cookies \<longrightarrow> trim val = []))"

lemma in_filter_map: "y \<in> set (filter_map f xs) \<longleftrightarrow> (\<exists>x \<in> set xs. f x = Some y)"
  by (force simp: filter_map_def split: option.splits)

lemma cookie_pair_iff:
  "pr \<in> set (cookie_pairs h) \<longleftrightarrow>
   (\<exists>v \<in> set (header_get_all h ''cookie''). \<exists>line. to_str v = Some line \<and>
      (\<exists>pair \<in> set (split_on CHR '';'' line). split_once CHR ''='' pair = Some pr))"
  by (simp add: cookie_pairs_def in_filter_map) (blast dest: in_filter_map [THEN iffD1] intro: in_filter_map [THEN iffD2])

lemma presents_none:
  "\<not> presents_credential p h \<longleftrightarrow> bears_no_credential (po_credential_cookies p) h"
  unfolding presents_credential_def bears_no_credential_def list_ex_iff contains_key_iff
  by (simp add: cookie_pair_iff Bex_def split_paired_Ex) blast



section \<open>The sockets open on the port\<close>

text \<open>
  A history of the port: requests on connections the accept loop made, each served whole, and
  sockets that end. An open socket is kept as what its permit charges.
\<close>

datatype port_event = Asks request connection | Ends socket

definition socket_of :: "quota_permit \<Rightarrow> socket" where
  "socket_of p = (qp_ip p, case qp_who p of None \<Rightarrow> None | Some w \<Rightarrow> w)"

fun port_run ::
  "('net \<Rightarrow> ip_addr \<Rightarrow> bool) \<Rightarrow> (string \<Rightarrow> bool) \<Rightarrow> nat \<Rightarrow> (string \<Rightarrow> string) \<Rightarrow>
   ('ctx, 'net) middleware \<Rightarrow> port_state \<times> socket list \<Rightarrow> port_event list \<Rightarrow> port_state \<times> socket list"
where
  "port_run nc ok mb ak mw s [] = s"
| "port_run nc ok mb ak mw (st, opened) (Asks r conn # es) =
     (case serve_port nc ok mb ak mw st r (no_extensions\<lparr>ex_connection := Some conn\<rparr>) of
        (st', Answer _) \<Rightarrow> port_run nc ok mb ak mw (st', opened) es
      | (st', Switch _ _ ext _) \<Rightarrow>
          port_run nc ok mb ak mw
            (st', case ex_permit ext of None \<Rightarrow> opened | Some p \<Rightarrow> socket_of p # opened) es)"
| "port_run nc ok mb ak mw (st, opened) (Ends s # es) =
     (if s \<in> set opened
      then port_run nc ok mb ak mw
        (\<lparr>pt_quotas = map_option (\<lambda>q. give_socket (q_identities q) q s) (pt_quotas st),
          pt_shared = release_place (pt_shared st) ()\<rparr>, remove1 s opened) es
      else port_run nc ok mb ak mw (st, opened) es)"

definition port_new :: "connection_quotas \<Rightarrow> bool \<Rightarrow> socket_limits \<Rightarrow> port_state" where
  "port_new l identities limits =
     \<lparr>pt_quotas = Some (quotas_new l identities), pt_shared = shared_new limits (max_connections l)\<rparr>"

definition port_ok :: "connection_quotas \<Rightarrow> bool \<Rightarrow> port_state \<times> socket list \<Rightarrow> bool" where
  "port_ok l i x \<longleftrightarrow>
     (\<exists>q. pt_quotas (fst x) = Some q \<and> sockets.agrees i l (q, snd x) \<and>
          (\<forall>g. quota_count q g \<le> quota_limit l g)) \<and>
     sh_open (pt_shared (fst x)) = length (snd x) \<and> length (snd x) \<le> max_connections l \<and>
     sh_max_connections (pt_shared (fst x)) = max_connections l"

lemma take_quota_result:
  assumes "take_quota (Some q) r ext who = (q', res)" and "ex_permit ext = None"
  shows "case res of
      Inl _ \<Rightarrow> q' = Some q
    | Inr ext' \<Rightarrow>
        (\<exists>ip q2 p. admit q ip who = (q2, Ok p) \<and> q' = Some q2 \<and> ex_permit ext' = Some p) \<or>
        ex_permit ext' = None \<and> q' = Some q \<and> (is_upgrade_request r \<longrightarrow> ex_client ext = None)"
  using assms
  by (auto simp: take_quota_def admit_refused_unchanged split: option.splits if_splits prod.splits sum.splits)

lemma quota_then_result:
  assumes "quota_then (Some q) r ext who k = (q', chk)" and "ex_permit ext = None"
    and "\<And>e. case k e of Refused_with _ \<Rightarrow> False | Passed e' _ \<Rightarrow> ex_permit e' = ex_permit e"
  shows "case chk of
      Refused_with _ \<Rightarrow> q' = Some q
    | Passed ext' _ \<Rightarrow>
        (\<exists>ip who q2 p. admit q ip who = (q2, Ok p) \<and> q' = Some q2 \<and> ex_permit ext' = Some p) \<or>
        ex_permit ext' = None \<and> q' = Some q \<and> (is_upgrade_request r \<longrightarrow> ex_client ext = None)"
proof -
  obtain q1 res where t: "take_quota (Some q) r ext who = (q1, res)" by fastforce
  show ?thesis
  proof (cases res)
    case (Inl resp)
    then show ?thesis using assms(1) t take_quota_result [OF t assms(2)]
      by (auto simp: quota_then_def)
  next
    case (Inr e)
    then have "q' = q1" "chk = k e" using assms(1) t by (simp_all add: quota_then_def)
    then show ?thesis
      using Inr take_quota_result [OF t assms(2)] assms(3) [of e] by (auto split: checked.splits)
  qed
qed

lemma checks_result:
  assumes "fst (checks nc ok mw (Some q) r ext0) = (q', chk)" and "ex_permit ext0 = None"
    and "ex_connection ext0 = Some conn"
  shows "case chk of
      Refused_with _ \<Rightarrow> q' = Some q
    | Passed ext' _ \<Rightarrow>
        (\<exists>ip who q2 p. admit q ip who = (q2, Ok p) \<and> q' = Some q2 \<and> ex_permit ext' = Some p) \<or>
        ex_permit ext' = None \<and> q' = Some q \<and> \<not> is_upgrade_request r"
proof -
  define ext where "ext = stamp_client nc mw r ext0"
  have e: "ex_permit ext = None" "ex_client ext \<noteq> None"
    using assms(2,3) by (simp_all add: ext_def stamp_client_def)
  consider (refused) resp where "(q', chk) = (Some q, Refused_with resp)"
    | (quota) who k where "quota_then (Some q) r ext who k = (q', chk)"
        "\<And>e. case k e of Refused_with _ \<Rightarrow> False | Passed e' _ \<Rightarrow> ex_permit e' = ex_permit e"
  proof -
    have "(\<exists>resp. (q', chk) = (Some q, Refused_with resp)) \<or>
        (\<exists>who k. quota_then (Some q) r ext who k = (q', chk) \<and>
          (\<forall>e. case k e of Refused_with _ \<Rightarrow> False | Passed e' _ \<Rightarrow> ex_permit e' = ex_permit e))"
      using assms(1) unfolding checks_def Let_def ext_def [symmetric]
      by (auto simp: session_step_def Let_def split: option.splits if_splits) (force simp: ext_def)+
    then show ?thesis using that by blast
  qed
  then show ?thesis
  proof cases
    case refused
    then show ?thesis by simp
  next
    case quota
    then show ?thesis using quota_then_result [OF quota(1) e(1)] e(2) by (auto split: checked.splits)
  qed
qed

lemma admit_take:
  assumes "admit q ip who = (q2, Ok p)"
  shows "take_socket q (ip, who) = (q2, True)"
    and "give_socket (q_identities q) q2 (socket_of p) = drop_permit q2 p"
    and "charged_to (q_identities q) (socket_of p) = charged_to (q_identities q) (ip, who)"
  using assms admit_permit [OF assms]
  by (auto simp: take_socket_def give_socket_def socket_of_def permit_of_def)

lemma sockets_agrees_iff:
  "sockets.agrees i l (q, held) \<longleftrightarrow>
   quotas_of l i q \<and> (\<forall>g. quota_count q g = charged (charged_to i) g held)"
  by (simp add: sockets.agrees_def)

lemma agrees_admitted:
  assumes "sockets.agrees i l (q, opened)" and "\<forall>g. quota_count q g \<le> quota_limit l g"
    and "admit q ip who = (q2, Ok p)"
  shows "sockets.agrees i l (q2, socket_of p # opened)" and "\<forall>g. quota_count q2 g \<le> quota_limit l g"
    and "sockets.agrees i l (drop_permit q2 p, opened)"
    and "\<forall>g. quota_count (drop_permit q2 p) g \<le> quota_limit l g"
proof -
  have qi: "q_identities q = i" using assms(1) by (simp add: sockets_agrees_iff quotas_of_def)
  have t: "take_socket q (ip, who) = (q2, True)" by (rule admit_take(1) [OF assms(3)])
  have "sockets.agrees i l (q2, (ip, who) # opened)"
    using sockets.agrees_take [OF assms(1) t] by simp
  then show ag: "sockets.agrees i l (q2, socket_of p # opened)"
    using admit_take(3) [OF assms(3)] qi by (simp add: sockets_agrees_iff)
  show "\<forall>g. quota_count q2 g \<le> quota_limit l g"
    using sockets.take_bounded [of l i q "(ip, who)"] assms(1,2) t by (simp add: sockets_agrees_iff)
  have "sockets.agrees i l (give_socket i q2 (socket_of p), opened)"
    using sockets.agrees_give [OF ag, of "socket_of p"] by simp
  then show d: "sockets.agrees i l (drop_permit q2 p, opened)"
    using admit_take(2) [OF assms(3)] qi by simp
  show "\<forall>g. quota_count (drop_permit q2 p) g \<le> quota_limit l g"
    using d assms(1,2) by (simp add: sockets_agrees_iff)
qed

lemma serve_port_ok:
  assumes "port_ok l i (st, opened)"
    and "serve_port nc ok mb ak mw st r (no_extensions\<lparr>ex_connection := Some conn\<rparr>) = (st', out)"
  shows "case out of
      Answer _ \<Rightarrow> port_ok l i (st', opened)
    | Switch _ _ ext _ \<Rightarrow> \<exists>p. ex_permit ext = Some p \<and> port_ok l i (st', socket_of p # opened)"
proof -
  let ?ext0 = "no_extensions\<lparr>ex_connection := Some conn\<rparr>"
  obtain q where q: "pt_quotas st = Some q" "sockets.agrees i l (q, opened)"
      "\<forall>g. quota_count q g \<le> quota_limit l g"
    and sh: "sh_open (pt_shared st) = length opened" "length opened \<le> max_connections l"
      "sh_max_connections (pt_shared st) = max_connections l"
    using assms(1) by (auto simp: port_ok_def)
  obtain q' chk where c: "fst (checks nc ok mw (Some q) r ?ext0) = (q', chk)" by fastforce
  show ?thesis
  proof (cases chk)
    case (Refused_with resp)
    then have "q' = Some q" using checks_result [OF c] by (simp add: no_extensions_def)
    then show ?thesis using assms c q Refused_with by (auto simp: serve_port_def port_ok_def)
  next
    case (Passed ext w)
    have res: "(\<exists>ip who q2 p. admit q ip who = (q2, Ok p) \<and> q' = Some q2 \<and> ex_permit ext = Some p) \<or>
        ex_permit ext = None \<and> q' = Some q \<and> \<not> is_upgrade_request r"
      using checks_result [OF c] Passed by (simp add: no_extensions_def)
    obtain sh' o' where u: "upgrade mb ak (pt_shared st) r ext = (sh', o')" by fastforce
    note shared = upgrade_shared [OF u]
    show ?thesis
    proof (cases o')
      case (Answer resp)
      then have st': "out = Answer resp" "pt_shared st' = pt_shared st"
          "pt_quotas st' = (case ex_permit ext of None \<Rightarrow> q' | Some p \<Rightarrow> map_option (\<lambda>qs. drop_permit qs p) q')"
        using assms(2) c q(1) Passed u shared by (auto simp: serve_port_def)
      from res show ?thesis
      proof (elim disjE exE conjE)
        fix ip who q2 p assume "admit q ip who = (q2, Ok p)" "q' = Some q2" "ex_permit ext = Some p"
        then show ?thesis
          using st' sh agrees_admitted(3,4) [OF q(2,3)] by (auto simp: port_ok_def)
      qed (use st' sh q in \<open>auto simp: port_ok_def\<close>)
    next
      case (Switch resp conn' ext' n)
      then have st': "out = Switch resp conn' ext' n" "pt_shared st' = (pt_shared st)\<lparr>sh_open := sh_open (pt_shared st) + 1\<rparr>"
          "pt_quotas st' = q'"
        using assms(2) c q(1) Passed u shared by (auto simp: serve_port_def)
      have up: "is_upgrade_request r" "ex_permit ext' = ex_permit ext"
          "sh_open (pt_shared st) < sh_max_connections (pt_shared st)"
        using upgrade_Switch [OF u [unfolded Switch]] by auto
      from res up(1) obtain ip who q2 p
        where "admit q ip who = (q2, Ok p)" "q' = Some q2" "ex_permit ext = Some p" by blast
      then show ?thesis
        using st' up sh agrees_admitted(1,2) [OF q(2,3)] by (auto simp: port_ok_def)
    qed
  qed
qed

lemma port_run_ok:
  "port_ok l i x \<Longrightarrow> port_ok l i (port_run nc ok mb ak mw x es)"
proof (induction nc ok mb ak mw x es rule: port_run.induct)
  case (2 nc ok mb ak mw st opened r conn es)
  obtain st' out where sp: "serve_port nc ok mb ak mw st r (no_extensions\<lparr>ex_connection := Some conn\<rparr>) = (st', out)"
    by fastforce
  from serve_port_ok [OF 2(3) sp] show ?case
    using 2(1,2) sp by (cases out) auto
next
  case (3 nc ok mb ak mw st opened s es)
  show ?case
  proof (cases "s \<in> set opened")
    case True
    obtain q where q: "pt_quotas st = Some q" "sockets.agrees i l (q, opened)"
        "\<forall>g. quota_count q g \<le> quota_limit l g"
      using 3(3) by (auto simp: port_ok_def)
    have qi: "q_identities q = i" using q(2) by (simp add: sockets_agrees_iff quotas_of_def)
    have give: "sockets.agrees i l (give_socket i q s, remove1 s opened)"
      using sockets.agrees_give [OF q(2) True] .
    have "\<forall>g. quota_count (give_socket i q s) g \<le> quota_limit l g"
    proof
      fix g
      have "quota_count (give_socket i q s) g \<le> quota_count q g"
        using give_socket_count [OF qi] by simp
      then show "quota_count (give_socket i q s) g \<le> quota_limit l g" using q(3) le_trans by blast
    qed
    then show ?thesis
      using 3 True q qi give by (auto simp: port_ok_def release_place_def length_remove1)
  next
    case False
    then show ?thesis using 3 by simp
  qed
qed simp

lemma port_new_ok: "port_ok l i (port_new l i limits, [])"
  using quotas_new_start [of l i] by (simp add: port_ok_def port_new_def shared_new_def sockets_agrees_iff)

text \<open>
  C2. Whatever requests come and however they are answered, the sockets open on the port are
  exactly what its counts say: the total and every quota count the open sockets and nothing else,
  and none is past its limit. A request refused by a later check, by the total, or for a bad
  upgrade gives back every place it took on the way.
\<close>

theorem the_port_counts_exactly_its_open_sockets:
  assumes "port_run nc ok mb ak mw (port_new l i limits, []) es = (st, opened)"
  shows "sh_open (pt_shared st) = length opened \<and> length opened \<le> max_connections l \<and>
    (\<exists>q. pt_quotas st = Some q \<and>
       (\<forall>g. quota_count q g = charged (charged_to i) g opened \<and> quota_count q g \<le> quota_limit l g))"
  using port_run_ok [OF port_new_ok, of l i nc ok mb ak mw limits es] assms
  by (auto simp: port_ok_def sockets_agrees_iff)

lemma the_port_counts_exactly_its_open_sockets_witness:
  "case port_run no_net (\<lambda>_. True) 8 id (session_middleware True)
      (port_new default_quotas True default_limits, [])
      [Asks (upgrade_request [(''cookie'', Text ''sid=1'')]) sample_connection,
       Asks (upgrade_request []) sample_connection, Ends (localhost, None)] of
     (st, opened) \<Rightarrow>
       sh_open (pt_shared st) = length opened \<and> length opened \<le> max_connections default_quotas \<and>
       (\<exists>q. pt_quotas st = Some q \<and>
          (\<forall>g. quota_count q g = charged (charged_to True) g opened \<and>
               quota_count q g \<le> quota_limit default_quotas g))"
proof -
  obtain st opened where p: "port_run no_net (\<lambda>_. True) 8 id (session_middleware True)
      (port_new default_quotas True default_limits, [])
      [Asks (upgrade_request [(''cookie'', Text ''sid=1'')]) sample_connection,
       Asks (upgrade_request []) sample_connection, Ends (localhost, None)] = (st, opened)"
    by fastforce
  show ?thesis
    unfolding p prod.case by (rule the_port_counts_exactly_its_open_sockets [OF p])
qed

section \<open>The metadata\<close>

text \<open>
  The metadata a 401 names is there for anyone who can name the host: a \<open>GET\<close> of the path in
  its URL, with any trailing slashes, is answered with the document, whatever the origin, the key
  or the session, with no place taken and nothing asked of the validator.
\<close>

theorem the_metadata_is_served_to_anyone:
  assumes "po_metadata (mw_policy mw) = Some (prepare to_json p)"
    and "refused (mw_allowed_hosts mw) r = None" and "rq_method r = ''GET''"
    and "rq_path r = metadata_path p @ replicate k CHR ''/''"
  shows "\<exists>resp. checks nc ok mw quotas r ext = ((quotas, Refused_with resp), []) \<and>
    rp_status resp = 200 \<and> rp_body resp = to_json p \<and>
    metadata_url p = fst (split_origin (pr_resource p)) @ metadata_path p"
proof -
  have "trim_end_matches CHR ''/'' (rq_path r) = metadata_path p"
    using assms(4) metadata_path_trimmed [of p]
    by (simp add: trim_end_append) (simp add: trim_end_matches_def)
  then show ?thesis
    using assms(1-3) by (simp add: checks_def metadata_response_def prepare_def metadata_url_def Let_def)
qed

lemma the_metadata_is_served_to_anyone_witness:
  "let p = new_resource ''https://a.b/mcp?x'' [''https://as''];
       mw = keyed_middleware\<lparr>mw_policy := default_policy\<lparr>po_metadata := Some (prepare pr_resource p)\<rparr>\<rparr>;
       r = \<lparr>rq_method = ''GET'', rq_path = metadata_path p @ ''/'', rq_query = None,
            rq_authority = None, rq_headers = []\<rparr> in
   \<exists>resp. checks no_net (\<lambda>_. True) mw None r (no_extensions :: nat extensions) = ((None, Refused_with resp), []) \<and>
    rp_status resp = 200 \<and> rp_body resp = pr_resource p \<and>
    metadata_url p = fst (split_origin (pr_resource p)) @ metadata_path p"
  unfolding Let_def
  by (rule the_metadata_is_served_to_anyone [where k = 1])
    (simp_all add: keyed_middleware_def combined_auth_middleware_def refused_def)

end
