(* ===== verification/Listener.thy ===== *)
theory Listener
  imports Port
begin

text \<open>
  The WebSocket's listener (websocket.rs): what \<open>serve_websocket_with\<close> makes of a
  configuration, the accept loop and its bound on an address's sockets not yet upgraded (RPC-4),
  and the port shared with the host's own routes (TRANSPORT-26). The host's router is axum's: an
  argument.
\<close>

section \<open>Setting up\<close>

record 'net listener =
  ls_addr :: socket_addr
  ls_pending :: "ip_addr counts"
  ls_per_ip :: nat
  ls_per_proxy :: nat
  ls_proxies :: "'net trusted_proxies"
  ls_max_calls :: nat
  ls_tls :: bool
  ls_counter :: u64
  ls_running :: bool
  ls_routes :: "host_routes option"
  ls_hooks :: "nat option"

definition per_ip_bound :: "socket_limits \<Rightarrow> connection_quotas \<Rightarrow> nat" where
  "per_ip_bound limits q = (case max_pending_per_ip limits of Some n \<Rightarrow> n | None \<Rightarrow> max_per_ip q)"

definition middleware_of ::
  "(protected_resource \<Rightarrow> string) \<Rightarrow> 'net websocket_config \<Rightarrow> 'ctx validator option \<Rightarrow> upgrade_options \<Rightarrow>
   ('ctx, 'net) middleware" where
  "middleware_of to_json c validator opts =
     \<lparr>mw_api_key = wsc_api_key c, mw_api_key_header = wsc_api_key_header c, mw_validator = validator,
      mw_reject = uo_reject_on_session_failure opts,
      mw_allowed_origins = normalized_origins (wsc_allowed_origins c),
      mw_allowed_hosts = normalized (wsc_allowed_hosts c), mw_policy = policy_of to_json opts,
      mw_proxies = wsc_trusted_proxies c\<rparr>"

text \<open>
  The server as it starts: the address bound, the accept loop's state, the checks, and the port's
  counts. Binding the address and loading the TLS pair may fail.
\<close>

definition serve_websocket_with ::
  "(protected_resource \<Rightarrow> string) \<Rightarrow> (socket_addr \<Rightarrow> string + socket_addr) \<Rightarrow> (tls_config \<Rightarrow> string + unit) \<Rightarrow>
   u64 \<Rightarrow> 'net websocket_config \<Rightarrow> 'ctx validator option \<Rightarrow> upgrade_options \<Rightarrow>
   string + ('net listener \<times> ('ctx, 'net) middleware \<times> port_state)"
where
  "serve_websocket_with to_json bind load_tls counter c validator opts =
     (let per_ip = per_ip_bound (uo_limits opts) (wsc_quotas c) in
      case bind (wsc_addr c) of
        Inl e \<Rightarrow> Err e
      | Inr local_addr \<Rightarrow>
          (case (case wsc_tls c of None \<Rightarrow> Ok () | Some t \<Rightarrow> load_tls t) of
             Inl e \<Rightarrow> Err e
           | Inr _ \<Rightarrow>
               Ok (\<lparr>ls_addr = local_addr, ls_pending = Map.empty, ls_per_ip = per_ip,
                    ls_per_proxy = max (max_connections (wsc_quotas c)) per_ip,
                    ls_proxies = wsc_trusted_proxies c,
                    ls_max_calls = max_calls_per_connection (wsc_quotas c),
                    ls_tls = (wsc_tls c \<noteq> None), ls_counter = counter, ls_running = True,
                    ls_routes = uo_routes opts, ls_hooks = uo_hooks opts\<rparr>,
                   middleware_of to_json c validator opts,
                   port_new (wsc_quotas c) (validator \<noteq> None) (uo_limits opts))))"

definition serve_websocket ::
  "(protected_resource \<Rightarrow> string) \<Rightarrow> (socket_addr \<Rightarrow> string + socket_addr) \<Rightarrow> (tls_config \<Rightarrow> string + unit) \<Rightarrow>
   u64 \<Rightarrow> 'net websocket_config \<Rightarrow> 'ctx validator option \<Rightarrow> bool \<Rightarrow>
   string + ('net listener \<times> ('ctx, 'net) middleware \<times> port_state)"
where
  "serve_websocket to_json bind load_tls counter c validator reject =
     serve_websocket_with to_json bind load_tls counter c validator
       (default_options\<lparr>uo_reject_on_session_failure := reject\<rparr>)"

section \<open>The accept loop\<close>

datatype accept_event = Accepted socket_addr | Accept_failed string | Upgraded_one ip_addr | Stop_seen

text \<open>
  One turn: a socket past its address's bound is dropped before a byte is read; the other becomes
  a connection. An accept error pauses the loop; the stop ends it. (\<open>Upgraded_one\<close> is not the
  loop's: a place given back in between.)
\<close>

definition pending_bound :: "('net \<Rightarrow> ip_addr \<Rightarrow> bool) \<Rightarrow> 'net listener \<Rightarrow> ip_addr \<Rightarrow> nat" where
  "pending_bound nc ls ip = (if tp_contains nc (ls_proxies ls) ip then ls_per_proxy ls else ls_per_ip ls)"

definition accept_socket ::
  "('net \<Rightarrow> ip_addr \<Rightarrow> bool) \<Rightarrow> 'net listener \<Rightarrow> socket_addr \<Rightarrow> 'net listener \<times> connection option" where
  "accept_socket nc ls peer =
     (case pending_take (pending_bound nc ls (sa_ip peer)) (ls_pending ls) (sa_ip peer) of
        (m, False) \<Rightarrow> (ls\<lparr>ls_pending := m\<rparr>, None)
      | (m, True) \<Rightarrow>
          (case connection_new (ls_counter ls) peer (ls_max_calls ls) (Some (sa_ip peer)) of
             (counter, conn) \<Rightarrow>
               (ls\<lparr>ls_pending := m, ls_counter := counter\<rparr>,
                Some (if ls_tls ls then over_tls True conn else conn))))"

fun accept_loop ::
  "('net \<Rightarrow> ip_addr \<Rightarrow> bool) \<Rightarrow> 'net listener \<times> connection list \<Rightarrow> accept_event list \<Rightarrow>
   'net listener \<times> connection list"
where
  "accept_loop nc s [] = s"
| "accept_loop nc (ls, conns) (e # es) =
     (if \<not> ls_running ls then
        (case e of
           Upgraded_one ip \<Rightarrow> accept_loop nc (ls\<lparr>ls_pending := pending_drop (ls_pending ls) ip\<rparr>, conns) es
         | _ \<Rightarrow> accept_loop nc (ls, conns) es)
      else case e of
        Accepted peer \<Rightarrow>
          (case accept_socket nc ls peer of
             (ls', None) \<Rightarrow> accept_loop nc (ls', conns) es
           | (ls', Some c) \<Rightarrow> accept_loop nc (ls', conns @ [c]) es)
      | Accept_failed _ \<Rightarrow> accept_loop nc (ls, conns) es
      | Upgraded_one ip \<Rightarrow> accept_loop nc (ls\<lparr>ls_pending := pending_drop (ls_pending ls) ip\<rparr>, conns) es
      | Stop_seen \<Rightarrow> accept_loop nc (ls\<lparr>ls_running := False\<rparr>, conns) es)"

section \<open>The host's own routes\<close>

datatype 'ctx routed =
    To_socket
  | Host_refused response
  | To_routes "'ctx extensions"

definition route_request ::
  "('net \<Rightarrow> ip_addr \<Rightarrow> bool) \<Rightarrow> host_routes \<Rightarrow> string list \<Rightarrow> 'net trusted_proxies \<Rightarrow> request \<Rightarrow>
   'ctx extensions \<Rightarrow> 'ctx routed"
where
  "route_request nc routes hosts proxies r ext =
     (if rq_path r = hr_socket_path routes \<or> starts_with WELL_KNOWN_PATH (rq_path r) then To_socket
      else case refused hosts r of
        Some _ \<Rightarrow> Host_refused \<lparr>rp_status = 421, rp_headers = [text_plain], rp_body = REFUSAL\<rparr>
      | None \<Rightarrow>
          To_routes
            (case ex_connection ext of
               None \<Rightarrow> ext
             | Some conn \<Rightarrow> ext\<lparr>ex_client := Some (client_of nc proxies conn (rq_headers r))\<rparr>))"

section \<open>Properties\<close>

definition bounded_pending :: "('net \<Rightarrow> ip_addr \<Rightarrow> bool) \<Rightarrow> 'net listener \<Rightarrow> bool" where
  "bounded_pending nc ls \<longleftrightarrow> (\<forall>ip. count_of (ls_pending ls) ip \<le> pending_bound nc ls ip)"

lemma accept_socket_bounded:
  assumes "accept_socket nc ls peer = (ls', c)" and "bounded_pending nc ls"
  shows "bounded_pending nc ls'" and "ls_running ls' = ls_running ls" and "ls_tls ls' = ls_tls ls"
proof -
  obtain m ok where t: "pending_take (pending_bound nc ls (sa_ip peer)) (ls_pending ls) (sa_ip peer) = (m, ok)"
    by fastforce
  have ok: "ok \<longleftrightarrow> count_of (ls_pending ls) (sa_ip peer) < pending_bound nc ls (sa_ip peer)"
    using pending_take_ok [of "pending_bound nc ls (sa_ip peer)" "ls_pending ls" "sa_ip peer"] t by simp
  have le: "count_of m ip \<le> pending_bound nc ls ip" for ip
    using pending_take_count [OF t, of ip] ok assms(2) by (auto simp: bounded_pending_def)
  have ls': "ls_pending ls' = m \<and> ls_proxies ls' = ls_proxies ls \<and> ls_per_ip ls' = ls_per_ip ls \<and>
      ls_per_proxy ls' = ls_per_proxy ls \<and> ls_running ls' = ls_running ls \<and> ls_tls ls' = ls_tls ls"
    using assms(1) t by (cases ok) (auto simp: accept_socket_def split: prod.splits)
  then show "ls_running ls' = ls_running ls" "ls_tls ls' = ls_tls ls" by simp_all
  have "pending_bound nc ls' ip = pending_bound nc ls ip" for ip using ls' by (simp add: pending_bound_def)
  then show "bounded_pending nc ls'" using ls' le by (simp add: bounded_pending_def)
qed

lemma drop_bounded:
  assumes "bounded_pending nc ls"
  shows "bounded_pending nc (ls\<lparr>ls_pending := pending_drop (ls_pending ls) ip\<rparr>)"
proof -
  have "count_of (pending_drop (ls_pending ls) ip) j \<le> count_of (ls_pending ls) j" for j
    by (simp add: pending_drop_down gauge_simps)
  moreover have "pending_bound nc (ls\<lparr>ls_pending := m\<rparr>) j = pending_bound nc ls j" for m j
    by (simp add: pending_bound_def)
  ultimately show ?thesis using assms le_trans unfolding bounded_pending_def
    by (metis listener.select_convs(2) listener.surjective listener.update_convs(2))
qed

lemma accept_loop_bounded:
  "accept_loop nc (ls, conns) es = (ls', conns') \<Longrightarrow> bounded_pending nc ls \<Longrightarrow> bounded_pending nc ls'"
proof (induction nc "(ls, conns)" es arbitrary: ls conns rule: accept_loop.induct)
  case (2 nc ls conns e es)
  have "pending_bound nc (ls\<lparr>ls_running := False\<rparr>) ip = pending_bound nc ls ip" for ip
    by (simp add: pending_bound_def)
  then have stop: "bounded_pending nc (ls\<lparr>ls_running := False\<rparr>)"
    using "2.prems"(2) by (simp add: bounded_pending_def)
  show ?case
  proof (cases "ls_running ls")
    case False
    then show ?thesis using 2 drop_bounded by (cases e) auto
  next
    case True
    show ?thesis
    proof (cases e)
      case (Accepted peer)
      obtain ls2 c where a: "accept_socket nc ls peer = (ls2, c)" by fastforce
      then show ?thesis using 2 True Accepted accept_socket_bounded(1) [OF a] by (cases c) auto
    qed (use 2 True drop_bounded stop in auto)
  qed
qed simp



text \<open>
  Beside the host's own routes the socket's checks still stand alone on the socket's path and
  the metadata's, and the host's routes answer only the host names that are listed: a request
  reaches them only off both paths and by a listed name, and with the client its proxies say.
\<close>

theorem the_hosts_routes_answer_only_listed_names:
  assumes "route_request nc routes hosts proxies r ext = To_routes ext'" and "hosts \<noteq> []"
  shows "(\<exists>h. named_host r = Some h \<and> h \<in> set hosts) \<and> rq_path r \<noteq> hr_socket_path routes \<and>
    \<not> starts_with WELL_KNOWN_PATH (rq_path r) \<and>
    (\<forall>conn. ex_connection ext = Some conn \<longrightarrow> ex_client ext' = Some (client_of nc proxies conn (rq_headers r)))"
  using assms refused_None_iff [of hosts r]
  by (auto simp: route_request_def split: if_splits option.splits)

lemma the_hosts_routes_answer_only_listed_names_witness:
  "let r = \<lparr>rq_method = ''GET'', rq_path = ''/'', rq_query = None, rq_authority = None,
            rq_headers = [(''host'', Text ''LocalHost:80'')]\<rparr>; hosts = [''localhost:80''] in
   (\<exists>h. named_host r = Some h \<and> h \<in> set hosts) \<and> rq_path r \<noteq> hr_socket_path host_routes_new \<and>
    \<not> starts_with WELL_KNOWN_PATH (rq_path r) \<and>
    (\<forall>conn. ex_connection (no_extensions :: nat extensions) = Some conn \<longrightarrow>
       ex_client (no_extensions :: nat extensions) = Some (client_of no_net tp_none conn (rq_headers r)))"
  unfolding Let_def
  by (rule the_hosts_routes_answer_only_listed_names
      [where routes = host_routes_new and nc = no_net and proxies = tp_none])
    (simp_all add: route_request_def host_routes_new_def starts_with_def WELL_KNOWN_PATH_def refused_def
      normalize_def trim_def trim_with_def is_whitespace_def to_ascii_lowercase_def ascii_lower_def
      code_def char_of_def bit_iff_odd no_extensions_def)

text \<open>
  A connection over the transport's own TLS is secure from its peer with no forwarded header;
  through a trusted proxy only the proxy's word counts; and nothing else makes a client secure but
  a direct loopback peer with no proxy in front.
\<close>

theorem what_makes_a_client_secure:
  "fc_secure (client_of nc proxies conn h) \<longleftrightarrow>
     (if fc_via_proxy (resolve nc proxies (sa_ip (cn_peer conn)) h)
      then fc_secure (resolve nc proxies (sa_ip (cn_peer conn)) h)
      else cn_tls conn \<or> is_loopback (canonical (sa_ip (cn_peer conn))) \<and> \<not> behind_proxy proxies)"
  by (auto simp: client_of_def resolve_def Let_def split: prod.splits)

end
