(* ===== verification/RequestFields.thy ===== *)
theory RequestFields
  imports Connection Tls
begin

text \<open>
  request/client_ip.rs, request/origin.rs and request/transport.rs: the fields a handler takes
  from a request's raw context. Each has a process-wide setting made once (\<open>OnceLock\<close>): the
  first value set stays. The raw context is plexus-core's: its headers and its peer.
\<close>

record raw_context =
  rc_headers :: header_map
  rc_peer :: "socket_addr option"

datatype plexus_error = Unauthenticated string

section \<open>The client's address\<close>

definition init_trust_proxy_headers :: "bool \<Rightarrow> bool option \<Rightarrow> bool option" where
  "init_trust_proxy_headers trust cell = init_once cell trust"

definition client_ip_resolve ::
  "('net \<Rightarrow> ip_addr \<Rightarrow> bool) \<Rightarrow> raw_context \<Rightarrow> 'net trusted_proxies \<Rightarrow> ip_addr" where
  "client_ip_resolve nc ctx proxies =
     (case rc_peer ctx of
        Some a \<Rightarrow> client_ip nc proxies (sa_ip a) (rc_headers ctx)
      | None \<Rightarrow> V4 0)"

text \<open>
  Extraction: trusted proxies decide when they were named; the deprecated switch lets forwarded
  headers from any peer choose.
\<close>

definition legacy_client_ip :: "header_map \<Rightarrow> ip_addr option" where
  "legacy_client_ip h =
     (case Option.bind (header_str h ''x-forwarded-for'')
             (\<lambda>xff. parse_ip_addr (trim (hd (split_on CHR '','' xff)))) of
        Some ip \<Rightarrow> Some ip
      | None \<Rightarrow> Option.bind (header_str h ''x-real-ip'') (\<lambda>x. parse_ip_addr (trim x)))"

definition extract_client_ip ::
  "('net \<Rightarrow> ip_addr \<Rightarrow> bool) \<Rightarrow> 'net trusted_proxies \<Rightarrow> bool option \<Rightarrow> raw_context \<Rightarrow> plexus_error + ip_addr"
where
  "extract_client_ip nc proxies trust ctx =
     (if configured proxies then Ok (client_ip_resolve nc ctx proxies)
      else case (if trust = Some True then legacy_client_ip (rc_headers ctx) else None) of
             Some ip \<Rightarrow> Ok ip
           | None \<Rightarrow> Ok (client_ip_resolve nc ctx proxies))"

section \<open>The origin\<close>

definition init_allowed_origins :: "string list \<Rightarrow> string list option \<Rightarrow> string list option" where
  "init_allowed_origins origins cell = init_once cell origins"

definition extract_valid_origin :: "string list option \<Rightarrow> raw_context \<Rightarrow> plexus_error + string" where
  "extract_valid_origin allowed ctx =
     (case header_str (rc_headers ctx) ''origin'' of
        None \<Rightarrow> Ok []
      | Some origin \<Rightarrow>
          (case allowed of
             None \<Rightarrow> Ok origin
           | Some list \<Rightarrow>
               if list = [] then Ok origin
               else if List.member list origin then Ok origin
               else Err (Unauthenticated (''Origin '' @ [CHR 0x27] @ origin @ [CHR 0x27] @ '' is not allowed''))))"

section \<open>Secure transport\<close>

definition init_require_secure_transport :: "bool \<Rightarrow> bool option \<Rightarrow> bool option" where
  "init_require_secure_transport require cell = init_once cell require"

definition secure_check ::
  "('net \<Rightarrow> ip_addr \<Rightarrow> bool) \<Rightarrow> socket_addr counts \<Rightarrow> 'net trusted_proxies \<Rightarrow> raw_context \<Rightarrow>
   plexus_error + unit"
where
  "secure_check nc tls_peers proxies ctx =
     (case rc_peer ctx of
        None \<Rightarrow> Err (Unauthenticated ''Secure transport required (no peer address)'')
      | Some peer \<Rightarrow>
          (let client = resolve nc proxies (sa_ip peer) (rc_headers ctx) in
           if fc_secure client then Ok ()
           else if \<not> fc_via_proxy client \<and> is_tls_peer tls_peers peer then Ok ()
           else Err (Unauthenticated
             (if fc_via_proxy client
              then case header_str (rc_headers ctx) ''x-forwarded-proto'' of
                     Some p \<Rightarrow> ''Secure transport required, got X-Forwarded-Proto: '' @ p
                   | None \<Rightarrow> ''Secure transport required (X-Forwarded-Proto header missing)''
              else ''Secure transport required (not through a trusted proxy)''))))"

definition extract_secure_transport ::
  "('net \<Rightarrow> ip_addr \<Rightarrow> bool) \<Rightarrow> socket_addr counts \<Rightarrow> 'net trusted_proxies \<Rightarrow> bool option \<Rightarrow>
   raw_context \<Rightarrow> plexus_error + unit"
where
  "extract_secure_transport nc tls_peers proxies require ctx =
     (if require \<noteq> Some True then Ok () else secure_check nc tls_peers proxies ctx)"

section \<open>Properties\<close>



text \<open>
  With an allow-list, a handler takes only an origin on it, or none; and an \<open>Origin\<close> that is
  not text is taken for none, so it passes every list (the upgrade's own check refuses it).
\<close>

theorem a_handler_takes_only_listed_origins:
  assumes "origins \<noteq> []"
  shows "extract_valid_origin (init_allowed_origins origins None) ctx = Ok origin \<longleftrightarrow>
    (origin \<in> set origins \<and> header_str (rc_headers ctx) ''origin'' = Some origin) \<or>
    (origin = [] \<and> (\<not> contains_key (rc_headers ctx) ''origin'' \<or>
       (\<exists>b. header_get (rc_headers ctx) ''origin'' = Some (Opaque b))))"
proof (cases "header_get (rc_headers ctx) ''origin''")
  case None
  then have "\<not> contains_key (rc_headers ctx) ''origin''" by (simp add: header_get_None)
  with None show ?thesis by (auto simp: extract_valid_origin_def header_str_def)
next
  case (Some v)
  then have c: "contains_key (rc_headers ctx) ''origin''"
    using header_get_None by (metis option.distinct(1))
  show ?thesis
    using Some c assms
    by (cases v) (auto simp: extract_valid_origin_def init_allowed_origins_def init_once_def header_str_def)
qed

lemma a_handler_takes_only_listed_origins_witness:
  "extract_valid_origin (init_allowed_origins [''https://a''] None)
     \<lparr>rc_headers = [(''origin'', Opaque ''https://evil'')], rc_peer = None\<rparr> = Ok [] \<longleftrightarrow>
   ([] \<in> set [''https://a''] \<and> header_str [(''origin'', Opaque ''https://evil'')] ''origin'' = Some []) \<or>
   ([] = ([] :: string) \<and> (\<not> contains_key [(''origin'', Opaque ''https://evil'')] ''origin'' \<or>
      (\<exists>b. header_get [(''origin'', Opaque ''https://evil'')] ''origin'' = Some (Opaque b))))"
  using a_handler_takes_only_listed_origins
    [of "[''https://a'']" "\<lparr>rc_headers = [(''origin'', Opaque ''https://evil'')], rc_peer = None\<rparr>" "[]"]
  by simp

end
