(* ===== verification/Tls_Listener.thy ===== *)
theory Tls_Listener
  imports Tls "HOL-Library.Multiset"
begin

text \<open>
  tls.rs, \<open>TlsListener\<close>: the accept loop gives each socket a task of its own for its handshake,
  a finished one waits for room in a channel of 128, and axum takes them from there. Every stream
  whose handshake is done (\<open>TlsIo\<close>) holds its peer's place among the process's secure peers
  until it is dropped, wherever it is by then.
\<close>

section \<open>The suites a listener offers\<close>

text \<open>
  \<open>provider\<close>: ring's suites, sorted by this side's preference and otherwise as they come. A
  suite this side does not rank is its name.
\<close>

datatype cipher_suite =
  TLS13_AES_128_GCM_SHA256 | TLS13_AES_256_GCM_SHA384 | TLS13_CHACHA20_POLY1305_SHA256
| Other_suite string

fun suite_rank :: "cipher_suite \<Rightarrow> nat" where
  "suite_rank TLS13_AES_128_GCM_SHA256 = 0"
| "suite_rank TLS13_AES_256_GCM_SHA384 = 1"
| "suite_rank TLS13_CHACHA20_POLY1305_SHA256 = 2"
| "suite_rank (Other_suite _) = 3"

definition provider :: "cipher_suite list \<Rightarrow> cipher_suite list" where
  "provider ring = sort_key suite_rank ring"

text \<open>
  What \<open>Tls::load\<close> gives rustls beside the pair: the provider's suites, this side's order
  before the client's, and HTTP/1.1 as the only protocol.
\<close>

record server_side =
  sd_suites :: "cipher_suite list"
  sd_alpn :: "string list"
  sd_ignore_client_order :: bool

definition server_side_of :: "cipher_suite list \<Rightarrow> server_side" where
  "server_side_of ring =
     \<lparr>sd_suites = provider ring, sd_alpn = [''http/1.1''], sd_ignore_client_order = True\<rparr>"

lemma provider_keeps: "mset (provider ring) = mset ring" "set (provider ring) = set ring"
  by (simp_all add: provider_def)

lemma provider_prefers_aes_128:
  assumes "TLS13_AES_128_GCM_SHA256 \<in> set ring"
  shows "hd (provider ring) = TLS13_AES_128_GCM_SHA256"
proof -
  let ?s = "provider ring"
  have sorted: "sorted (map suite_rank ?s)" by (simp add: provider_def)
  obtain x xs where s: "?s = x # xs" using assms by (cases ?s) (auto simp: provider_def dest: arg_cong [of _ _ set])
  have "suite_rank x \<le> suite_rank y" if "y \<in> set ?s" for y
    using sorted that by (auto simp: s)
  from this [of TLS13_AES_128_GCM_SHA256] assms have "suite_rank x = 0" by (simp add: provider_keeps)
  then show ?thesis by (cases x) (simp_all add: s)
qed

section \<open>The listener\<close>

text \<open>
  A connection is the number it was accepted under and its peer. \<open>tl_held\<close> are the streams axum
  holds, \<open>tl_elsewhere\<close> the peers of the streams of the process's other listeners, and
  \<open>tl_handed\<close> every connection axum was handed so far, in order. \<open>tl_open\<close> says that axum still
  has the listener, \<open>tl_accepting\<close> that its accept loop still runs.
\<close>

record tls_listener =
  tl_accepting :: bool
  tl_open :: bool
  tl_next :: nat
  tl_shaking :: "(nat \<times> socket_addr) list"
  tl_sending :: "(nat \<times> socket_addr) list"
  tl_ready :: "(nat \<times> socket_addr) list"
  tl_held :: "(nat \<times> socket_addr) list"
  tl_handed :: "nat list"
  tl_elsewhere :: "socket_addr list"
  tl_said :: "ip_addr set"
  tl_peers :: "socket_addr counts"

definition tls_listener_new :: tls_listener where
  "tls_listener_new =
     \<lparr>tl_accepting = True, tl_open = True, tl_next = 0, tl_shaking = [], tl_sending = [],
      tl_ready = [], tl_held = [], tl_handed = [], tl_elsewhere = [], tl_said = {},
      tl_peers = Map.empty\<rparr>"

definition READY_QUEUE :: nat where "READY_QUEUE = 128"

text \<open>Streams dropped: each gives its peer's place back.\<close>

definition drop_streams :: "(nat \<times> socket_addr) list \<Rightarrow> socket_addr counts \<Rightarrow> socket_addr counts" where
  "drop_streams xs peers = foldl secure_peer_drop peers (map snd xs)"

text \<open>
  The steps: \<open>outcome i\<close> is how the handshake of the \<open>i\<close>-th connection goes. The loop ends once
  axum has dropped the listener; a connection whose handshake finishes later is dropped when its
  send fails, and the ones waiting in the channel are dropped with it.
\<close>

inductive tls_listen :: "(nat \<Rightarrow> handshake) \<Rightarrow> tls_listener \<Rightarrow> tls_listener \<Rightarrow> bool" for outcome where
  tl_accepts:
    "tl_accepting l \<Longrightarrow>
     tls_listen outcome l
       (l\<lparr>tl_next := tl_next l + 1, tl_shaking := (tl_next l, peer) # tl_shaking l\<rparr>)"
| tl_accept_fails:
    "tl_accepting l \<Longrightarrow> tls_listen outcome l l"
| tl_loop_ends:
    "tl_accepting l \<Longrightarrow> \<not> tl_open l \<Longrightarrow> tls_listen outcome l (l\<lparr>tl_accepting := False\<rparr>)"
| tl_shakes:
    "(i, peer) \<in> set (tl_shaking l) \<Longrightarrow>
     tls_accept (outcome i) (tl_said l, tl_peers l) peer = ((said, peers), (ok, words)) \<Longrightarrow>
     tls_listen outcome l
       (l\<lparr>tl_shaking := remove1 (i, peer) (tl_shaking l), tl_said := said, tl_peers := peers,
          tl_sending := (if ok then (i, peer) # tl_sending l else tl_sending l)\<rparr>)"
| tl_sends:
    "(i, peer) \<in> set (tl_sending l) \<Longrightarrow> tl_open l \<Longrightarrow> length (tl_ready l) < READY_QUEUE \<Longrightarrow>
     tls_listen outcome l
       (l\<lparr>tl_sending := remove1 (i, peer) (tl_sending l), tl_ready := tl_ready l @ [(i, peer)]\<rparr>)"
| tl_send_fails:
    "(i, peer) \<in> set (tl_sending l) \<Longrightarrow> \<not> tl_open l \<Longrightarrow>
     tls_listen outcome l
       (l\<lparr>tl_sending := remove1 (i, peer) (tl_sending l), tl_peers := secure_peer_drop (tl_peers l) peer\<rparr>)"
| tl_takes:
    "tl_open l \<Longrightarrow> tl_ready l = (i, peer) # rest \<Longrightarrow>
     tls_listen outcome l
       (l\<lparr>tl_ready := rest, tl_held := (i, peer) # tl_held l, tl_handed := tl_handed l @ [i]\<rparr>)"
| tl_stream_ends:
    "(i, peer) \<in> set (tl_held l) \<Longrightarrow>
     tls_listen outcome l
       (l\<lparr>tl_held := remove1 (i, peer) (tl_held l), tl_peers := secure_peer_drop (tl_peers l) peer\<rparr>)"
| tl_listener_dropped:
    "tl_open l \<Longrightarrow>
     tls_listen outcome l
       (l\<lparr>tl_open := False, tl_ready := [], tl_peers := drop_streams (tl_ready l) (tl_peers l)\<rparr>)"
| tl_elsewhere_opens:
    "tls_listen outcome l
       (l\<lparr>tl_elsewhere := peer # tl_elsewhere l, tl_peers := secure_peer_new (tl_peers l) peer\<rparr>)"
| tl_elsewhere_ends:
    "peer \<in> set (tl_elsewhere l) \<Longrightarrow>
     tls_listen outcome l
       (l\<lparr>tl_elsewhere := remove1 peer (tl_elsewhere l),
          tl_peers := secure_peer_drop (tl_peers l) peer\<rparr>)"

section \<open>The invariant\<close>

text \<open>The open streams' peers, wherever the streams are.\<close>

definition open_peers :: "tls_listener \<Rightarrow> socket_addr list" where
  "open_peers l = map snd (tl_sending l @ tl_ready l @ tl_held l) @ tl_elsewhere l"

definition live_ids :: "tls_listener \<Rightarrow> nat list" where
  "live_ids l = map fst (tl_shaking l @ tl_sending l @ tl_ready l) @ tl_handed l"

definition each_once :: "(nat \<Rightarrow> handshake) \<Rightarrow> tls_listener \<Rightarrow> bool" where
  "each_once outcome l \<longleftrightarrow>
     distinct (live_ids l) \<and> (\<forall>i \<in> set (live_ids l). i < tl_next l) \<and>
     (\<forall>x \<in> set (tl_sending l @ tl_ready l). outcome (fst x) = Finished) \<and>
     (\<forall>i \<in> set (tl_handed l). outcome i = Finished) \<and>
     (tl_open l \<longrightarrow> (\<forall>i < tl_next l. outcome i = Finished \<longrightarrow> i \<in> set (live_ids l))) \<and>
     length (tl_ready l) \<le> READY_QUEUE"

definition places_held :: "tls_listener \<Rightarrow> bool" where
  "places_held l \<longleftrightarrow> secure.agrees (tl_peers l, open_peers l)"

text \<open>Only how often each peer is held counts, not the order.\<close>

lemma charged_mset:
  assumes "mset xs = mset ys"
  shows "charged (\<lambda>p. {p}) p xs = charged (\<lambda>p. {p}) p ys"
proof -
  have "charged (\<lambda>p. {p}) p zs = count (mset zs) p" for zs by (induction zs) auto
  with assms show ?thesis by simp
qed

lemma agrees_mset:
  assumes "mset xs = mset ys"
  shows "secure.agrees (peers, xs) \<longleftrightarrow> secure.agrees (peers, ys)"
  by (simp add: secure.agrees_def charged_mset [OF assms])

lemma agrees_new:
  assumes "secure.agrees (peers, xs)" and "mset ys = add_mset p (mset xs)"
  shows "secure.agrees (secure_peer_new peers p, ys)"
proof -
  have "secure.agrees (secure_peer_new peers p, p # xs)"
    using secure.agrees_take [OF assms(1), of p "secure_peer_new peers p" True] by (simp add: secure_take_def)
  then show ?thesis using agrees_mset [of ys "p # xs"] assms(2) by simp
qed

lemma agrees_drop:
  assumes "secure.agrees (peers, xs)" and "mset xs = add_mset p (mset ys)"
  shows "secure.agrees (secure_peer_drop peers p, ys)"
proof -
  have p: "p \<in> set xs" using assms(2) by (metis set_mset_mset union_single_eq_member)
  have "secure.agrees (secure_peer_drop peers p, remove1 p xs)"
    by (rule secure.agrees_give [OF assms(1) p])
  moreover have "mset (remove1 p xs) = mset ys" using assms(2) by simp
  ultimately show ?thesis using agrees_mset by blast
qed

lemma agrees_drop_streams:
  assumes "secure.agrees (peers, xs)" and "mset xs = mset (map snd zs) + mset ys"
  shows "secure.agrees (drop_streams zs peers, ys)"
  using assms
proof (induction zs arbitrary: peers xs)
  case Nil
  then show ?case using agrees_mset [of xs ys] by (simp add: drop_streams_def)
next
  case (Cons z zs)
  have "secure.agrees (secure_peer_drop peers (snd z), map snd zs @ ys)"
    by (rule agrees_drop [OF Cons.prems(1)]) (use Cons.prems(2) in simp)
  from Cons.IH [OF this] show ?case by (simp add: drop_streams_def)
qed

lemma mset_snd_remove1:
  "(i, p) \<in> set xs \<Longrightarrow> image_mset snd (mset xs) = add_mset p (image_mset snd (mset (remove1 (i, p) xs)))"
  by (metis image_mset_add_mset insert_DiffM mset_remove1 set_mset_mset snd_conv)

lemma mset_fst_remove1:
  "(i, p) \<in> set xs \<Longrightarrow> image_mset fst (mset xs) = add_mset i (image_mset fst (mset (remove1 (i, p) xs)))"
  by (metis fst_conv image_mset_add_mset insert_DiffM mset_remove1 set_mset_mset)

lemma tls_accept_cases:
  assumes "tls_accept hs (said, peers) peer = ((said', peers'), (ok, words))"
  shows "ok \<longleftrightarrow> hs = Finished" and "peers' = (if ok then secure_peer_new peers peer else peers)"
  using assms by (auto simp: tls_accept_def split: handshake.splits prod.splits)

lemma places_held_step:
  assumes "tls_listen outcome l l'" and "places_held l"
  shows "places_held l'"
  using assms
proof cases
  case (tl_shakes i peer said peers ok words)
  then show ?thesis
    using assms(2) tls_accept_cases [OF tl_shakes(3)]
    by (auto simp: places_held_def open_peers_def intro: agrees_new)
next
  case (tl_sends i peer)
  then show ?thesis
    using assms(2)
    by (auto simp: places_held_def open_peers_def mset_snd_remove1 elim!: agrees_mset [THEN iffD1, rotated])
next
  case (tl_takes i peer rest)
  then show ?thesis
    using assms(2) by (auto simp: places_held_def open_peers_def elim!: agrees_mset [THEN iffD1, rotated])
qed (use assms(2) in \<open>auto simp: places_held_def open_peers_def mset_snd_remove1
       intro: agrees_new agrees_drop agrees_drop_streams\<close>)

text \<open>A step moves one connection, drops one or brings a new one; the rest stay.\<close>

lemma ids_moved:
  assumes "mset (live_ids l') = mset (live_ids l)"
  shows "distinct (live_ids l') \<longleftrightarrow> distinct (live_ids l)" and "set (live_ids l') = set (live_ids l)"
  using assms mset_eq_imp_distinct_iff mset_eq_setD by blast+

lemma ids_dropped:
  assumes "mset (live_ids l) = mset (live_ids l') + mset is"
  shows "distinct (live_ids l) \<Longrightarrow> distinct (live_ids l')"
    and "set (live_ids l) = set (live_ids l') \<union> set is"
proof -
  have "mset (live_ids l) = mset (live_ids l' @ is)" using assms by simp
  from mset_eq_imp_distinct_iff [OF this] mset_eq_setD [OF this]
  show "distinct (live_ids l) \<Longrightarrow> distinct (live_ids l')"
    and "set (live_ids l) = set (live_ids l') \<union> set is" by simp_all
qed

lemma each_once_step:
  assumes "tls_listen outcome l l'" and "each_once outcome l"
  shows "each_once outcome l'"
  using assms
proof cases
  case (tl_shakes i peer said peers ok words)
  note ok = tls_accept_cases(1) [OF tl_shakes(3)]
  show ?thesis
  proof (cases ok)
    case True
    with tl_shakes have "mset (live_ids l') = mset (live_ids l)"
      by (simp add: live_ids_def mset_fst_remove1)
    from ids_moved [OF this] True ok tl_shakes assms(2) show ?thesis by (auto simp: each_once_def)
  next
    case False
    with tl_shakes have "mset (live_ids l) = mset (live_ids l') + mset [i]"
      by (simp add: live_ids_def mset_fst_remove1)
    from ids_dropped [OF this] False ok tl_shakes assms(2) show ?thesis by (auto simp: each_once_def)
  qed
next
  case (tl_sends i peer)
  then have "mset (live_ids l') = mset (live_ids l)" by (simp add: live_ids_def mset_fst_remove1)
  moreover have "outcome i = Finished" using tl_sends(2) assms(2) by (force simp: each_once_def)
  ultimately show ?thesis
    using ids_moved [of l' l] tl_sends assms(2)
    by (auto simp: each_once_def dest: set_remove1_subset [THEN subsetD])
next
  case (tl_send_fails i peer)
  then have "mset (live_ids l) = mset (live_ids l') + mset [i]" by (simp add: live_ids_def mset_fst_remove1)
  from ids_dropped [OF this] tl_send_fails assms(2) show ?thesis
    by (auto simp: each_once_def dest: set_remove1_subset [THEN subsetD])
next
  case (tl_takes i peer rest)
  then have "mset (live_ids l') = mset (live_ids l)" by (simp add: live_ids_def)
  from ids_moved [OF this] tl_takes assms(2) show ?thesis by (auto simp: each_once_def)
next
  case tl_listener_dropped
  then have "mset (live_ids l) = mset (live_ids l') + mset (map fst (tl_ready l))" by (simp add: live_ids_def)
  from ids_dropped [OF this] tl_listener_dropped assms(2) show ?thesis by (auto simp: each_once_def)
next
  case (tl_accepts peer)
  then have ids: "live_ids l' = tl_next l # live_ids l" by (simp add: live_ids_def)
  have "tl_next l \<notin> set (live_ids l)" using assms(2) by (auto simp: each_once_def)
  then show ?thesis
    using assms(2) unfolding each_once_def ids
    by (simp add: tl_accepts(1)) (auto simp: less_Suc_eq)
next
  case (tl_stream_ends i peer)
  with assms(2) show ?thesis by (simp add: each_once_def live_ids_def)
next
  case tl_loop_ends
  with assms(2) show ?thesis by (simp add: each_once_def live_ids_def)
next
  case (tl_elsewhere_opens peer)
  with assms(2) show ?thesis by (simp add: each_once_def live_ids_def)
next
  case (tl_elsewhere_ends peer)
  with assms(2) show ?thesis by (simp add: each_once_def live_ids_def)
qed simp

lemma tls_listener_reachable:
  assumes "(tls_listen outcome)\<^sup>*\<^sup>* tls_listener_new l"
  shows "each_once outcome l" and "places_held l"
proof -
  have "each_once outcome tls_listener_new" "places_held tls_listener_new"
    by (simp_all add: each_once_def live_ids_def tls_listener_new_def places_held_def open_peers_def
        secure.agrees_def count_of_def tight_def)
  from assms this show "each_once outcome l" and "places_held l"
    by (induction rule: rtranclp_induct) (auto intro: each_once_step places_held_step)
qed

section \<open>Properties\<close>

text \<open>
  C37. Axum is handed exactly the connections whose handshake finished, each once: none that was
  refused or came too late, none twice, and, while axum has the listener, a finished one is never
  lost; at most 128 wait for it. And the process knows as TLS peers exactly the far ends of the
  streams whose handshake is done and which are still open, wherever they are: waiting for room,
  in the channel, with axum, or on another listener.
\<close>

theorem axum_is_handed_each_finished_handshake_once:
  assumes "(tls_listen outcome)\<^sup>*\<^sup>* tls_listener_new l"
  shows "(\<forall>i \<in> set (tl_handed l). outcome i = Finished) \<and> distinct (tl_handed l) \<and>
         (tl_open l \<longrightarrow>
            (\<forall>i < tl_next l. outcome i = Finished \<longrightarrow>
               i \<in> set (tl_handed l) \<or> i \<in> fst ` set (tl_shaking l @ tl_sending l @ tl_ready l))) \<and>
         length (tl_ready l) \<le> 128 \<and>
         (\<forall>p. is_tls_peer (tl_peers l) p \<longleftrightarrow>
            p \<in> snd ` set (tl_sending l @ tl_ready l @ tl_held l) \<union> set (tl_elsewhere l))"
proof -
  note once = tls_listener_reachable(1) [OF assms]
  have "tight (tl_peers l)" and "count_of (tl_peers l) p = charged (\<lambda>p. {p}) p (open_peers l)" for p
    using tls_listener_reachable(2) [OF assms] by (simp_all add: places_held_def secure.agrees_def)
  then have "is_tls_peer (tl_peers l) p \<longleftrightarrow> p \<in> set (open_peers l)" for p
    by (simp add: is_tls_peer_counts charged_self_pos)
  then show ?thesis
    using once by (auto simp: each_once_def live_ids_def open_peers_def READY_QUEUE_def image_Un)
qed

definition handed_one :: tls_listener where
  "handed_one =
     tls_listener_new\<lparr>tl_next := 2, tl_shaking := [(1, \<lparr>sa_ip = localhost, sa_port = 6\<rparr>)],
       tl_held := [(0, \<lparr>sa_ip = localhost, sa_port = 5\<rparr>)], tl_handed := [0],
       tl_peers := secure_peer_new Map.empty \<lparr>sa_ip = localhost, sa_port = 5\<rparr>\<rparr>"

text \<open>One connection shakes hands and is handed on, while a second keeps its handshake open.\<close>

lemma handed_one_reachable:
  "(tls_listen (\<lambda>i. if i = 0 then Finished else TimedOut))\<^sup>*\<^sup>* tls_listener_new handed_one"
proof -
  let ?o = "\<lambda>i::nat. if i = 0 then Finished else TimedOut"
  let ?p = "\<lparr>sa_ip = localhost, sa_port = 5\<rparr> :: socket_addr"
  let ?q = "\<lparr>sa_ip = localhost, sa_port = 6\<rparr> :: socket_addr"
  let ?a = "tls_listener_new\<lparr>tl_next := 1, tl_shaking := [(0, ?p)]\<rparr>"
  let ?b = "?a\<lparr>tl_next := 2, tl_shaking := [(1, ?q), (0, ?p)]\<rparr>"
  let ?c = "?b\<lparr>tl_shaking := [(1, ?q)], tl_peers := secure_peer_new Map.empty ?p, tl_sending := [(0, ?p)]\<rparr>"
  let ?d = "?c\<lparr>tl_sending := [], tl_ready := [(0, ?p)]\<rparr>"
  have "tls_listen ?o tls_listener_new ?a"
    using tl_accepts [of tls_listener_new ?o ?p] by (simp add: tls_listener_new_def)
  moreover have "tls_listen ?o ?a ?b"
    using tl_accepts [of ?a ?o ?q] by (simp add: tls_listener_new_def numeral_2_eq_2)
  moreover have "tls_listen ?o ?b ?c"
    using tl_shakes [of 0 ?p ?b ?o "{}" "secure_peer_new Map.empty ?p" True None]
    by (simp add: tls_listener_new_def tls_accept_def)
  moreover have "tls_listen ?o ?c ?d"
    using tl_sends [of 0 ?p ?c ?o] by (simp add: tls_listener_new_def READY_QUEUE_def)
  moreover have "tls_listen ?o ?d handed_one"
    using tl_takes [of ?d 0 ?p "[]" ?o] by (simp add: tls_listener_new_def handed_one_def)
  ultimately show ?thesis by (meson converse_rtranclp_into_rtranclp rtranclp.rtrancl_refl)
qed

lemma axum_is_handed_each_finished_handshake_once_witness:
  "tl_handed handed_one = [0] \<and> distinct (tl_handed handed_one) \<and>
   is_tls_peer (tl_peers handed_one) \<lparr>sa_ip = localhost, sa_port = 5\<rparr>"
  using axum_is_handed_each_finished_handshake_once [OF handed_one_reachable]
  by (simp add: handed_one_def tls_listener_new_def)

text \<open>
  A slow handshake holds up no other: while axum has the listener, any connection whose handshake
  would finish can reach axum with every other handshake still under way.
\<close>

lemma channel_drains:
  assumes "tl_open l"
  shows "\<exists>l'. (tls_listen outcome)\<^sup>*\<^sup>* l l' \<and> tl_open l' \<and> tl_ready l' = [] \<and>
           tl_shaking l' = tl_shaking l \<and> tl_sending l' = tl_sending l"
  using assms
proof (induction "tl_ready l" arbitrary: l)
  case (Cons x xs)
  obtain i p where x: "x = (i, p)" by (cases x)
  let ?l1 = "l\<lparr>tl_ready := xs, tl_held := (i, p) # tl_held l, tl_handed := tl_handed l @ [i]\<rparr>"
  have "tls_listen outcome l ?l1" using Cons x by (intro tl_takes) auto
  moreover obtain l' where "(tls_listen outcome)\<^sup>*\<^sup>* ?l1 l'" "tl_open l'" "tl_ready l' = []"
      "tl_shaking l' = tl_shaking l" "tl_sending l' = tl_sending l"
    using Cons.hyps(1) [of ?l1] Cons.prems by auto
  ultimately show ?case by (meson converse_rtranclp_into_rtranclp)
qed auto

theorem a_slow_handshake_holds_up_no_other:
  assumes "tl_open l" and "(i, p) \<in> set (tl_shaking l)" and "outcome i = Finished"
  shows "\<exists>l'. (tls_listen outcome)\<^sup>*\<^sup>* l l' \<and> i \<in> set (tl_handed l') \<and>
           tl_shaking l' = remove1 (i, p) (tl_shaking l)"
proof -
  let ?l1 = "l\<lparr>tl_shaking := remove1 (i, p) (tl_shaking l),
               tl_said := tl_said l, tl_peers := secure_peer_new (tl_peers l) p,
               tl_sending := (i, p) # tl_sending l\<rparr>"
  have "tls_listen outcome l ?l1"
    using tl_shakes [OF assms(2), of outcome "tl_said l" "secure_peer_new (tl_peers l) p" True None] assms(3)
    by (simp add: tls_accept_def)
  moreover obtain l2 where l2: "(tls_listen outcome)\<^sup>*\<^sup>* ?l1 l2" "tl_open l2" "tl_ready l2 = []"
      "tl_shaking l2 = remove1 (i, p) (tl_shaking l)" "tl_sending l2 = (i, p) # tl_sending l"
    using channel_drains [of ?l1 outcome] assms(1) by auto
  moreover have "tls_listen outcome l2 (l2\<lparr>tl_sending := tl_sending l, tl_ready := [(i, p)]\<rparr>)"
    using tl_sends [of i p l2 outcome] l2 by (simp add: READY_QUEUE_def)
  moreover have "tls_listen outcome (l2\<lparr>tl_sending := tl_sending l, tl_ready := [(i, p)]\<rparr>)
      (l2\<lparr>tl_sending := tl_sending l, tl_ready := [], tl_held := (i, p) # tl_held l2,
          tl_handed := tl_handed l2 @ [i]\<rparr>)" (is "tls_listen _ _ ?l4")
    using tl_takes [of "l2\<lparr>tl_sending := tl_sending l, tl_ready := [(i, p)]\<rparr>" i p "[]" outcome] l2(2) by simp
  ultimately have "(tls_listen outcome)\<^sup>*\<^sup>* l ?l4"
    by (meson converse_rtranclp_into_rtranclp rtranclp.rtrancl_into_rtrancl)
  then show ?thesis using l2(4) by (intro exI [of _ ?l4]) simp
qed

end
