(* ===== verification/Schema.thy ===== *)
theory Schema
  imports Http
begin

text \<open>
  What the crate reads of plexus-core's plugin schemas and of serde's JSON values. A schema is its
  fields as the bridges and the builder use them; a JSON value is whatever serde makes it, and is
  only looked at through \<open>get\<close>, \<open>as_str\<close> and \<open>as_object\<close>: the record \<open>json_read\<close>, an argument
  of every definition that looks. What a call streams, and the errors it ends with, are read here too.
\<close>

record 'j json_read =
  jr_get :: "'j \<Rightarrow> string \<Rightarrow> 'j option"
  jr_str :: "'j \<Rightarrow> string option"
  jr_object :: "'j \<Rightarrow> (string \<times> 'j) list option"

text \<open>\<open>.get(name).and_then(Value::as_str)\<close>.\<close>

definition get_str :: "'j json_read \<Rightarrow> 'j \<Rightarrow> string \<Rightarrow> string option" where
  "get_str jr j name = Option.bind (jr_get jr j name) (jr_str jr)"

text \<open>A JSON tree as the source writes one (\<open>json!\<close>), with values of its own as leaves.\<close>

datatype 'x json =
    Leaf 'x
  | Str string
  | Num nat
  | Flag bool
  | Arr "'x json list"
  | Obj "(string \<times> 'x json) list"

datatype cardinality = One_value | Many_values

datatype http_method = Get | Post | Put | Delete | Patch

record 'j method_schema =
  ms_name :: string
  ms_description :: string
  ms_cardinality :: cardinality
  ms_http_method :: http_method
  ms_params :: "'j option"

record 'j plugin_schema =
  ps_namespace :: string
  ps_version :: string
  ps_description :: string
  ps_hash :: string
  ps_methods :: "'j method_schema list"

section \<open>Streams\<close>

text \<open>plexus-core's errors and stream items: what the source reads of each, the rest as \<open>'d\<close>.\<close>

datatype 'd param_problem = Malformed string | Other_problem 'd

datatype 'd remote_error =
    Activation_not_found string
  | Method_not_found string string
  | Invalid_params "string option" "'d param_problem"
  | Unauthenticated
  | Forbidden 'd
  | Handle_not_supported 'd
  | Execution string
  | Too_many_calls 'd
  | Child_unavailable 'd
  | Child_timeout 'd
  | Other_error 'd

datatype ('v, 'd) stream_item =
    Data_item string 'v
  | Progress_item string 'v
  | Error_item bool "'d remote_error"
  | Done_item
  | Request_item string 'v nat

record ('v, 'd) item_stream =
  is_items :: "(nat \<times> ('v, 'd) stream_item) list"
  is_after :: "nat option"

type_synonym ('v, 'd) item_json = "('v + 'd remote_error) json"

abbreviation Value :: "'v \<Rightarrow> ('v, 'd) item_json" where
  "Value v \<equiv> Leaf (Inl v)"

abbreviation Remote :: "'d remote_error \<Rightarrow> ('v, 'd) item_json" where
  "Remote e \<equiv> Leaf (Inr e)"

end
