(* ===== verification/Rest.thy ===== *)
theory Rest
  imports Host Auth Config Schema "HOL-Library.AList"
begin

text \<open>
  http/: the REST gateway. \<open>handler.rs\<close> answers a call's stream, in one JSON body or as
  server-sent events; \<open>bridge.rs\<close> finds the method, names the caller and makes the call;
  \<open>server.rs\<close> is what stands before it. A JSON body is the tree the source writes, with
  serde's own values as leaves; what serializes it, the router's path matching and the reader of
  the request's body are arguments. A stream is the items its next polls answer, each with the
  milliseconds it takes to come, and then its end, which may never come.
\<close>

section \<open>handler.rs\<close>

definition METHOD_TIMEOUT :: nat where "METHOD_TIMEOUT = 300 * 1000"
definition MAX_BUFFERED_ITEMS :: nat where "MAX_BUFFERED_ITEMS = 10000"
definition MAX_BUFFER_BYTES :: nat where "MAX_BUFFER_BYTES = 100 * 1024 * 1024"

record sse_event =
  ev_name :: string
  ev_data :: string

datatype ('v, 'd) rest_body =
    Json_body "('v, 'd) item_json"
  | Text_body string
  | Event_stream "(nat \<times> sse_event) list" "nat option"

record ('v, 'd) rest_response =
  rr_status :: nat
  rr_headers :: "(string \<times> string) list"
  rr_body :: "('v, 'd) rest_body"

record method_info =
  mi_namespace :: string
  mi_method :: string
  mi_cardinality :: cardinality

text \<open>
  serde: a JSON tree as an event's text, or why it cannot be written; an error's words; the
  bytes of a value.
\<close>

record ('v, 'd) json_out =
  jo_text :: "('v, 'd) item_json \<Rightarrow> string + string"
  jo_show :: "'d remote_error \<Rightarrow> string"
  jo_bytes :: "'v \<Rightarrow> nat"

fun remote_error_status :: "'d remote_error \<Rightarrow> nat" where
  "remote_error_status (Activation_not_found _) = 404"
| "remote_error_status (Method_not_found _ _) = 404"
| "remote_error_status (Invalid_params _ _) = 400"
| "remote_error_status Unauthenticated = 401"
| "remote_error_status (Forbidden _) = 403"
| "remote_error_status (Handle_not_supported _) = 501"
| "remote_error_status (Execution _) = 500"
| "remote_error_status (Too_many_calls _) = 429"
| "remote_error_status (Child_unavailable _) = 503"
| "remote_error_status (Child_timeout _) = 504"
| "remote_error_status (Other_error _) = 500"

definition json_response :: "nat \<Rightarrow> (string \<times> ('v, 'd) item_json) list \<Rightarrow> ('v, 'd) rest_response" where
  "json_response status entries =
     \<lparr>rr_status = status, rr_headers = [], rr_body = Json_body (Obj entries)\<rparr>"

definition remote_error_response :: "'d remote_error \<Rightarrow> ('v, 'd) rest_response" where
  "remote_error_response e = json_response (remote_error_status e) [(''error'', Remote e)]"

subsection \<open>One JSON body\<close>

record ('v, 'd) collected =
  co_data :: "'v list"
  co_progress :: "'v list"
  co_error :: "'d remote_error option"
  co_bytes :: nat

definition nothing_collected :: "('v, 'd) collected" where
  "nothing_collected = \<lparr>co_data = [], co_progress = [], co_error = None, co_bytes = 0\<rparr>"

text \<open>
  The loop of \<open>collect_and_respond\<close>, under the timeout that \<open>handle_method_call\<close> puts around it:
  \<open>left\<close> is the time it still has.
\<close>

datatype ('v, 'd) gathered =
    Gathered "('v, 'd) collected"
  | Too_many_items
  | Too_many_bytes nat
  | Timed_out

fun collect_items ::
  "('v \<Rightarrow> nat) \<Rightarrow> nat \<Rightarrow> (nat \<times> ('v, 'd) stream_item) list \<Rightarrow> nat option \<Rightarrow>
   ('v, 'd) collected \<Rightarrow> ('v, 'd) gathered"
where
  "collect_items len left [] after c =
     (case after of
        None \<Rightarrow> Timed_out
      | Some wait \<Rightarrow> if wait \<le> left then Gathered c else Timed_out)"
| "collect_items len left ((wait, item) # items) after c =
     (if left < wait then Timed_out
      else case item of
        Data_item _ content \<Rightarrow>
          if MAX_BUFFERED_ITEMS \<le> length (co_data c) then Too_many_items
          else (let buffered = co_bytes c + len content in
                if MAX_BUFFER_BYTES < buffered then Too_many_bytes buffered
                else collect_items len (left - wait) items after
                       (c\<lparr>co_bytes := buffered, co_data := co_data c @ [content]\<rparr>))
      | Progress_item _ content \<Rightarrow>
          collect_items len (left - wait) items after (c\<lparr>co_progress := co_progress c @ [content]\<rparr>)
      | Error_item _ e \<Rightarrow> Gathered (c\<lparr>co_error := Some e\<rparr>)
      | Done_item \<Rightarrow> Gathered c
      | Request_item _ _ _ \<Rightarrow> collect_items len (left - wait) items after c)"

definition collected_response :: "('v, 'd) collected \<Rightarrow> ('v, 'd) rest_response" where
  "collected_response c =
     (let body = (''data'', Arr (map Value (co_data c))) #
                 (if co_progress c = [] then [] else [(''progress'', Arr (map Value (co_progress c)))])
      in case co_error c of
           Some e \<Rightarrow> json_response (remote_error_status e) (body @ [(''error'', Remote e)])
         | None \<Rightarrow> json_response 200 body)"

definition too_many_items_response :: "('v, 'd) rest_response" where
  "too_many_items_response =
     json_response 413
       [(''error'', Str (''Stream exceeded maximum item count of '' @ show_nat MAX_BUFFERED_ITEMS)),
        (''max_items'', Num MAX_BUFFERED_ITEMS)]"

definition too_many_bytes_response :: "nat \<Rightarrow> ('v, 'd) rest_response" where
  "too_many_bytes_response buffered =
     json_response 413
       [(''error'', Str (''Stream exceeded maximum buffer size of '' @ show_nat MAX_BUFFER_BYTES @ '' bytes'')),
        (''max_bytes'', Num MAX_BUFFER_BYTES), (''bytes_buffered'', Num buffered)]"

definition timed_out_response :: "('v, 'd) rest_response" where
  "timed_out_response =
     json_response 504
       [(''error'', Str (''Method execution timed out after '' @ show_nat (METHOD_TIMEOUT div 1000) @ '' seconds'')),
        (''timeout_seconds'', Num (METHOD_TIMEOUT div 1000))]"

definition collect_and_respond :: "('v \<Rightarrow> nat) \<Rightarrow> ('v, 'd) item_stream \<Rightarrow> ('v, 'd) rest_response option" where
  "collect_and_respond len s =
     (case collect_items len METHOD_TIMEOUT (is_items s) (is_after s) nothing_collected of
        Gathered c \<Rightarrow> Some (collected_response c)
      | Too_many_items \<Rightarrow> Some too_many_items_response
      | Too_many_bytes buffered \<Rightarrow> Some (too_many_bytes_response buffered)
      | Timed_out \<Rightarrow> None)"

subsection \<open>Server-sent events\<close>

definition sse_error_event :: "('v, 'd) json_out \<Rightarrow> bool \<Rightarrow> 'd remote_error \<Rightarrow> sse_event" where
  "sse_error_event out recoverable e =
     \<lparr>ev_name = ''error'',
      ev_data = (case jo_text out (Obj [(''recoverable'', Flag recoverable), (''error'', Remote e)]) of
                   Inr text \<Rightarrow> text
                 | Inl _ \<Rightarrow> jo_show out e)\<rparr>"

definition sse_unserializable :: "('v, 'd) json_out \<Rightarrow> string \<Rightarrow> string \<Rightarrow> sse_event" where
  "sse_unserializable out frame why =
     sse_error_event out True (Execution (''failed to serialize '' @ frame @ '': '' @ why))"

definition sse_json :: "('v, 'd) json_out \<Rightarrow> string \<Rightarrow> ('v, 'd) item_json \<Rightarrow> sse_event" where
  "sse_json out name j =
     (case jo_text out j of
        Inr text \<Rightarrow> \<lparr>ev_name = name, ev_data = text\<rparr>
      | Inl why \<Rightarrow> sse_unserializable out name why)"

fun sse_of :: "('v, 'd) json_out \<Rightarrow> ('v, 'd) stream_item \<Rightarrow> sse_event" where
  "sse_of out (Data_item _ content) = sse_json out ''data'' (Obj [(''content'', Value content)])"
| "sse_of out (Progress_item content_type content) =
     sse_json out ''progress'' (Obj [(''content_type'', Str content_type), (''content'', Value content)])"
| "sse_of out (Error_item recoverable e) = sse_error_event out recoverable e"
| "sse_of out Done_item = \<lparr>ev_name = ''done'', ev_data = ''{}''\<rparr>"
| "sse_of out (Request_item _ _ _) =
     \<lparr>ev_name = ''warning'', ev_data = ''Bidirectional requests not supported in REST HTTP transport''\<rparr>"

text \<open>The response is made at once: the stream is mapped, not read.\<close>

definition stream_sse_response :: "('v, 'd) json_out \<Rightarrow> ('v, 'd) item_stream \<Rightarrow> ('v, 'd) rest_response option" where
  "stream_sse_response out s =
     Some \<lparr>rr_status = 200, rr_headers = [],
           rr_body = Event_stream (map (\<lambda>(wait, item). (wait, sse_of out item)) (is_items s)) (is_after s)\<rparr>"

definition handle_method_call ::
  "('v, 'd) json_out \<Rightarrow> ('v, 'd) item_stream \<Rightarrow> method_info \<Rightarrow> ('v, 'd) rest_response" where
  "handle_method_call out s m =
     (case (case mi_cardinality m of
              Many_values \<Rightarrow> stream_sse_response out s
            | One_value \<Rightarrow> collect_and_respond (jo_bytes out) s) of
        Some response \<Rightarrow> response
      | None \<Rightarrow> timed_out_response)"

section \<open>bridge.rs\<close>

record rest_method_info =
  rm_namespace :: string
  rm_method :: string
  rm_cardinality :: cardinality
  rm_http_method :: http_method

type_synonym method_registry = "(string \<times> rest_method_info) list"

definition method_key :: "string \<Rightarrow> string \<Rightarrow> string" where
  "method_key namespace method = namespace @ ''.'' @ method"

definition add_method :: "string \<Rightarrow> method_registry \<Rightarrow> 'j method_schema \<Rightarrow> method_registry" where
  "add_method namespace reg m =
     AList.update (method_key namespace (ms_name m))
       \<lparr>rm_namespace = namespace, rm_method = ms_name m, rm_cardinality = ms_cardinality m,
        rm_http_method = ms_http_method m\<rparr> reg"

definition from_schemas :: "'j plugin_schema list \<Rightarrow> method_registry" where
  "from_schemas schemas =
     foldl (\<lambda>reg s. foldl (add_method (ps_namespace s)) reg (ps_methods s)) [] schemas"

definition registry_get :: "method_registry \<Rightarrow> string \<Rightarrow> string \<Rightarrow> rest_method_info option" where
  "registry_get reg namespace method = map_of reg (method_key namespace method)"

text \<open>In whatever order the map has them; here that of the list.\<close>

definition all_methods :: "method_registry \<Rightarrow> rest_method_info list" where
  "all_methods reg = map snd reg"

definition has_namespace :: "method_registry \<Rightarrow> string \<Rightarrow> bool" where
  "has_namespace reg namespace = list_ex (\<lambda>(_, info). rm_namespace info = namespace) reg"

text \<open>The caller a request names: what comes of it, and what the validator was asked.\<close>

definition rest_bearer :: "string option \<Rightarrow> header_map \<Rightarrow> string option" where
  "rest_bearer api_key h =
     (let stripped = Option.bind (header_str h ''authorization'')
            (\<lambda>v. case strip_prefix ''Bearer '' v of
                   Some t \<Rightarrow> Some t
                 | None \<Rightarrow> strip_prefix ''bearer '' v)
      in case map_option trim stripped of
           None \<Rightarrow> None
         | Some token \<Rightarrow> if api_key \<noteq> Some token then Some token else None)"

definition identify ::
  "'ctx validator option \<Rightarrow> string option \<Rightarrow> header_map \<Rightarrow>
   (('v, 'd) rest_response + 'ctx option) \<times> string list"
where
  "identify validator api_key h =
     (case validator of
        None \<Rightarrow> (Inr None, [])
      | Some v \<Rightarrow>
          let by_cookie = (case header_str h ''cookie'' of
                             None \<Rightarrow> (None, [])
                           | Some c \<Rightarrow> (vl_validate v c, [c]))
          in case fst by_cookie of
               Some ctx \<Rightarrow> (Inr (Some ctx), snd by_cookie)
             | None \<Rightarrow>
                 (case rest_bearer api_key h of
                    Some token \<Rightarrow>
                      ((case vl_validate v token of
                          Some ctx \<Rightarrow> Inr (Some ctx)
                        | None \<Rightarrow> Inl (remote_error_response Unauthenticated)),
                       snd by_cookie @ [token])
                  | None \<Rightarrow> (Inr None, snd by_cookie)))"

fun http_method_to_verb :: "http_method \<Rightarrow> string" where
  "http_method_to_verb Get = ''GET''"
| "http_method_to_verb Post = ''POST''"
| "http_method_to_verb Put = ''PUT''"
| "http_method_to_verb Delete = ''DELETE''"
| "http_method_to_verb Patch = ''PATCH''"

text \<open>
  What plexus-core runs a call with: the service's route as the caller, the route that names no
  caller, or the activation alone as a service with no gate dispatches it. \<open>pe_remote\<close> is the
  \<open>RemoteError\<close> a \<open>PlexusError\<close> maps to.
\<close>

record ('p, 'ctx, 'e, 's) dispatchers =
  ds_route_as :: "(string \<Rightarrow> 'p \<Rightarrow> 'ctx option \<Rightarrow> 'e + 's) option"
  ds_route_fn :: "(string \<Rightarrow> 'p \<Rightarrow> 'e + 's) option"
  ds_ungated :: "string \<Rightarrow> 'p \<Rightarrow> 'ctx option \<Rightarrow> 'e + 's"

record ('p, 'ctx, 'e, 's) rest_state = "('p, 'ctx, 'e, 's) dispatchers" +
  rs_validator :: "'ctx validator option"
  rs_api_key :: "string option"
  rs_registry :: method_registry

datatype ('p, 'v, 'd) body_read =
    Read_json 'p
  | Not_json string
  | Rejected "('v, 'd) rest_response"

datatype ('p, 'ctx) rest_call =
    Route_as string 'p "'ctx option"
  | Route_fn string 'p
  | Ungated string 'p "'ctx option"

definition wrong_verb :: "string \<Rightarrow> string \<Rightarrow> string \<Rightarrow> string \<Rightarrow> ('v, 'd) rest_response" where
  "wrong_verb got namespace method expected =
     \<lparr>rr_status = 405, rr_headers = [(''allow'', expected)],
      rr_body = Json_body (Obj [(''error'',
        Str (got @ '' not allowed for '' @ namespace @ ''.'' @ method @ ''; use '' @ expected))])\<rparr>"

definition call_for ::
  "('p, 'ctx, 'e, 's) rest_state \<Rightarrow> string \<Rightarrow> string \<Rightarrow> 'p \<Rightarrow> 'ctx option \<Rightarrow> ('p, 'ctx) rest_call"
where
  "call_for st namespace method params auth =
     (if ds_route_as st \<noteq> None then Route_as (method_key namespace method) params auth
      else if ds_route_fn st \<noteq> None then Route_fn (method_key namespace method) params
      else Ungated method params auth)"

definition run_call ::
  "('p, 'ctx, 'e, 's) rest_state \<Rightarrow> ('p, 'ctx) rest_call \<Rightarrow> 'e + 's" where
  "run_call st c =
     (case c of
        Route_as m p auth \<Rightarrow> the (ds_route_as st) m p auth
      | Route_fn m p \<Rightarrow> the (ds_route_fn st) m p
      | Ungated m p auth \<Rightarrow> ds_ungated st m p auth)"

text \<open>
  The handler up to its call: an answer, or the call it makes and the method it answers for;
  with what the validator was asked.
\<close>

definition rest_checks ::
  "('p, 'ctx, 'e, 's) rest_state \<Rightarrow> string \<Rightarrow> string \<Rightarrow> request \<Rightarrow> ('p, 'v, 'd) body_read \<Rightarrow>
   (('v, 'd) rest_response + ('p, 'ctx) rest_call \<times> method_info) \<times> string list"
where
  "rest_checks st namespace method r body =
     (case registry_get (rs_registry st) namespace method of
        None \<Rightarrow>
          (Inl (remote_error_response
                  (if has_namespace (rs_registry st) namespace
                   then Method_not_found namespace method else Activation_not_found namespace)), [])
      | Some info \<Rightarrow>
          let expected = http_method_to_verb (rm_http_method info) in
          if rq_method r \<noteq> expected then (Inl (wrong_verb (rq_method r) namespace method expected), [])
          else case identify (rs_validator st) (rs_api_key st) (rq_headers r) of
            (Inl refusal, asked) \<Rightarrow> (Inl refusal, asked)
          | (Inr auth, asked) \<Rightarrow>
              ((case body of
                  Not_json detail \<Rightarrow> Inl (remote_error_response (Invalid_params None (Malformed detail)))
                | Rejected response \<Rightarrow> Inl response
                | Read_json params \<Rightarrow>
                    Inr (call_for st namespace method params auth,
                         \<lparr>mi_namespace = rm_namespace info, mi_method = rm_method info,
                          mi_cardinality = rm_cardinality info\<rparr>)),
               asked))"

definition plexus_error_to_response :: "('e \<Rightarrow> 'd remote_error) \<Rightarrow> 'e \<Rightarrow> ('v, 'd) rest_response" where
  "plexus_error_to_response remote e = remote_error_response (remote e)"

definition answer_call ::
  "('v, 'd) json_out \<Rightarrow> ('e \<Rightarrow> 'd remote_error) \<Rightarrow> ('p, 'ctx, 'e, ('v, 'd) item_stream) rest_state \<Rightarrow>
   ('p, 'ctx) rest_call \<times> method_info \<Rightarrow> ('v, 'd) rest_response"
where
  "answer_call out remote st cm =
     (case run_call st (fst cm) of
        Inr stream \<Rightarrow> handle_method_call out stream (snd cm)
      | Inl e \<Rightarrow> plexus_error_to_response remote e)"

definition rest_method_handler ::
  "('v, 'd) json_out \<Rightarrow> ('e \<Rightarrow> 'd remote_error) \<Rightarrow> ('p, 'ctx, 'e, ('v, 'd) item_stream) rest_state \<Rightarrow>
   string \<Rightarrow> string \<Rightarrow> request \<Rightarrow> ('p, 'v, 'd) body_read \<Rightarrow> ('v, 'd) rest_response"
where
  "rest_method_handler out remote st namespace method r body =
     (case fst (rest_checks st namespace method r body) of
        Inl response \<Rightarrow> response
      | Inr cm \<Rightarrow> answer_call out remote st cm)"

subsection \<open>The bridge's builder\<close>

record ('j, 'p, 'ctx, 'e, 's) rest_bridge = "('p, 'ctx, 'e, 's) dispatchers" +
  rb_schemas :: "'j plugin_schema list"
  rb_validator :: "'ctx validator option"
  rb_api_key :: "string option"
  rb_server_name :: "string option"
  rb_server_version :: "string option"

definition with_server_info_and_schemas ::
  "(string \<Rightarrow> 'p \<Rightarrow> 'ctx option \<Rightarrow> 'e + 's) \<Rightarrow> 'j plugin_schema \<Rightarrow> string option \<Rightarrow> string option \<Rightarrow>
   'j plugin_schema list option \<Rightarrow> ('j, 'p, 'ctx, 'e, 's) rest_bridge"
where
  "with_server_info_and_schemas ungated own_schema server_name server_version flat =
     \<lparr>ds_route_as = None, ds_route_fn = None, ds_ungated = ungated,
      rb_schemas = (case flat of Some schemas \<Rightarrow> schemas | None \<Rightarrow> [own_schema]),
      rb_validator = None, rb_api_key = None, rb_server_name = server_name,
      rb_server_version = server_version\<rparr>"

definition rest_bridge_new ::
  "(string \<Rightarrow> 'p \<Rightarrow> 'ctx option \<Rightarrow> 'e + 's) \<Rightarrow> 'j plugin_schema \<Rightarrow> ('j, 'p, 'ctx, 'e, 's) rest_bridge" where
  "rest_bridge_new ungated own_schema =
     \<lparr>ds_route_as = None, ds_route_fn = None, ds_ungated = ungated, rb_schemas = [own_schema],
      rb_validator = None, rb_api_key = None, rb_server_name = None, rb_server_version = None\<rparr>"

definition with_router ::
  "(string \<Rightarrow> 'p \<Rightarrow> 'e + 's) \<Rightarrow> ('j, 'p, 'ctx, 'e, 's) rest_bridge \<Rightarrow> ('j, 'p, 'ctx, 'e, 's) rest_bridge" where
  "with_router route b = b\<lparr>ds_route_fn := Some route\<rparr>"

definition with_router_as ::
  "(string \<Rightarrow> 'p \<Rightarrow> 'ctx option \<Rightarrow> 'e + 's) \<Rightarrow> ('j, 'p, 'ctx, 'e, 's) rest_bridge \<Rightarrow>
   ('j, 'p, 'ctx, 'e, 's) rest_bridge"
where
  "with_router_as route b = b\<lparr>ds_route_as := Some route\<rparr>"

definition with_session_validator ::
  "'ctx validator \<Rightarrow> ('j, 'p, 'ctx, 'e, 's) rest_bridge \<Rightarrow> ('j, 'p, 'ctx, 'e, 's) rest_bridge" where
  "with_session_validator v b = b\<lparr>rb_validator := Some v\<rparr>"

definition with_api_key ::
  "string option \<Rightarrow> ('j, 'p, 'ctx, 'e, 's) rest_bridge \<Rightarrow> ('j, 'p, 'ctx, 'e, 's) rest_bridge" where
  "with_api_key key b = b\<lparr>rb_api_key := key\<rparr>"

definition schemas_to_rest_routes ::
  "(string \<Rightarrow> 'p \<Rightarrow> 'ctx option \<Rightarrow> 'e + 's) \<Rightarrow> 'j plugin_schema list \<Rightarrow> (string \<Rightarrow> 'p \<Rightarrow> 'e + 's) option \<Rightarrow>
   (string \<Rightarrow> 'p \<Rightarrow> 'ctx option \<Rightarrow> 'e + 's) option \<Rightarrow> 'ctx validator option \<Rightarrow> string option \<Rightarrow>
   ('p, 'ctx, 'e, 's) rest_state"
where
  "schemas_to_rest_routes ungated schemas route_fn route_as validator api_key =
     \<lparr>ds_route_as = route_as, ds_route_fn = route_fn, ds_ungated = ungated, rs_validator = validator,
      rs_api_key = api_key, rs_registry = from_schemas schemas\<rparr>"

definition into_router :: "('j, 'p, 'ctx, 'e, 's) rest_bridge \<Rightarrow> ('p, 'ctx, 'e, 's) rest_state" where
  "into_router b =
     schemas_to_rest_routes (ds_ungated b) (rb_schemas b) (ds_route_fn b) (ds_route_as b)
       (rb_validator b) (rb_api_key b)"

section \<open>server.rs\<close>

text \<open>Where the router sends a path: a method of the bridge, the debug page, or nowhere.\<close>

datatype rest_route = To_method string string | To_debug | To_nothing

record ('p, 'ctx, 'e, 's) rest_server =
  sv_hosts :: "string list"
  sv_api_key :: "string option"
  sv_state :: "('p, 'ctx, 'e, 's) rest_state"

definition rest_auth :: "string option \<Rightarrow> request \<Rightarrow> ('v, 'd) rest_response option" where
  "rest_auth api_key r =
     (case api_key of
        None \<Rightarrow> None
      | Some key \<Rightarrow>
          if header_str (rq_headers r) ''authorization'' = Some (''Bearer '' @ key) then None
          else Some \<lparr>rr_status = 401, rr_headers = [(''www-authenticate'', bearer_realm)],
                     rr_body = Text_body ''Unauthorized''\<rparr>)"

definition rest_host :: "string list \<Rightarrow> request \<Rightarrow> ('v, 'd) rest_response option" where
  "rest_host hosts r =
     map_option (\<lambda>_. \<lparr>rr_status = 421, rr_headers = [], rr_body = Text_body REFUSAL\<rparr>) (refused hosts r)"

definition fallback_handler :: "request \<Rightarrow> ('v, 'd) rest_response" where
  "fallback_handler r =
     json_response 404
       [(''error'', Str (''Not found: '' @ rq_method r @ '' '' @ rq_path r)),
        (''hint'', Str ''Expected format: POST /rest/{namespace}/{method}'')]"

definition debug_handler :: "string \<Rightarrow> ('v, 'd) rest_response" where
  "debug_handler cargo_version =
     json_response 200
       [(''server'', Str ''plexus-rest-http''), (''version'', Str cargo_version),
        (''protocol'', Str ''REST HTTP''),
        (''endpoint_format'', Str ''POST /rest/{namespace}/{method}'')]"

text \<open>The app's parts, as \<open>serve_rest_http_as\<close> builds them before it binds its address.\<close>

definition rest_server_of ::
  "(string \<Rightarrow> 'p \<Rightarrow> 'ctx option \<Rightarrow> 'e + 's) \<Rightarrow> 'j plugin_schema \<Rightarrow> 'j plugin_schema list option \<Rightarrow>
   (string \<Rightarrow> 'p \<Rightarrow> 'e + 's) option \<Rightarrow> (string \<Rightarrow> 'p \<Rightarrow> 'ctx option \<Rightarrow> 'e + 's) option \<Rightarrow>
   'ctx validator option \<Rightarrow> rest_http_config \<Rightarrow> string option \<Rightarrow> ('p, 'ctx, 'e, 's) rest_server"
where
  "rest_server_of ungated own_schema flat route_fn route_as validator config api_key =
     (let b0 = with_server_info_and_schemas ungated own_schema (Some (rest_server_name config))
                 (Some (rest_server_version config)) flat;
          b1 = (case route_fn of Some rf \<Rightarrow> with_router rf b0 | None \<Rightarrow> b0);
          b2 = (case route_as of Some ra \<Rightarrow> with_router_as ra b1 | None \<Rightarrow> b1);
          b3 = (case validator of Some v \<Rightarrow> with_session_validator v b2 | None \<Rightarrow> b2)
      in \<lparr>sv_hosts = normalized (rest_allowed_hosts config), sv_api_key = api_key,
          sv_state = into_router (with_api_key api_key b3)\<rparr>)"

definition serve_rest_http_as ::
  "(socket_addr \<Rightarrow> string + socket_addr) \<Rightarrow> (tls_config \<Rightarrow> string + unit) \<Rightarrow>
   (string \<Rightarrow> 'p \<Rightarrow> 'ctx option \<Rightarrow> 'e + 's) \<Rightarrow> 'j plugin_schema \<Rightarrow> 'j plugin_schema list option \<Rightarrow>
   (string \<Rightarrow> 'p \<Rightarrow> 'e + 's) option \<Rightarrow> (string \<Rightarrow> 'p \<Rightarrow> 'ctx option \<Rightarrow> 'e + 's) option \<Rightarrow>
   'ctx validator option \<Rightarrow> rest_http_config \<Rightarrow> string option \<Rightarrow>
   string + ('p, 'ctx, 'e, 's) rest_server \<times> axum_listener"
where
  "serve_rest_http_as bind load_tls ungated own_schema flat route_fn route_as validator config api_key =
     (case bind (rest_addr config) of
        Inl e \<Rightarrow> Inl e
      | Inr local_addr \<Rightarrow>
          (case serve_axum load_tls local_addr (rest_tls config) of
             Inl e \<Rightarrow> Inl e
           | Inr listening \<Rightarrow>
               Inr (rest_server_of ungated own_schema flat route_fn route_as validator config api_key,
                    listening)))"

definition serve_rest_http ::
  "(socket_addr \<Rightarrow> string + socket_addr) \<Rightarrow> (tls_config \<Rightarrow> string + unit) \<Rightarrow>
   (string \<Rightarrow> 'p \<Rightarrow> 'ctx option \<Rightarrow> 'e + 's) \<Rightarrow> 'j plugin_schema \<Rightarrow> 'j plugin_schema list option \<Rightarrow>
   (string \<Rightarrow> 'p \<Rightarrow> 'e + 's) option \<Rightarrow> rest_http_config \<Rightarrow> string option \<Rightarrow>
   string + ('p, 'ctx, 'e, 's) rest_server \<times> axum_listener"
where
  "serve_rest_http bind load_tls ungated own_schema flat route_fn config api_key =
     serve_rest_http_as bind load_tls ungated own_schema flat route_fn None None config api_key"

text \<open>
  The app: the host's check outermost, then the key's, then the routes. The result is an answer,
  or the call the request makes.
\<close>

definition rest_app ::
  "string \<Rightarrow> ('p, 'ctx, 'e, 's) rest_server \<Rightarrow> rest_route \<Rightarrow> request \<Rightarrow> ('p, 'v, 'd) body_read \<Rightarrow>
   (('v, 'd) rest_response + ('p, 'ctx) rest_call \<times> method_info) \<times> string list"
where
  "rest_app cargo_version sv route r body =
     (case rest_host (sv_hosts sv) r of
        Some response \<Rightarrow> (Inl response, [])
      | None \<Rightarrow>
          (case rest_auth (sv_api_key sv) r of
             Some response \<Rightarrow> (Inl response, [])
           | None \<Rightarrow>
               (case route of
                  To_method namespace method \<Rightarrow> rest_checks (sv_state sv) namespace method r body
                | To_debug \<Rightarrow> (Inl (debug_handler cargo_version), [])
                | To_nothing \<Rightarrow> (Inl (fallback_handler r), []))))"

end
