(* ===== verification/Rest_Properties.thy ===== *)
theory Rest_Properties
  imports Rest
begin

text \<open>
  The properties of the REST gateway: what one JSON body says of its call's stream, that an
  event stream is not cut, what a request proved before its call is made, and that the caller it
  names is the one the WebSocket's upgrade would name.
\<close>

section \<open>What a stream says\<close>

text \<open>
  The reference: a stream's items before its end, and when the end comes and with what error: at
  the first \<open>done\<close> or \<open>error\<close>, or where the items are over, if they ever are.
\<close>

fun said :: "(nat \<times> ('v, 'd) stream_item) list \<Rightarrow> ('v, 'd) stream_item list" where
  "said [] = []"
| "said ((_, Done_item) # _) = []"
| "said ((_, Error_item _ _) # _) = []"
| "said ((_, item) # items) = item # said items"

fun ending ::
  "(nat \<times> ('v, 'd) stream_item) list \<Rightarrow> nat option \<Rightarrow> (nat \<times> 'd remote_error option) option" where
  "ending [] after = map_option (\<lambda>wait. (wait, None)) after"
| "ending ((wait, Done_item) # _) after = Some (wait, None)"
| "ending ((wait, Error_item _ e) # _) after = Some (wait, Some e)"
| "ending ((wait, _) # items) after = map_option (\<lambda>(t, e). (wait + t, e)) (ending items after)"

definition datas :: "('v, 'd) stream_item list \<Rightarrow> 'v list" where
  "datas its = filter_map (\<lambda>i. case i of Data_item _ v \<Rightarrow> Some v | _ \<Rightarrow> None) its"

definition progresses :: "('v, 'd) stream_item list \<Rightarrow> 'v list" where
  "progresses its = filter_map (\<lambda>i. case i of Progress_item _ v \<Rightarrow> Some v | _ \<Rightarrow> None) its"

lemma datas_simps [simp]:
  "datas [] = []" "datas (Data_item s v # its) = v # datas its"
  "datas (Progress_item t v # its) = datas its" "datas (Request_item i q ms # its) = datas its"
  by (simp_all add: datas_def filter_map_def)

lemma progresses_simps [simp]:
  "progresses [] = []" "progresses (Data_item s v # its) = progresses its"
  "progresses (Progress_item t v # its) = v # progresses its"
  "progresses (Request_item i q ms # its) = progresses its"
  by (simp_all add: progresses_def filter_map_def)

text \<open>The loop of \<open>collect_and_respond\<close> against the reference, from any state of it.\<close>

lemma collect_items_Gathered:
  assumes "length (co_data c) \<le> MAX_BUFFERED_ITEMS" and "co_bytes c \<le> MAX_BUFFER_BYTES"
    and "co_error c = None"
  shows "collect_items len left items after c = Gathered c' \<longleftrightarrow>
         (\<exists>t e. ending items after = Some (t, e) \<and> t \<le> left \<and>
            length (co_data c @ datas (said items)) \<le> MAX_BUFFERED_ITEMS \<and>
            co_bytes c + sum_list (map len (datas (said items))) \<le> MAX_BUFFER_BYTES \<and>
            c' = \<lparr>co_data = co_data c @ datas (said items),
                  co_progress = co_progress c @ progresses (said items), co_error = e,
                  co_bytes = co_bytes c + sum_list (map len (datas (said items)))\<rparr>)"
  using assms
proof (induction len left items after c rule: collect_items.induct)
  case (1 len left after c)
  then show ?case by (cases c) (auto split: option.splits)
next
  case (2 len left wait item items after c)
  show ?case
  proof (cases item)
    case (Data_item s v)
    with 2 show ?thesis
      by (cases "ending items after") (auto simp: Let_def)
  next
    case (Progress_item t v)
    with 2 show ?thesis by (cases "ending items after") auto
  next
    case (Error_item r e)
    with 2 show ?thesis by (cases c) auto
  next
    case Done_item
    with 2 show ?thesis by (cases c) auto
  next
    case (Request_item i q ms)
    with 2 show ?thesis by (cases "ending items after") auto
  qed
qed

lemma collected_response_inject:
  "collected_response c = collected_response c' \<longleftrightarrow>
   co_data c = co_data c' \<and> co_progress c = co_progress c' \<and> co_error c = co_error c'"
  by (auto simp: collected_response_def json_response_def Let_def inj_on_def inj_map_eq_map
      split: option.splits if_splits)

text \<open>The documented body: the data, the progress where there is some, the error where there is one.\<close>

definition unary_answer ::
  "'v list \<Rightarrow> 'v list \<Rightarrow> 'd remote_error option \<Rightarrow> ('v, 'd) rest_response" where
  "unary_answer ds ps e =
     \<lparr>rr_status = (case e of None \<Rightarrow> 200 | Some e \<Rightarrow> remote_error_status e), rr_headers = [],
      rr_body = Json_body (Obj
        ([(''data'', Arr (map Value ds))] @
         (if ps = [] then [] else [(''progress'', Arr (map Value ps))]) @
         (case e of None \<Rightarrow> [] | Some e \<Rightarrow> [(''error'', Remote e)])))\<rparr>"

lemma collected_unary:
  "collected_response c = unary_answer (co_data c) (co_progress c) (co_error c)"
  by (simp add: collected_response_def unary_answer_def json_response_def Let_def split: option.splits)

definition cut_short :: "('v, 'd) rest_response \<Rightarrow> bool" where
  "cut_short r \<longleftrightarrow> r = timed_out_response \<or> r = too_many_items_response \<or> (\<exists>n. r = too_many_bytes_response n)"

lemma cut_no_answer [simp]:
  "timed_out_response \<noteq> unary_answer ds ps e" "too_many_items_response \<noteq> unary_answer ds ps e"
  "too_many_bytes_response n \<noteq> unary_answer ds ps e"
  by (auto simp: unary_answer_def timed_out_response_def too_many_items_response_def
      too_many_bytes_response_def json_response_def)

lemma gathered_iff:
  "collect_items (jo_bytes out) METHOD_TIMEOUT (is_items s) (is_after s) nothing_collected = Gathered c \<longleftrightarrow>
   (\<exists>t \<le> 300000. ending (is_items s) (is_after s) = Some (t, co_error c)) \<and>
   co_data c = datas (said (is_items s)) \<and> co_progress c = progresses (said (is_items s)) \<and>
   length (co_data c) \<le> 10000 \<and> sum_list (map (jo_bytes out) (co_data c)) \<le> 100 * 1024 * 1024 \<and>
   co_bytes c = sum_list (map (jo_bytes out) (co_data c))"
  by (subst collect_items_Gathered)
    (cases c, auto simp: nothing_collected_def METHOD_TIMEOUT_def MAX_BUFFERED_ITEMS_def MAX_BUFFER_BYTES_def)

lemma answered_iff:
  assumes "mi_cardinality m = One_value"
  shows "handle_method_call out s m = unary_answer ds ps e \<longleftrightarrow>
         collect_items (jo_bytes out) METHOD_TIMEOUT (is_items s) (is_after s) nothing_collected =
           Gathered \<lparr>co_data = ds, co_progress = ps, co_error = e,
                     co_bytes = sum_list (map (jo_bytes out) ds)\<rparr>" (is "?answer \<longleftrightarrow> ?g = Gathered ?c")
proof
  assume ?answer
  then obtain c where c: "?g = Gathered c" "collected_response c = collected_response ?c"
    using assms
    by (auto simp: handle_method_call_def collect_and_respond_def collected_unary [of ?c]
        split: gathered.splits)
  then have "c = ?c" using gathered_iff [of out s c] by (cases c) (auto simp: collected_response_inject)
  with c show "?g = Gathered ?c" by simp
qed (use assms in \<open>simp add: handle_method_call_def collect_and_respond_def collected_unary\<close>)

lemma answered_or_cut:
  "mi_cardinality m = One_value \<Longrightarrow>
   (\<exists>ds ps e. handle_method_call out s m = unary_answer ds ps e) \<or> cut_short (handle_method_call out s m)"
  by (auto simp: handle_method_call_def collect_and_respond_def cut_short_def collected_unary
      split: gathered.split)

text \<open>
  C8. A unary answer is the whole stream or none of it: a call is answered with a body exactly when
  its stream ends, by itself or with an error, within five minutes and within the item and byte
  limits; the body then holds every data item and every progress item said before the end, in
  order, and the error; anything else is answered 413 or 504 with none of the items.
\<close>

theorem a_unary_answer_is_the_whole_stream:
  assumes "mi_cardinality m = One_value"
  shows "(handle_method_call out s m = unary_answer ds ps e \<longleftrightarrow>
          (\<exists>t \<le> 300000. ending (is_items s) (is_after s) = Some (t, e)) \<and>
          ds = datas (said (is_items s)) \<and> ps = progresses (said (is_items s)) \<and>
          length ds \<le> 10000 \<and> sum_list (map (jo_bytes out) ds) \<le> 100 * 1024 * 1024) \<and>
         ((\<exists>ds ps e. handle_method_call out s m = unary_answer ds ps e) \<or>
          cut_short (handle_method_call out s m))"
  using answered_iff [OF assms, of out s ds ps e] answered_or_cut [OF assms, of out s]
  by (simp add: gathered_iff)

definition silent_out :: "(bool, unit) json_out" where
  "silent_out = \<lparr>jo_text = (\<lambda>_. Inr []), jo_show = (\<lambda>_. []), jo_bytes = (\<lambda>_. 1)\<rparr>"

lemma a_unary_answer_is_the_whole_stream_witness:
  "handle_method_call silent_out
     \<lparr>is_items = [(10, Data_item ''n'' True), (5, Progress_item ''half'' False), (0, Done_item), (0, Data_item ''n'' False)],
      is_after = None\<rparr>
     \<lparr>mi_namespace = ''echo'', mi_method = ''once'', mi_cardinality = One_value\<rparr> =
   unary_answer [True] [False] None"
  by (subst a_unary_answer_is_the_whole_stream [THEN conjunct1]) (simp_all add: silent_out_def)

section \<open>What a call proved\<close>

text \<open>The methods a list of schemas declares, by the key the registry files them under.\<close>

definition declares :: "'j plugin_schema list \<Rightarrow> string \<Rightarrow> rest_method_info \<Rightarrow> bool" where
  "declares schemas key info \<longleftrightarrow>
     (\<exists>s \<in> set schemas. \<exists>m \<in> set (ps_methods s).
        key = ps_namespace s @ ''.'' @ ms_name m \<and> info =
          \<lparr>rm_namespace = ps_namespace s, rm_method = ms_name m, rm_cardinality = ms_cardinality m,
           rm_http_method = ms_http_method m\<rparr>)"

lemma add_methods_get:
  "map_of (foldl (add_method ns) reg ms) key = Some info \<Longrightarrow>
   map_of reg key = Some info \<or> declares [(ps :: 'j plugin_schema)\<lparr>ps_namespace := ns, ps_methods := ms\<rparr>] key info"
proof (induction ms arbitrary: reg)
  case (Cons m ms)
  from Cons.IH [OF Cons.prems [simplified]] show ?case
    by (auto simp: declares_def add_method_def method_key_def update_conv' split: if_splits)
qed simp

lemma from_schemas_get_from:
  "map_of (foldl (\<lambda>reg s. foldl (add_method (ps_namespace s)) reg (ps_methods s)) reg schemas) key = Some info \<Longrightarrow>
   map_of reg key = Some info \<or> declares schemas key info"
proof (induction schemas arbitrary: reg)
  case (Cons s schemas)
  from Cons.IH [OF Cons.prems [simplified]] add_methods_get [of "ps_namespace s" reg "ps_methods s" key info]
  show ?case by (auto simp: declares_def)
qed simp

lemma registry_get_declared:
  "registry_get (from_schemas schemas) ns method = Some info \<Longrightarrow>
   declares schemas (ns @ ''.'' @ method) info"
  using from_schemas_get_from [of "[]" schemas "method_key ns method" info]
  by (simp add: registry_get_def from_schemas_def method_key_def)

lemma serve_rest_fields:
  "sv_hosts (rest_server_of ung own flat rf ra v cfg key) = normalized (rest_allowed_hosts cfg)"
  "sv_api_key (rest_server_of ung own flat rf ra v cfg key) = key"
  "rs_validator (sv_state (rest_server_of ung own flat rf ra v cfg key)) = v"
  "rs_api_key (sv_state (rest_server_of ung own flat rf ra v cfg key)) = key"
  "rs_registry (sv_state (rest_server_of ung own flat rf ra v cfg key)) =
     from_schemas (case flat of Some schemas \<Rightarrow> schemas | None \<Rightarrow> [own])"
  "ds_route_as (sv_state (rest_server_of ung own flat rf ra v cfg key)) = ra"
  "ds_route_fn (sv_state (rest_server_of ung own flat rf ra v cfg key)) = rf"
  "ds_ungated (sv_state (rest_server_of ung own flat rf ra v cfg key)) = ung"
  by (simp_all add: rest_server_of_def into_router_def schemas_to_rest_routes_def with_api_key_def with_session_validator_def
      with_router_as_def with_router_def with_server_info_and_schemas_def Let_def split: option.splits)

lemma rest_bearer_Some:
  assumes "rest_bearer key h = Some t"
  shows "\<exists>u. header_str h ''authorization'' \<in> {Some (''Bearer '' @ u), Some (''bearer '' @ u)} \<and>
             t = trim u \<and> key \<noteq> Some t"
proof -
  from assms obtain v u where v: "header_str h ''authorization'' = Some v"
      "strip_prefix ''Bearer '' v = Some u \<or> strip_prefix ''bearer '' v = Some u" "t = trim u" "key \<noteq> Some t"
    by (auto simp: rest_bearer_def Let_def bind_eq_Some_conv split: option.splits if_splits)
  then have "v = ''Bearer '' @ u \<or> v = ''bearer '' @ u" by (blast dest: strip_prefix_Some)
  with v show ?thesis by (intro exI [of _ u]) auto
qed

text \<open>
  Whom a request's headers name: the validator's word on the cookies, or on a bearer token that is
  not the static key.
\<close>

definition named_by :: "'ctx validator option \<Rightarrow> string option \<Rightarrow> header_map \<Rightarrow> 'ctx \<Rightarrow> bool" where
  "named_by v key h ctx \<longleftrightarrow>
     (\<exists>val said. v = Some val \<and> vl_validate val said = Some ctx \<and>
        (header_str h ''cookie'' = Some said \<or>
         (\<exists>u. header_str h ''authorization'' \<in> {Some (''Bearer '' @ u), Some (''bearer '' @ u)} \<and>
              said = trim u \<and> key \<noteq> Some said)))"

lemma identify_caller: "identify v key h = (Inr (Some ctx), asked) \<Longrightarrow> named_by v key h ctx"
  by (auto simp: identify_def named_by_def Let_def split: option.splits if_splits dest!: rest_bearer_Some)

lemma rest_checks_call:
  fixes body :: "('p, 'v, 'd) body_read"
  assumes "fst (rest_checks st ns method r body) = Inr (c, m)"
  shows "\<exists>info auth params. registry_get (rs_registry st) ns method = Some info \<and>
           rq_method r = http_method_to_verb (rm_http_method info) \<and>
           (\<forall>ctx. auth = Some ctx \<longrightarrow> named_by (rs_validator st) (rs_api_key st) (rq_headers r) ctx) \<and>
           body = Read_json params \<and> c = call_for st ns method params auth \<and>
           mi_cardinality m = rm_cardinality info"
proof -
  from assms obtain info where i: "registry_get (rs_registry st) ns method = Some info"
      "rq_method r = http_method_to_verb (rm_http_method info)"
    by (auto simp: rest_checks_def Let_def split: option.splits if_splits)
  obtain x asked where x: "identify (rs_validator st) (rs_api_key st) (rq_headers r) =
      (x :: ('v, 'd) rest_response + _, asked)" by fastforce
  with assms i obtain auth params where "x = Inr auth" "body = Read_json params"
      "c = call_for st ns method params auth" "mi_cardinality m = rm_cardinality info"
    by (auto simp: rest_checks_def split: sum.splits body_read.splits)
  moreover have "\<forall>ctx. auth = Some ctx \<longrightarrow> named_by (rs_validator st) (rs_api_key st) (rq_headers r) ctx"
    using x identify_caller \<open>x = Inr auth\<close> by fast
  ultimately show ?thesis using i by blast
qed


definition sample_schema :: "string \<Rightarrow> unit method_schema list \<Rightarrow> unit plugin_schema" where
  "sample_schema ns ms =
     \<lparr>ps_namespace = ns, ps_version = ''1'', ps_description = [], ps_hash = ''h'', ps_methods = ms\<rparr>"

definition sample_server :: "(unit, nat, unit, (bool, unit) item_stream) rest_server" where
  "sample_server = rest_server_of (\<lambda>_ _ _. Inl ()) (sample_schema ''own'' [])
     (Some [sample_schema ''echo''
             [\<lparr>ms_name = ''once'', ms_description = [], ms_cardinality = One_value, ms_http_method = Post,
               ms_params = None\<rparr>]])
     None (Some (\<lambda>_ _ _. Inl ())) (Some one_user)
     ((rest_http_config_new ''0'' 80)\<lparr>rest_allowed_hosts := [''me'']\<rparr>) (Some ''k'')"

definition sample_post :: request where
  "sample_post = \<lparr>rq_method = ''POST'', rq_path = ''/rest/echo/once'', rq_query = None, rq_authority = None,
     rq_headers = [(''host'', Text ''me''), (''authorization'', Text ''Bearer k''), (''cookie'', Text ''sid=1'')]\<rparr>"

lemmas host_eval =
  normalized_def normalize_def trim_def trim_with_def is_whitespace_def code_def
  to_ascii_lowercase_def ascii_lower_def

lemma sample_server_fields:
  "sv_hosts sample_server = [''me'']" "sv_api_key sample_server = Some ''k''"
  "rs_validator (sv_state sample_server) = Some one_user" "rs_api_key (sv_state sample_server) = Some ''k''"
  "rs_registry (sv_state sample_server) =
     [(''echo.once'', \<lparr>rm_namespace = ''echo'', rm_method = ''once'', rm_cardinality = One_value,
        rm_http_method = Post\<rparr>)]"
  "ds_route_as (sv_state sample_server) = Some (\<lambda>_ _ _. Inl ())"
  by (simp_all add: sample_server_def sample_schema_def serve_rest_fields host_eval from_schemas_def add_method_def method_key_def)


section \<open>Who is calling\<close>

text \<open>
  C22. The same validator names the same caller on both transports: for headers whose bearer token
  is written as the WebSocket reads it and is not the static key, the REST bridge asks the
  validator the same things in the same order as the upgrade does and gets the same caller; where
  there is none, a request without a bearer token is anonymous and one with a token is refused.
\<close>

theorem rest_and_websocket_name_the_same_caller:
  assumes "\<And>s. header_str h ''authorization'' = Some s \<Longrightarrow>
             strip_prefix ''bearer '' s = None \<and>
             (\<forall>t. strip_prefix ''Bearer '' s = Some t \<longrightarrow> trim t = t \<and> key \<noteq> Some t)"
  shows "identify (Some v) key h =
         (case identify_session v h of
            (Some ctx, asked) \<Rightarrow> (Inr (Some ctx), asked)
          | (None, asked) \<Rightarrow>
              (if bearer_token h = None then Inr None else Inl (remote_error_response Unauthenticated), asked))"
proof -
  have "rest_bearer key h = bearer_token h"
    using assms
    by (cases "header_str h ''authorization''")
      (auto simp: rest_bearer_def bearer_token_def strip_bearer_def Let_def split: option.splits)
  then show ?thesis
    by (auto simp: identify_def identify_session_def Let_def split: option.splits)
qed

lemma rest_and_websocket_name_the_same_caller_witness:
  "identify (Some one_user) (Some ''k'')
     [(''cookie'', Text ''sid=0''), (''authorization'', Text ''Bearer sid=1'')] =
   (Inr (Some 7) :: (bool, unit) rest_response + nat option, [''sid=0'', ''sid=1''])"
  by (subst rest_and_websocket_name_the_same_caller)
    (auto simp: header_str_def strip_prefix_def starts_with_def host_eval identify_session_def
      bearer_token_def strip_bearer_def one_user_def)

text \<open>
  The static key is never taken for a session token: behind a key with no spaces around it, all
  the validator is ever asked of a REST request is its cookies.
\<close>

theorem the_static_key_is_never_a_session_token:
  assumes "trim key = key"
  shows "set (snd (rest_app ver (rest_server_of ung own flat rf ra v cfg (Some key)) route r body)) \<subseteq>
         {c. header_str (rq_headers r) ''cookie'' = Some c}"
proof -
  have "rest_bearer (Some key) (rq_headers r) = None"
    if "header_str (rq_headers r) ''authorization'' = Some (''Bearer '' @ key)"
    using that assms strip_prefix_append [of "''Bearer ''" key] by (simp add: rest_bearer_def)
  then show ?thesis
    by (auto simp: rest_app_def rest_auth_def serve_rest_fields rest_checks_def identify_def Let_def
        split: option.splits rest_route.splits if_splits)
qed

lemma the_static_key_is_never_a_session_token_witness:
  "set (snd (rest_app ''0'' sample_server (To_method ''echo'' ''once'') sample_post
      (Read_json () :: (unit, bool, unit) body_read))) \<subseteq> {''sid=1''}"
proof -
  have "trim ''k'' = ''k''" by (simp add: host_eval)
  note asked = the_static_key_is_never_a_session_token [OF this]
  show ?thesis unfolding sample_server_def
    by (rule subset_trans [OF asked]) (simp add: sample_post_def header_str_def)
qed

end
