(* ===== verification/Registry.thy ===== *)
theory Registry
  imports Schema Config
begin

text \<open>
  registry.rs (Z2H-6): announcing a backend to the registry and withdrawing it. jsonrpsee's
  WebSocket client is an argument: what connecting answers, and for each subscription the items
  its next reads give. A read fails, comes too late for its timeout, or gives an item; past the
  list the stream is over. An error is its words with their context before them, as \<open>{:#}\<close>
  prints them.
\<close>

definition DEFAULT_REGISTRY_URL :: string where "DEFAULT_REGISTRY_URL = ''ws://127.0.0.1:4444''"
definition REGISTRY_URL_ENV :: string where "REGISTRY_URL_ENV = ''PLEXUS_REGISTRY_URL''"
definition NO_REGISTRY_ENV :: string where "NO_REGISTRY_ENV = ''PLEXUS_NO_REGISTRY''"
definition REGISTER_ATTEMPTS :: nat where "REGISTER_ATTEMPTS = 3"
definition REGISTER_BACKOFF :: nat where "REGISTER_BACKOFF = 1000"
definition CALL_TIMEOUT :: nat where "CALL_TIMEOUT = 5000"
definition CONNECT_TIMEOUT :: nat where "CONNECT_TIMEOUT = 2000"

record registration =
  rg_url :: string
  rg_name :: string
  rg_host :: string
  rg_port :: u16
  rg_version :: string
  rg_schema_hash :: string

section \<open>The environment\<close>

definition registry_url_from_env :: "(string \<Rightarrow> string option) \<Rightarrow> string" where
  "registry_url_from_env env =
     (case map_option trim (env REGISTRY_URL_ENV) of
        None \<Rightarrow> DEFAULT_REGISTRY_URL
      | Some s \<Rightarrow> if s = [] then DEFAULT_REGISTRY_URL else s)"

definition registry_disabled_by_env :: "(string \<Rightarrow> string option) \<Rightarrow> bool" where
  "registry_disabled_by_env env =
     (case env NO_REGISTRY_ENV of
        None \<Rightarrow> False
      | Some v \<Rightarrow> to_ascii_lowercase (trim v) \<in> {''1'', ''true'', ''yes''})"

section \<open>One conversation with the registry\<close>

datatype 'j next_read = Item 'j | Read_fails string | Too_late

type_synonym 'j subscription = "string + 'j next_read list"

record 'j registry_call =
  cl_subscribe :: string
  cl_unsubscribe :: string
  cl_method :: string
  cl_params :: "'j json"

record 'j ws_client =
  wc_info :: "'j subscription"
  wc_call :: "'j registry_call \<Rightarrow> 'j subscription"

datatype 'j connecting = Connected "'j ws_client" | Connect_fails string | Connect_too_late

definition with_context :: "string \<Rightarrow> string \<Rightarrow> string" where
  "with_context c e = c @ '': '' @ e"

definition connect :: "(string \<Rightarrow> 'j connecting) \<Rightarrow> string \<Rightarrow> string + 'j ws_client" where
  "connect dial url =
     (case dial url of
        Connected client \<Rightarrow> Ok client
      | Connect_fails e \<Rightarrow> Err (with_context (''connecting to registry at '' @ url) e)
      | Connect_too_late \<Rightarrow> Err (''timed out connecting to registry at '' @ url))"

definition message_or :: "'j json_read \<Rightarrow> string \<Rightarrow> 'j \<Rightarrow> string" where
  "message_or jr otherwise j = (case get_str jr j ''message'' of Some m \<Rightarrow> m | None \<Rightarrow> otherwise)"

fun read_info :: "'j json_read \<Rightarrow> 'j next_read list \<Rightarrow> string + string" where
  "read_info jr [] = Err ''registry endpoint _info returned no backend name''"
| "read_info jr (Too_late # _) = Err ''timed out waiting for _info from the registry''"
| "read_info jr (Read_fails e # _) = Err (with_context ''reading _info stream item'' e)"
| "read_info jr (Item item # items) =
     (let kind = get_str jr item ''type'' in
      if kind = Some ''data'' then
        (case Option.bind (Option.bind (jr_get jr item ''content'') (\<lambda>c. jr_get jr c ''backend'')) (jr_str jr) of
           Some name \<Rightarrow> Ok name
         | None \<Rightarrow> read_info jr items)
      else if kind = Some ''error'' then
        Err (''_info error from registry endpoint: '' @ message_or jr ''unknown'' item)
      else if kind = Some ''done'' then Err ''registry endpoint _info returned no backend name''
      else read_info jr items)"

definition discover_namespace :: "'j json_read \<Rightarrow> 'j ws_client \<Rightarrow> string + string" where
  "discover_namespace jr client =
     (case wc_info client of
        Inl e \<Rightarrow> Err (with_context ''subscribing to _info at the registry endpoint'' e)
      | Inr items \<Rightarrow> read_info jr items)"

text \<open>\<open>null\<close> is what a data item with no content counts as.\<close>

fun read_events ::
  "'j json_read \<Rightarrow> 'j \<Rightarrow> string \<Rightarrow> 'j list \<Rightarrow> 'j next_read list \<Rightarrow> string + 'j list" where
  "read_events jr null method out [] = Ok out"
| "read_events jr null method out (Too_late # _) =
     Err (''timed out waiting for registry.'' @ method @ '' response'')"
| "read_events jr null method out (Read_fails e # _) =
     Err (with_context (''reading registry.'' @ method @ '' stream item'') e)"
| "read_events jr null method out (Item item # items) =
     (let kind = get_str jr item ''type'' in
      if kind = Some ''data'' then
        (let content = (case jr_get jr item ''content'' of Some c \<Rightarrow> c | None \<Rightarrow> null) in
         if get_str jr content ''type'' = Some ''error''
         then Err (''registry.'' @ method @ '' failed: '' @ message_or jr ''unknown error'' content)
         else read_events jr null method (out @ [content]) items)
      else if kind = Some ''error'' then
        Err (''registry.'' @ method @ '' failed: '' @ message_or jr ''unknown error'' item)
      else if kind = Some ''done'' then Ok out
      else read_events jr null method out items)"

definition call_registry ::
  "'j json_read \<Rightarrow> 'j \<Rightarrow> 'j ws_client \<Rightarrow> string \<Rightarrow> string \<Rightarrow> 'j json \<Rightarrow> string + 'j list" where
  "call_registry jr null client hub_ns method params =
     (case wc_call client \<lparr>cl_subscribe = hub_ns @ ''.call'', cl_unsubscribe = hub_ns @ ''.call_unsub'',
                           cl_method = ''registry.'' @ method, cl_params = params\<rparr> of
        Inl e \<Rightarrow> Err (with_context (''subscribing to '' @ hub_ns @ ''.call'') e)
      | Inr items \<Rightarrow> read_events jr null method [] items)"

text \<open>The words of an unconfirmed call end with the events' \<open>Debug\<close> form: \<open>show_events\<close>.\<close>

definition confirmed_call ::
  "'j json_read \<Rightarrow> 'j \<Rightarrow> (string \<Rightarrow> 'j connecting) \<Rightarrow> string \<Rightarrow> string \<Rightarrow> 'j json \<Rightarrow> string \<Rightarrow>
   ('j list \<Rightarrow> string) \<Rightarrow> string + unit"
where
  "confirmed_call jr null dial url method params event unconfirmed =
     (case connect dial url of
        Inl e \<Rightarrow> Err e
      | Inr client \<Rightarrow>
          (case discover_namespace jr client of
             Inl e \<Rightarrow> Err e
           | Inr hub_ns \<Rightarrow>
               (case call_registry jr null client hub_ns method params of
                  Inl e \<Rightarrow> Err e
                | Inr events \<Rightarrow>
                    if list_ex (\<lambda>e. get_str jr e ''type'' = Some event) events then Ok ()
                    else Err (unconfirmed events))))"

definition register_params :: "nat \<Rightarrow> registration \<Rightarrow> 'j json" where
  "register_params pid reg =
     Obj [(''name'', Str (rg_name reg)), (''host'', Str (rg_host reg)), (''port'', Num (unat (rg_port reg))),
          (''protocol'', Str ''ws''), (''version'', Str (rg_version reg)),
          (''metadata'', Obj [(''pid'', Num pid), (''schema_hash'', Str (rg_schema_hash reg))]),
          (''source'', Str ''auto'')]"

definition register ::
  "'j json_read \<Rightarrow> 'j \<Rightarrow> ('j list \<Rightarrow> string) \<Rightarrow> (string \<Rightarrow> 'j connecting) \<Rightarrow> nat \<Rightarrow> registration \<Rightarrow> string + unit"
where
  "register jr null show_events dial pid reg =
     confirmed_call jr null dial (rg_url reg) ''register'' (register_params pid reg) ''backend_registered''
       (\<lambda>es. ''registry did not confirm registration (events: '' @ show_events es @ '')'')"

definition deregister ::
  "'j json_read \<Rightarrow> 'j \<Rightarrow> ('j list \<Rightarrow> string) \<Rightarrow> (string \<Rightarrow> 'j connecting) \<Rightarrow> registration \<Rightarrow> string + unit"
where
  "deregister jr null show_events dial reg =
     confirmed_call jr null dial (rg_url reg) ''deregister'' (Obj [(''name'', Str (rg_name reg))])
       ''backend_deregistered''
       (\<lambda>es. ''registry did not confirm deregistration (events: '' @ show_events es @ '')'')"

section \<open>The retries\<close>

text \<open>
  \<open>answer n\<close> is what the \<open>n\<close>th attempt gives. The result says whether it registered, how many
  attempts it made, and how long it slept between them.
\<close>

fun try_attempts :: "(nat \<Rightarrow> string + unit) \<Rightarrow> nat list \<Rightarrow> nat \<Rightarrow> nat \<Rightarrow> bool \<times> nat \<times> nat" where
  "try_attempts answer [] made slept = (False, made, slept)"
| "try_attempts answer (attempt # later) made slept =
     (case answer attempt of
        Inr _ \<Rightarrow> (True, made + 1, slept)
      | Inl e \<Rightarrow>
          try_attempts answer later (made + 1)
            (if attempt < REGISTER_ATTEMPTS then slept + REGISTER_BACKOFF else slept))"

definition register_with_retry :: "(nat \<Rightarrow> string + unit) \<Rightarrow> bool \<times> nat \<times> nat" where
  "register_with_retry answer = try_attempts answer [1..<REGISTER_ATTEMPTS + 1] 0 0"

section \<open>Properties\<close>

text \<open>
  What a subscription's items settle to: everything up to the first \<open>done\<close> (or the end), or
  nothing when a read fails or is late before that.
\<close>

fun settled :: "'j json_read \<Rightarrow> 'j next_read list \<Rightarrow> 'j list option" where
  "settled jr [] = Some []"
| "settled jr (Item item # items) =
     (if get_str jr item ''type'' = Some ''done'' then Some []
      else map_option ((#) item) (settled jr items))"
| "settled jr (_ # items) = None"

definition event_of :: "'j json_read \<Rightarrow> 'j \<Rightarrow> 'j \<Rightarrow> 'j" where
  "event_of jr null item = (case jr_get jr item ''content'' of Some c \<Rightarrow> c | None \<Rightarrow> null)"

definition failed_item :: "'j json_read \<Rightarrow> 'j \<Rightarrow> 'j \<Rightarrow> bool" where
  "failed_item jr null item \<longleftrightarrow>
     get_str jr item ''type'' = Some ''error'' \<or>
     get_str jr item ''type'' = Some ''data'' \<and>
     get_str jr (event_of jr null item) ''type'' = Some ''error''"

lemma read_events_settled:
  "(case read_events jr null meth out items of Inl _ \<Rightarrow> None | Inr es \<Rightarrow> Some es) =
   (case settled jr items of
      None \<Rightarrow> None
    | Some its \<Rightarrow>
        if list_ex (failed_item jr null) its then None
        else Some (out @ map (event_of jr null) (filter (\<lambda>i. get_str jr i ''type'' = Some ''data'') its)))"
  by (induction jr null meth out items rule: read_events.induct)
    (auto simp: failed_item_def event_of_def Let_def split: option.splits)

lemma read_events_Ok:
  "read_events jr null meth [] items = Ok es \<longleftrightarrow>
   (\<exists>its. settled jr items = Some its \<and> \<not> list_ex (failed_item jr null) its \<and>
      es = map (event_of jr null) (filter (\<lambda>i. get_str jr i ''type'' = Some ''data'') its))"
  using read_events_settled [of jr null meth "[]" items]
  by (auto split: sum.splits option.splits if_splits)

lemma events_confirm:
  "(\<exists>es. read_events jr null meth [] items = Ok es \<and> list_ex P es) \<longleftrightarrow>
   (\<exists>its. settled jr items = Some its \<and> \<not> list_ex (failed_item jr null) its \<and>
      (\<exists>i \<in> set its. get_str jr i ''type'' = Some ''data'' \<and> P (event_of jr null i)))"
  by (auto simp: read_events_Ok list_ex_iff)

text \<open>
  C21. A backend counts as registered only on the registry's own word, and exactly then: the
  endpoint was reached and named its hub, the call's stream was read to its end with no failure,
  no late item and no error in it, and one of its data items says the backend was registered.
\<close>

theorem registered_exactly_when_the_registry_says_so:
  "register jr null show_events dial pid reg = Ok () \<longleftrightarrow>
   (\<exists>client hub_ns items its.
      dial (rg_url reg) = Connected client \<and> discover_namespace jr client = Ok hub_ns \<and>
      wc_call client \<lparr>cl_subscribe = hub_ns @ ''.call'', cl_unsubscribe = hub_ns @ ''.call_unsub'',
        cl_method = ''registry.register'', cl_params = register_params pid reg\<rparr> = Ok items \<and>
      settled jr items = Some its \<and> \<not> list_ex (failed_item jr null) its \<and>
      (\<exists>i \<in> set its. get_str jr i ''type'' = Some ''data'' \<and>
         get_str jr (event_of jr null i) ''type'' = Some ''backend_registered''))"
  (is "?registered \<longleftrightarrow> ?said")
proof -
  have "?registered \<longleftrightarrow>
      (\<exists>client hub_ns items.
        dial (rg_url reg) = Connected client \<and> discover_namespace jr client = Ok hub_ns \<and>
        wc_call client \<lparr>cl_subscribe = hub_ns @ ''.call'', cl_unsubscribe = hub_ns @ ''.call_unsub'',
          cl_method = ''registry.register'', cl_params = register_params pid reg\<rparr> = Ok items \<and>
        (\<exists>es. read_events jr null ''register'' [] items = Ok es \<and>
           list_ex (\<lambda>e. get_str jr e ''type'' = Some ''backend_registered'') es))"
    by (simp add: register_def confirmed_call_def connect_def call_registry_def
        split: connecting.split sum.split) fastforce
  also have "\<dots> \<longleftrightarrow> ?said" unfolding events_confirm by blast
  finally show ?thesis .
qed

text \<open>
  C24. The retries end: whatever each attempt meets, registering stops at the first that succeeds
  and after at most three, having slept a second between attempts and no more, and says it
  registered exactly when one of the three would have.
\<close>

theorem registering_stops_after_three_attempts:
  "\<exists>ok made. register_with_retry answer = (ok, made, 1000 * (made - 1)) \<and> made \<in> {1, 2, 3} \<and>
     (\<forall>n \<in> {1..<made}. \<exists>e. answer n = Err e) \<and> (ok \<longleftrightarrow> answer made = Ok ()) \<and>
     (ok \<longleftrightarrow> (\<exists>n \<in> {1, 2, 3}. answer n = Ok ()))"
proof -
  have "[1..<REGISTER_ATTEMPTS + 1] = [1, 2, 3]" by (simp add: REGISTER_ATTEMPTS_def upt_rec)
  then have three: "register_with_retry answer = try_attempts answer [1, 2, 3] 0 0"
    by (simp only: register_with_retry_def)
  have within: "{Suc 0..<2} = {Suc 0}" "{Suc 0..<3} = {Suc 0, 2}" by auto
  note run = three REGISTER_ATTEMPTS_def REGISTER_BACKOFF_def
  consider "answer 1 = Ok ()" | e where "answer 1 = Err e" "answer 2 = Ok ()"
    | e f where "answer 1 = Err e" "answer 2 = Err f"
    by (metis (full_types) old.unit.exhaust sum.exhaust)
  then show ?thesis
  proof cases
    case 1
    then show ?thesis by (intro exI [of _ True] exI [of _ 1]) (simp add: run)
  next
    case 2
    then show ?thesis by (intro exI [of _ True] exI [of _ 2]) (simp add: run within)
  next
    case 3
    then have "register_with_retry answer = (answer 3 = Ok (), 3, 1000 * (3 - 1))"
      by (cases "answer 3") (simp_all add: run)
    with 3 show ?thesis
      by (intro exI [of _ "answer 3 = Ok ()"] exI [of _ 3]) (simp add: within)
  qed
qed

lemma registering_stops_after_three_attempts_witness:
  "\<exists>made. register_with_retry (\<lambda>n. if n = 2 then Ok () else Err ''refused'') = (True, made, 1000 * (made - 1)) \<and>
     made \<in> {1, 2, 3}"
  using registering_stops_after_three_attempts [of "\<lambda>n. if n = 2 then Ok () else Err ''refused''"]
  by auto

end
