(* ===== verification/Stdio.thy ===== *)
theory Stdio
  imports Config
begin

text \<open>
  stdio.rs: line-delimited JSON-RPC over a pair of pipes. One task reads the requests, one task
  per call forwards the items of its stream, and one writer takes every line out of one bounded
  queue. The three race, so a run is a list of events, each what one of them does next, with what
  the pipes and the method table answered; \<open>stdio_step\<close> is that step, and None where the
  code cannot take it.

  A request's answer is what jsonrpsee's table said, an argument of the event; a stream's items
  are those its channel yields. What was ever queued is kept beside the state, in order, with the
  call each line came of.
\<close>

definition WRITE_BUDGET :: nat where
  "WRITE_BUDGET = 64 * 1024"

text \<open>In milliseconds.\<close>

definition DRAIN :: nat where
  "DRAIN = 5000"

definition newline :: char where
  "newline = CHR 0x0A"

text \<open>A line in the queue: the answer of the call it is numbered with, or an item of its stream.\<close>

datatype said = Answer nat string | Item nat string

fun line_of :: "said \<Rightarrow> string" where
  "line_of (Answer i l) = l"
| "line_of (Item i l) = l"

fun call_of :: "said \<Rightarrow> nat" where
  "call_of (Answer i l) = i"
| "call_of (Item i l) = i"

text \<open>\<open>put\<close>, in \<open>write_lines\<close>: a line and its newline.\<close>

definition put :: "string \<Rightarrow> string \<Rightarrow> string" where
  "put buf l = buf @ l @ [newline]"

text \<open>
  Where the reading loop is: at its next line, at \<open>out.send\<close> with a response, or over with
  its result. And where the writer is: at \<open>queue.recv\<close>, gathering, with bytes still to
  write, or over.
\<close>

datatype reading = Reading | Sending string | Read_over "string + unit"

datatype writing = Waiting | Gathering string | Writing string | Wrote_over "string + unit" | Aborted

record stdio_state =
  sd_reading :: reading
  sd_calls :: nat
  sd_streams :: "nat list"
  sd_shut :: bool
  sd_queue :: "said list"
  sd_writing :: writing
  sd_output :: string
  sd_result :: "(string + unit) option"
  sd_queued :: "said list"

definition stdio_start :: stdio_state where
  "stdio_start =
     \<lparr>sd_reading = Reading, sd_calls = 0, sd_streams = [], sd_shut = False, sd_queue = [],
      sd_writing = Waiting, sd_output = [], sd_result = None, sd_queued = []\<rparr>"

datatype stdio_event =
    Next_line string "string + string"
  | Read_failed string
  | Input_ended
  | Send_response
  | Notified nat string
  | Stream_ended nat
  | Shut_streams
  | Received
  | Try_received
  | Gathered
  | Accepted nat
  | Flushed
  | Write_failed string
  | Queue_closed
  | Joined
  | Drain_elapsed nat

text \<open>The receiver of the queue is dropped with the writer, which is what fails a send.\<close>

definition receiver_gone :: "stdio_state \<Rightarrow> bool" where
  "receiver_gone s \<longleftrightarrow> (case sd_writing s of Wrote_over _ \<Rightarrow> True | Aborted \<Rightarrow> True | _ \<Rightarrow> False)"

definition enqueue :: "said \<Rightarrow> stdio_state \<Rightarrow> stdio_state" where
  "enqueue l s = s\<lparr>sd_queue := sd_queue s @ [l], sd_queued := sd_queued s @ [l]\<rparr>"

section \<open>The reading loop\<close>

text \<open>A line read and, when it is not blank, called: \<open>serve_lines\<close>, up to the send.\<close>

definition read_line :: "string \<Rightarrow> string + string \<Rightarrow> stdio_state \<Rightarrow> stdio_state" where
  "read_line l answer s =
     (if trim l = [] then s
      else case answer of
             Inl e \<Rightarrow> s\<lparr>sd_reading := Read_over (Err (''RPC error: '' @ e))\<rparr>
           | Inr response \<Rightarrow> s\<lparr>sd_reading := Sending response\<rparr>)"

text \<open>
  The send of the response: it waits for room in the queue, and fails when the writer is gone.
  The task of its stream is spawned after it.
\<close>

definition queue_response :: "nat \<Rightarrow> string \<Rightarrow> stdio_state \<Rightarrow> stdio_state option" where
  "queue_response room response s =
     (if receiver_gone s then Some (s\<lparr>sd_reading := Read_over (Ok ())\<rparr>)
      else if length (sd_queue s) < room then
        Some ((enqueue (Answer (sd_calls s) response) s)
                \<lparr>sd_reading := Reading, sd_calls := sd_calls s + 1,
                 sd_streams := sd_calls s # sd_streams s\<rparr>)
      else None)"

text \<open>A stream's task, at an item: it waits for room as well, and ends when the send fails.\<close>

definition forward_item :: "nat \<Rightarrow> nat \<Rightarrow> string \<Rightarrow> stdio_state \<Rightarrow> stdio_state option" where
  "forward_item room i item s =
     (if i \<notin> set (sd_streams s) then None
      else if receiver_gone s then Some (s\<lparr>sd_streams := removeAll i (sd_streams s)\<rparr>)
      else if length (sd_queue s) < room then Some (enqueue (Item i item) s)
      else None)"

section \<open>The writer\<close>

text \<open>
  \<open>write_lines\<close>: the first line as it comes, then whatever is in the queue up to the
  budget, then one write and one flush. The pipe takes the bytes in any pieces, and may fail
  after any of them.
\<close>

definition take_first :: "stdio_state \<Rightarrow> stdio_state option" where
  "take_first s =
     (case (sd_writing s, sd_queue s) of
        (Waiting, l # q) \<Rightarrow> Some (s\<lparr>sd_writing := Gathering (put [] (line_of l)), sd_queue := q\<rparr>)
      | _ \<Rightarrow> None)"

definition take_more :: "stdio_state \<Rightarrow> stdio_state option" where
  "take_more s =
     (case (sd_writing s, sd_queue s) of
        (Gathering buf, l # q) \<Rightarrow>
          if length buf < WRITE_BUDGET
          then Some (s\<lparr>sd_writing := Gathering (put buf (line_of l)), sd_queue := q\<rparr>) else None
      | _ \<Rightarrow> None)"

definition start_write :: "stdio_state \<Rightarrow> stdio_state option" where
  "start_write s =
     (case sd_writing s of
        Gathering buf \<Rightarrow>
          if WRITE_BUDGET \<le> length buf \<or> sd_queue s = []
          then Some (s\<lparr>sd_writing := Writing buf\<rparr>) else None
      | _ \<Rightarrow> None)"

definition accept_bytes :: "nat \<Rightarrow> stdio_state \<Rightarrow> stdio_state option" where
  "accept_bytes n s =
     (case sd_writing s of
        Writing bytes \<Rightarrow>
          Some (s\<lparr>sd_writing := Writing (drop n bytes), sd_output := sd_output s @ take n bytes\<rparr>)
      | _ \<Rightarrow> None)"

definition end_write :: "stdio_state \<Rightarrow> stdio_state option" where
  "end_write s = (if sd_writing s = Writing [] then Some (s\<lparr>sd_writing := Waiting\<rparr>) else None)"

definition fail_write :: "string \<Rightarrow> stdio_state \<Rightarrow> stdio_state option" where
  "fail_write e s =
     (case sd_writing s of
        Writing bytes \<Rightarrow> Some (s\<lparr>sd_writing := Wrote_over (Err e)\<rparr>)
      | _ \<Rightarrow> None)"

text \<open>\<open>recv\<close> answers None when the queue is empty and every sender is dropped.\<close>

definition close_writer :: "stdio_state \<Rightarrow> stdio_state option" where
  "close_writer s =
     (if sd_writing s = Waiting \<and> sd_shut s \<and> sd_queue s = []
      then Some (s\<lparr>sd_writing := Wrote_over (Ok ())\<rparr>) else None)"

section \<open>The end\<close>

text \<open>
  Once the loop is over, every stream is dropped and the last sender with them, and the writer
  has \<open>drain\<close> to end: \<open>read.and(wrote)\<close> when it does, what the reading said when it is
  aborted instead.
\<close>

definition shut_streams :: "stdio_state \<Rightarrow> stdio_state option" where
  "shut_streams s =
     (case sd_reading s of
        Read_over _ \<Rightarrow> if sd_shut s then None else Some (s\<lparr>sd_streams := [], sd_shut := True\<rparr>)
      | _ \<Rightarrow> None)"

definition join_writer :: "stdio_state \<Rightarrow> stdio_state option" where
  "join_writer s =
     (case (sd_reading s, sd_writing s) of
        (Read_over r, Wrote_over w) \<Rightarrow>
          if sd_shut s \<and> sd_result s = None
          then Some (s\<lparr>sd_result := Some (case r of Inl e \<Rightarrow> Err e | Inr _ \<Rightarrow> w)\<rparr>) else None
      | _ \<Rightarrow> None)"

definition abort_writer :: "nat \<Rightarrow> nat \<Rightarrow> stdio_state \<Rightarrow> stdio_state option" where
  "abort_writer drain waited s =
     (case sd_reading s of
        Read_over r \<Rightarrow>
          if sd_shut s \<and> sd_result s = None \<and> \<not> receiver_gone s \<and> drain \<le> waited
          then Some (s\<lparr>sd_writing := Aborted, sd_result := Some r\<rparr>) else None
      | _ \<Rightarrow> None)"

fun stdio_step :: "nat \<Rightarrow> nat \<Rightarrow> stdio_event \<Rightarrow> stdio_state \<Rightarrow> stdio_state option" where
  "stdio_step room drain (Next_line l answer) s =
     (if sd_reading s = Reading then Some (read_line l answer s) else None)"
| "stdio_step room drain (Read_failed e) s =
     (if sd_reading s = Reading then Some (s\<lparr>sd_reading := Read_over (Err e)\<rparr>) else None)"
| "stdio_step room drain Input_ended s =
     (if sd_reading s = Reading then Some (s\<lparr>sd_reading := Read_over (Ok ())\<rparr>) else None)"
| "stdio_step room drain Send_response s =
     (case sd_reading s of Sending response \<Rightarrow> queue_response room response s | _ \<Rightarrow> None)"
| "stdio_step room drain (Notified i item) s = forward_item room i item s"
| "stdio_step room drain (Stream_ended i) s =
     (if i \<in> set (sd_streams s) then Some (s\<lparr>sd_streams := removeAll i (sd_streams s)\<rparr>) else None)"
| "stdio_step room drain Shut_streams s = shut_streams s"
| "stdio_step room drain Received s = take_first s"
| "stdio_step room drain Try_received s = take_more s"
| "stdio_step room drain Gathered s = start_write s"
| "stdio_step room drain (Accepted n) s = accept_bytes n s"
| "stdio_step room drain Flushed s = end_write s"
| "stdio_step room drain (Write_failed e) s = fail_write e s"
| "stdio_step room drain Queue_closed s = close_writer s"
| "stdio_step room drain Joined s = join_writer s"
| "stdio_step room drain (Drain_elapsed waited) s = abort_writer drain waited s"

fun stdio_run :: "nat \<Rightarrow> nat \<Rightarrow> stdio_event list \<Rightarrow> stdio_state \<Rightarrow> stdio_state option" where
  "stdio_run room drain [] s = Some s"
| "stdio_run room drain (e # es) s =
     (case stdio_step room drain e s of None \<Rightarrow> None | Some s' \<Rightarrow> stdio_run room drain es s')"

text \<open>\<open>serve_lines\<close> and \<open>serve_stdio\<close>: a run from the start, with the queue's room.\<close>

definition serve_lines :: "stdio_config \<Rightarrow> nat \<Rightarrow> stdio_event list \<Rightarrow> stdio_state option" where
  "serve_lines config drain es = stdio_run (max 1 (subscription_buffer_size config)) drain es stdio_start"

definition serve_stdio :: "stdio_config \<Rightarrow> stdio_event list \<Rightarrow> stdio_state option" where
  "serve_stdio config es = serve_lines config DRAIN es"

section \<open>What a run keeps\<close>

definition framed :: "said list \<Rightarrow> string" where
  "framed ls = concat (map (\<lambda>l. line_of l @ [newline]) ls)"

fun in_hand :: "writing \<Rightarrow> string" where
  "in_hand (Gathering buf) = buf"
| "in_hand (Writing bytes) = bytes"
| "in_hand w = []"

text \<open>
  Every byte of the queued lines is in the output, in the writer's hand or in the queue, in the
  order they were queued; only a writer that failed or was aborted loses what it held.
\<close>

definition bytes_kept :: "stdio_state \<Rightarrow> bool" where
  "bytes_kept s \<longleftrightarrow>
     (\<exists>held. framed (sd_queued s) = sd_output s @ held @ framed (sd_queue s) \<and>
        ((\<nexists>e. sd_writing s = Wrote_over (Err e)) \<and> sd_writing s \<noteq> Aborted \<longrightarrow>
           held = in_hand (sd_writing s)))"

definition calls_ordered :: "stdio_state \<Rightarrow> bool" where
  "calls_ordered s \<longleftrightarrow>
     set (sd_streams s) \<subseteq> {..<sd_calls s} \<and>
     (\<forall>i < sd_calls s. \<exists>r items. filter (\<lambda>l. call_of l = i) (sd_queued s) = Answer i r # map (Item i) items) \<and>
     (\<forall>i \<ge> sd_calls s. filter (\<lambda>l. call_of l = i) (sd_queued s) = [])"

definition ends_in_order :: "stdio_state \<Rightarrow> bool" where
  "ends_in_order s \<longleftrightarrow>
     (sd_shut s \<longrightarrow> sd_streams s = [] \<and> (\<exists>r. sd_reading s = Read_over r)) \<and>
     (sd_writing s = Wrote_over (Ok ()) \<longrightarrow> sd_shut s \<and> sd_queue s = []) \<and>
     (sd_result s \<noteq> None \<longrightarrow> sd_shut s \<and> receiver_gone s)"

definition in_room :: "nat \<Rightarrow> stdio_state \<Rightarrow> bool" where
  "in_room room s \<longleftrightarrow> length (sd_queue s) \<le> room"

lemma framed_simps [simp]:
  "framed [] = []"
  "framed (l # ls) = line_of l @ newline # framed ls"
  "framed (ls @ ms) = framed ls @ framed ms"
  by (simp_all add: framed_def)

lemmas stdio_ops = read_line_def queue_response_def forward_item_def enqueue_def take_first_def
  take_more_def start_write_def accept_bytes_def end_write_def fail_write_def close_writer_def
  shut_streams_def join_writer_def abort_writer_def put_def

lemma bytes_kept_start: "bytes_kept stdio_start"
  by (simp add: bytes_kept_def stdio_start_def)

lemma calls_ordered_start: "calls_ordered stdio_start"
  by (simp add: calls_ordered_def stdio_start_def)

lemma ends_in_order_start: "ends_in_order stdio_start"
  by (simp add: ends_in_order_def stdio_start_def)

lemma bytes_kept_step: "stdio_step room drain e s = Some s' \<Longrightarrow> bytes_kept s \<Longrightarrow> bytes_kept s'"
  by (cases e)
    (auto simp: bytes_kept_def stdio_ops
      split: if_splits reading.splits writing.splits list.splits sum.splits)

lemma receiver_gone_simps [simp]:
  "sd_writing s = Wrote_over w \<Longrightarrow> receiver_gone s"
  "sd_writing s = Aborted \<Longrightarrow> receiver_gone s"
  "sd_writing s = Waiting \<Longrightarrow> \<not> receiver_gone s"
  "sd_writing s = Gathering buf \<Longrightarrow> \<not> receiver_gone s"
  "sd_writing s = Writing bytes \<Longrightarrow> \<not> receiver_gone s"
  by (simp_all add: receiver_gone_def)

lemma receiver_gone_cong:
  "sd_writing s = sd_writing t \<Longrightarrow> receiver_gone s = receiver_gone t"
  by (simp add: receiver_gone_def)

lemma ends_in_order_step:
  assumes "stdio_step room drain e s = Some s'" and "ends_in_order s"
  shows "ends_in_order s'"
proof (cases e)
  case (Next_line l answer)
  with assms show ?thesis
    by (auto simp: ends_in_order_def read_line_def receiver_gone_def split: if_splits sum.splits)
next
  case Send_response
  with assms show ?thesis
    by (auto simp: ends_in_order_def queue_response_def enqueue_def receiver_gone_def
        split: if_splits reading.splits)
next
  case (Notified i item)
  with assms show ?thesis
    by (auto simp: ends_in_order_def forward_item_def enqueue_def receiver_gone_def split: if_splits)
next
  case Shut_streams
  with assms show ?thesis
    by (auto simp: ends_in_order_def shut_streams_def receiver_gone_def split: if_splits reading.splits)
next
  case Received
  with assms show ?thesis
    by (auto simp: ends_in_order_def take_first_def split: writing.splits list.splits)
next
  case Try_received
  with assms show ?thesis
    by (auto simp: ends_in_order_def take_more_def split: if_splits writing.splits list.splits)
next
  case Joined
  with assms show ?thesis
    by (auto simp: ends_in_order_def join_writer_def split: if_splits reading.splits writing.splits)
next
  case (Drain_elapsed waited)
  with assms show ?thesis
    by (auto simp: ends_in_order_def abort_writer_def split: if_splits reading.splits)
qed (use assms in \<open>auto simp: ends_in_order_def start_write_def accept_bytes_def end_write_def
      fail_write_def close_writer_def receiver_gone_def split: if_splits writing.splits\<close>)

lemma calls_ordered_step:
  assumes "stdio_step room drain e s = Some s'" and "calls_ordered s"
  shows "calls_ordered s'"
proof (cases e)
  case (Next_line l answer)
  with assms show ?thesis
    by (auto simp: calls_ordered_def read_line_def split: if_splits sum.splits)
next
  case Send_response
  with assms show ?thesis
    by (auto simp: calls_ordered_def queue_response_def enqueue_def less_Suc_eq
        split: if_splits reading.splits)
next
  case (Notified i item)
  show ?thesis
  proof (cases "receiver_gone s")
    case True
    with Notified assms show ?thesis
      by (auto simp: calls_ordered_def forward_item_def split: if_splits)
  next
    case False
    with Notified assms have live: "i < sd_calls s" and s': "s' = enqueue (Item i item) s"
      by (auto simp: calls_ordered_def forward_item_def split: if_splits)
    from assms(2) live obtain r items
      where "filter (\<lambda>l. call_of l = i) (sd_queued s) = Answer i r # map (Item i) items"
      by (auto simp: calls_ordered_def)
    then have "filter (\<lambda>l. call_of l = i) (sd_queued s @ [Item i item])
                 = Answer i r # map (Item i) (items @ [item])"
      by simp
    then have "\<exists>r items. filter (\<lambda>l. call_of l = i) (sd_queued s @ [Item i item])
                 = Answer i r # map (Item i) items"
      by blast
    moreover have "filter (\<lambda>l. call_of l = j) (sd_queued s @ [Item i item])
                     = filter (\<lambda>l. call_of l = j) (sd_queued s)" if "j \<noteq> i" for j
      using that by simp
    ultimately have "(\<exists>r items. filter (\<lambda>l. call_of l = j) (sd_queued s @ [Item i item])
                       = Answer j r # map (Item j) items)" if "j < sd_calls s" for j
      using assms(2) that unfolding calls_ordered_def by (cases "j = i") auto
    then show ?thesis
      using assms(2) live unfolding s' calls_ordered_def enqueue_def by auto
  qed
next
  case Shut_streams
  with assms show ?thesis
    by (auto simp: calls_ordered_def shut_streams_def split: if_splits reading.splits)
next
  case Received
  with assms show ?thesis
    by (auto simp: calls_ordered_def take_first_def split: writing.splits list.splits)
next
  case Try_received
  with assms show ?thesis
    by (auto simp: calls_ordered_def take_more_def split: if_splits writing.splits list.splits)
next
  case Joined
  with assms show ?thesis
    by (auto simp: calls_ordered_def join_writer_def split: if_splits reading.splits writing.splits)
next
  case (Drain_elapsed waited)
  with assms show ?thesis
    by (auto simp: calls_ordered_def abort_writer_def split: if_splits reading.splits)
qed (use assms in \<open>auto simp: calls_ordered_def start_write_def accept_bytes_def end_write_def
      fail_write_def close_writer_def split: if_splits writing.splits\<close>)

lemma in_room_step: "stdio_step room drain e s = Some s' \<Longrightarrow> in_room room s \<Longrightarrow> in_room room s'"
  by (cases e)
    (auto simp: in_room_def stdio_ops
      split: if_splits reading.splits writing.splits list.splits sum.splits)

lemma stdio_run_induct:
  assumes "\<And>e s s'. stdio_step room drain e s = Some s' \<Longrightarrow> P s \<Longrightarrow> P s'"
    and "P s" and "stdio_run room drain es s = Some s'"
  shows "P s'"
  using assms(2,3)
  by (induction es arbitrary: s) (auto split: option.splits intro: assms(1))

lemma serve_lines_keeps:
  assumes "serve_lines config drain es = Some s"
  shows "bytes_kept s" and "calls_ordered s" and "ends_in_order s"
    and "in_room (max 1 (subscription_buffer_size config)) s"
proof -
  note run = assms [unfolded serve_lines_def]
  show "bytes_kept s"
    by (rule stdio_run_induct [where P = bytes_kept, OF _ bytes_kept_start run]) (rule bytes_kept_step)
  show "calls_ordered s"
    by (rule stdio_run_induct [where P = calls_ordered, OF _ calls_ordered_start run]) (rule calls_ordered_step)
  show "ends_in_order s"
    by (rule stdio_run_induct [where P = ends_in_order, OF _ ends_in_order_start run]) (rule ends_in_order_step)
  have start: "in_room (max 1 (subscription_buffer_size config)) stdio_start"
    by (simp add: in_room_def stdio_start_def)
  show "in_room (max 1 (subscription_buffer_size config)) s"
    by (rule stdio_run_induct [where P = "in_room (max 1 (subscription_buffer_size config))",
        OF _ start run])
      (rule in_room_step)
qed

section \<open>What the client reads\<close>

text \<open>A prefix of framed lines is whole lines and the beginning of the next.\<close>

lemma split_framed_prefix:
  assumes "framed ls = out @ rest" and "\<forall>l \<in> set ls. newline \<notin> set (line_of l)"
  shows "\<exists>k part. split_on newline out = map line_of (take k ls) @ [part] \<and> k \<le> length ls \<and>
           (if k < length ls then \<exists>more. line_of (ls ! k) = part @ more else part = [])"
  using assms
proof (induction ls arbitrary: out)
  case Nil
  then show ?case by simp
next
  case (Cons l ls)
  then have line: "newline \<notin> set (line_of l)" by simp
  from Cons.prems(1) have "line_of l @ newline # framed ls = out @ rest" by simp
  then consider (within) more where "line_of l = out @ more"
    | (beyond) out' where "out = line_of l @ newline # out'" and "framed ls = out' @ rest"
    by (auto simp: append_eq_append_conv2 Cons_eq_append_conv)
  then show ?case
  proof cases
    case within
    then have "split_on newline out = [out]"
      using line by (intro split_on_no_sep) auto
    then show ?thesis using within by (intro exI [of _ 0] exI [of _ out]) auto
  next
    case beyond
    with Cons obtain k part
      where "split_on newline out' = map line_of (take k ls) @ [part]" and "k \<le> length ls"
        and "if k < length ls then \<exists>more. line_of (ls ! k) = part @ more else part = []"
      by auto
    then show ?thesis
      using beyond(1) line
      by (intro exI [of _ "Suc k"] exI [of _ part])
        (simp add: split_on_append_sep split_on_no_sep)
  qed
qed

lemma split_framed:
  "\<forall>l \<in> set ls. newline \<notin> set (line_of l) \<Longrightarrow> split_on newline (framed ls) = map line_of ls @ [[]]"
  by (induction ls) (auto simp: split_on_append_sep split_on_no_sep)

section \<open>Properties\<close>

text \<open>
  C6. However the streams, the writer's gathering and the pipe's partial writes interleave, what a
  client has read from stdout, split at its newlines, is the lines in the order they were queued
  and the beginning of the next one: a line and its newline are never separated. When the writer
  ended without an error, it is every line that was ever queued.
\<close>

theorem stdout_is_the_queued_lines:
  assumes "serve_lines config drain es = Some s"
    and "\<forall>l \<in> set (sd_queued s). newline \<notin> set (line_of l)"
  shows "\<exists>k part. split_on newline (sd_output s) = map line_of (take k (sd_queued s)) @ [part] \<and>
           (if k < length (sd_queued s) then \<exists>more. line_of (sd_queued s ! k) = part @ more
            else part = []) \<and>
           (sd_writing s = Wrote_over (Ok ()) \<longrightarrow>
              split_on newline (sd_output s) = map line_of (sd_queued s) @ [[]])"
proof -
  obtain held where bytes: "framed (sd_queued s) = sd_output s @ held @ framed (sd_queue s)"
    and hand: "(\<nexists>e. sd_writing s = Wrote_over (Err e)) \<and> sd_writing s \<noteq> Aborted \<longrightarrow> held = in_hand (sd_writing s)"
    using serve_lines_keeps(1) [OF assms(1)] unfolding bytes_kept_def by blast
  have "split_on newline (sd_output s) = map line_of (sd_queued s) @ [[]]"
    if "sd_writing s = Wrote_over (Ok ())"
    using that hand bytes split_framed [OF assms(2)] serve_lines_keeps(3) [OF assms(1)]
    by (simp add: ends_in_order_def)
  with split_framed_prefix [OF bytes assms(2)] show ?thesis by blast
qed

definition two_calls :: "stdio_event list" where
  "two_calls =
     [Next_line ''a'' (Ok ''1''), Send_response, Received, Next_line '' '' (Err []), Notified 0 ''x'',
      Try_received, Gathered, Accepted 1, Next_line ''b'' (Ok ''2''), Send_response, Accepted 3,
      Flushed, Input_ended, Shut_streams, Received, Gathered, Accepted 2, Flushed, Queue_closed, Joined]"

lemma two_calls_run:
  "serve_lines \<lparr>subscription_buffer_size = 0\<rparr> DRAIN two_calls =
     Some \<lparr>sd_reading = Read_over (Ok ()), sd_calls = 2, sd_streams = [], sd_shut = True, sd_queue = [],
           sd_writing = Wrote_over (Ok ()), sd_output = ''1'' @ newline # ''x'' @ newline # ''2'' @ [newline],
           sd_result = Some (Ok ()), sd_queued = [Answer 0 ''1'', Item 0 ''x'', Answer 1 ''2'']\<rparr>"
  by (simp add: two_calls_def serve_lines_def stdio_start_def stdio_ops receiver_gone_def
      WRITE_BUDGET_def trim_def trim_with_def is_whitespace_def code_def)

lemma stdout_is_the_queued_lines_witness:
  "split_on newline (''1'' @ newline # ''x'' @ newline # ''2'' @ [newline]) = [''1'', ''x'', ''2'', []]"
  using stdout_is_the_queued_lines [OF two_calls_run] by (simp add: newline_def)

text \<open>
  C16. The lines of one call, in the order they reach stdout, are its answer and then its stream's
  items and nothing else, and no line belongs to a call that was not answered; the queue never
  holds more than the configured buffer, which is read as at least one; and once the input's end
  has dropped the streams, the only lines left are those already queued.
\<close>

theorem a_call_is_answered_before_its_items:
  assumes "serve_lines config drain es = Some s"
  shows "(if i < sd_calls s
          then \<exists>r items. filter (\<lambda>l. call_of l = i) (sd_queued s) = Answer i r # map (Item i) items
          else filter (\<lambda>l. call_of l = i) (sd_queued s) = []) \<and>
         length (sd_queue s) \<le> max 1 (subscription_buffer_size config) \<and>
         (sd_shut s \<longrightarrow> stdio_step room drain (Notified i item) s = None \<and>
            stdio_step room drain Send_response s = None)"
  using serve_lines_keeps [OF assms]
  by (auto simp: calls_ordered_def in_room_def ends_in_order_def forward_item_def)

lemma a_call_is_answered_before_its_items_witness:
  "\<exists>r items. filter (\<lambda>l. call_of l = 0) [Answer 0 ''1'', Item 0 ''x'', Answer 1 ''2'']
     = Answer 0 r # map (Item 0) items"
  using a_call_is_answered_before_its_items [OF two_calls_run, of 0] by simp

end
