(* ===== verification/Mcp.thy ===== *)
theory Mcp
  imports Rest
begin

text \<open>
  mcp/: the bridge that makes any activation an MCP server (bridge.rs), the HTTP app it stands in
  (server.rs) and the service mounted in this process (service_upstream.rs). rmcp's sessions and
  its protocol are not under src/: what it hands the bridge is a request, what the bridge hands it
  is the notifications and the result. serde's readers and writers are the record \<open>mcp_json\<close>, an
  argument.
\<close>

section \<open>bridge.rs\<close>

subsection \<open>Schemas\<close>

record 'j tool =
  tool_name :: string
  tool_description :: string
  tool_input :: "(string \<times> 'j json) list"

definition type_object :: "string \<times> 'j json" where
  "type_object = (''type'', Str ''object'')"

definition input_schema :: "'j json_read \<Rightarrow> 'j option \<Rightarrow> (string \<times> 'j json) list" where
  "input_schema jr params =
     (case Option.bind params (jr_object jr) of
        Some obj \<Rightarrow>
          (let read = map (\<lambda>(k, v). (k, Leaf v)) obj
           in if map_of read ''type'' = None then read @ [type_object] else read)
      | None \<Rightarrow> [type_object])"

definition schemas_to_rmcp_tools :: "'j json_read \<Rightarrow> 'j plugin_schema list \<Rightarrow> 'j tool list" where
  "schemas_to_rmcp_tools jr schemas =
     concat (map (\<lambda>s. map (\<lambda>m. \<lparr>tool_name = ps_namespace s @ ''.'' @ ms_name m,
                                 tool_description = ms_description m,
                                 tool_input = input_schema jr (ms_params m)\<rparr>) (ps_methods s)) schemas)"

subsection \<open>Errors and notifications\<close>

record 'v mcp_error =
  me_code :: int
  me_message :: string
  me_data :: "'v option"

text \<open>plexus-core's rejection of a call: a code, its words and raw data.\<close>

record rejection =
  rj_code :: int
  rj_message :: string
  rj_data :: "string option"

record ('v, 'd, 'n) mcp_json =
  mj_parse :: "string \<Rightarrow> 'v option"
  mj_text :: "'v \<Rightarrow> string"
  mj_pretty :: "'v \<Rightarrow> string"
  mj_pretty_all :: "'v list \<Rightarrow> string"
  mj_string :: "'v \<Rightarrow> string option"
  mj_field :: "'v \<Rightarrow> string \<Rightarrow> 'v option"
  mj_number :: "'v \<Rightarrow> 'n option"
  mj_zero :: 'n
  mj_show :: "'d remote_error \<Rightarrow> string"
  mj_error :: "'d remote_error \<Rightarrow> 'v option"

definition plexus_to_mcp_error ::
  "('v, 'd, 'n) mcp_json \<Rightarrow> ('e \<Rightarrow> rejection) \<Rightarrow> 'e \<Rightarrow> 'v mcp_error" where
  "plexus_to_mcp_error mj to_jsonrpc e =
     (let r = to_jsonrpc e
      in \<lparr>me_code = rj_code r, me_message = rj_message r,
          me_data = Option.bind (rj_data r) (mj_parse mj)\<rparr>)"

text \<open>\<open>McpError::internal_error\<close>: JSON-RPC's internal error.\<close>

definition cancelled_error :: "'v mcp_error" where
  "cancelled_error = \<lparr>me_code = - 32603, me_message = ''Cancelled'', me_data = None\<rparr>"

definition progress_note :: "('v, 'd, 'n) mcp_json \<Rightarrow> 'v \<Rightarrow> string \<times> 'n option" where
  "progress_note mj content =
     (case Option.bind (mj_field mj content ''message'') (mj_string mj) of
        Some message \<Rightarrow> (message, Option.bind (mj_field mj content ''percentage'') (mj_number mj))
      | None \<Rightarrow> (mj_text mj content, None))"

record 'v tool_result =
  tr_is_error :: bool
  tr_text :: string
  tr_structured :: "'v option"

definition remote_error_tool_result ::
  "('v, 'd, 'n) mcp_json \<Rightarrow> 'd remote_error \<Rightarrow> 'v tool_result" where
  "remote_error_tool_result mj e =
     \<lparr>tr_is_error = True, tr_text = mj_show mj e, tr_structured = mj_error mj e\<rparr>"

datatype mcp_level = Info_level | Error_level

datatype ('v, 'd, 'n) mcp_notification =
    Log mcp_level string "('v, 'd) item_json"
  | Progress string 'n string

definition log_param ::
  "mcp_level \<Rightarrow> string \<Rightarrow> ('v, 'd) item_json \<Rightarrow> ('v, 'd, 'n) mcp_notification" where
  "log_param level logger data = Log level logger data"

subsection \<open>The bridge\<close>

record ('j, 'p, 'e, 's) mcp_bridge =
  mb_namespace :: string
  mb_version :: string
  mb_description :: string
  mb_schema :: "'j plugin_schema"
  mb_ungated :: "string \<Rightarrow> 'p \<Rightarrow> 'e + 's"
  mb_flat :: "'j plugin_schema list option"
  mb_name_override :: "string option"
  mb_version_override :: "string option"
  mb_router :: "(string \<Rightarrow> 'p \<Rightarrow> 'e + 's) option"

text \<open>
  An activation: its own words, its schema, and its methods called with no gate, as the caller
  given; this bridge names none.
\<close>

record ('j, 'p, 'ctx, 'e, 's) activation =
  ac_namespace :: string
  ac_version :: string
  ac_description :: string
  ac_schema :: "'j plugin_schema"
  ac_ungated :: "string \<Rightarrow> 'p \<Rightarrow> 'ctx option \<Rightarrow> 'e + 's"

definition mcp_server_info_and_schemas ::
  "('j, 'p, 'ctx, 'e, 's) activation \<Rightarrow> string option \<Rightarrow> string option \<Rightarrow> 'j plugin_schema list option \<Rightarrow>
   ('j, 'p, 'e, 's) mcp_bridge"
where
  "mcp_server_info_and_schemas a server_name server_version schemas =
     \<lparr>mb_namespace = ac_namespace a, mb_version = ac_version a, mb_description = ac_description a,
      mb_schema = ac_schema a, mb_ungated = (\<lambda>method params. ac_ungated a method params None), mb_flat = schemas,
      mb_name_override = server_name, mb_version_override = server_version, mb_router = None\<rparr>"

definition mcp_bridge_new :: "('j, 'p, 'ctx, 'e, 's) activation \<Rightarrow> ('j, 'p, 'e, 's) mcp_bridge" where
  "mcp_bridge_new a = mcp_server_info_and_schemas a None None None"

definition mcp_flat_schemas ::
  "('j, 'p, 'ctx, 'e, 's) activation \<Rightarrow> 'j plugin_schema list \<Rightarrow> ('j, 'p, 'e, 's) mcp_bridge" where
  "mcp_flat_schemas a schemas = mcp_server_info_and_schemas a None None (Some schemas)"

definition mcp_server_info ::
  "('j, 'p, 'ctx, 'e, 's) activation \<Rightarrow> string option \<Rightarrow> string option \<Rightarrow> ('j, 'p, 'e, 's) mcp_bridge" where
  "mcp_server_info a server_name server_version =
     mcp_server_info_and_schemas a server_name server_version None"

definition mcp_with_router ::
  "(string \<Rightarrow> 'p \<Rightarrow> 'e + 's) \<Rightarrow> ('j, 'p, 'e, 's) mcp_bridge \<Rightarrow> ('j, 'p, 'e, 's) mcp_bridge" where
  "mcp_with_router router b = b\<lparr>mb_router := Some router\<rparr>"

record server_info =
  si_name :: string
  si_version :: string
  si_instructions :: string

definition get_info :: "('j, 'p, 'e, 's) mcp_bridge \<Rightarrow> server_info" where
  "get_info b =
     \<lparr>si_name = (case mb_name_override b of Some n \<Rightarrow> n | None \<Rightarrow> mb_namespace b),
      si_version = (case mb_version_override b of Some v \<Rightarrow> v | None \<Rightarrow> mb_version b),
      si_instructions = mb_description b\<rparr>"

definition list_tools :: "'j json_read \<Rightarrow> ('j, 'p, 'e, 's) mcp_bridge \<Rightarrow> 'j tool list" where
  "list_tools jr b =
     schemas_to_rmcp_tools jr (case mb_flat b of Some schemas \<Rightarrow> schemas | None \<Rightarrow> [mb_schema b])"

subsection \<open>A tool call\<close>

text \<open>
  The URL's query, each pair an entry \<open>query.<key>\<close>, the last of a key winning, put into the
  arguments as \<open>_connection\<close>. How a query is cut into pairs is an argument.
\<close>

definition connection_meta :: "(string \<times> string) list \<Rightarrow> (string \<times> 'x json) list" where
  "connection_meta pairs =
     foldl (\<lambda>meta (key, v). AList.update (''query.'' @ key) (Str v) meta) [] pairs"

definition tool_arguments ::
  "(string \<Rightarrow> (string \<times> string) list) \<Rightarrow> request option \<Rightarrow> (string \<times> 'x json) list option \<Rightarrow>
   (string \<times> 'x json) list"
where
  "tool_arguments form_pairs parts arguments =
     (let arguments_map = (case arguments of Some given \<Rightarrow> given | None \<Rightarrow> []);
          meta = (case Option.bind parts rq_query of
                    Some query \<Rightarrow> connection_meta (form_pairs query)
                  | None \<Rightarrow> [])
      in if meta = [] then arguments_map
         else AList.update ''_connection'' (Obj meta) arguments_map)"

definition leaf_method :: "string \<Rightarrow> string" where
  "leaf_method name =
     (if CHR ''.'' \<in> set name
      then (let pieces = split_on CHR ''.'' name in if 1 < length pieces then pieces ! 1 else name)
      else name)"

definition call_activation ::
  "('j, 'x json, 'e, 's) mcp_bridge \<Rightarrow> string \<Rightarrow> (string \<times> 'x json) list \<Rightarrow> 'e + 's" where
  "call_activation b name arguments =
     (case mb_router b of
        Some router \<Rightarrow> router name (Obj arguments)
      | None \<Rightarrow> mb_ungated b (leaf_method name) (Obj arguments))"

text \<open>What one item sends the client.\<close>

definition item_notifications ::
  "('v, 'd, 'n) mcp_json \<Rightarrow> string \<Rightarrow> string option \<Rightarrow> ('v, 'd) stream_item \<Rightarrow>
   ('v, 'd, 'n) mcp_notification list"
where
  "item_notifications mj logger token item =
     (case item of
        Progress_item content_type content \<Rightarrow>
          log_param Info_level logger
            (Obj [(''type'', Str ''progress''), (''content_type'', Str content_type),
                  (''content'', Value content)]) #
          (case token of
             Some t \<Rightarrow>
               (case progress_note mj content of
                  (message, percentage) \<Rightarrow>
                    [Progress t (case percentage of Some p \<Rightarrow> p | None \<Rightarrow> mj_zero mj) message])
           | None \<Rightarrow> [])
      | Data_item content_type content \<Rightarrow>
          [log_param Info_level logger
             (Obj [(''type'', Str ''data''), (''content_type'', Str content_type), (''data'', Value content)])]
      | Error_item recoverable e \<Rightarrow>
          [log_param Error_level logger
             (Obj [(''type'', Str ''error''), (''error'', Remote e), (''recoverable'', Flag recoverable)])]
      | Done_item \<Rightarrow> []
      | Request_item request_id request_data timeout_ms \<Rightarrow>
          [log_param Info_level logger
             (Obj [(''type'', Str ''request''), (''request_id'', Str request_id),
                   (''request_data'', Value request_data), (''timeout_ms'', Num timeout_ms)])])"

record ('v, 'd) tool_state =
  ts_fatal :: "'d remote_error option"
  ts_data :: "'v list"

definition item_state :: "('v, 'd) stream_item \<Rightarrow> ('v, 'd) tool_state \<Rightarrow> ('v, 'd) tool_state" where
  "item_state item s =
     (case item of
        Data_item _ content \<Rightarrow> s\<lparr>ts_data := ts_data s @ [content]\<rparr>
      | Error_item recoverable e \<Rightarrow>
          if \<not> recoverable \<and> ts_fatal s = None then s\<lparr>ts_fatal := Some e\<rparr> else s
      | _ \<Rightarrow> s)"

text \<open>
  The loop: each item comes with whether the call is cancelled by then. None is a cancelled call.
\<close>

fun tool_items ::
  "('v, 'd, 'n) mcp_json \<Rightarrow> string \<Rightarrow> string option \<Rightarrow> (bool \<times> ('v, 'd) stream_item) list \<Rightarrow>
   ('v, 'd) tool_state \<Rightarrow> ('v, 'd, 'n) mcp_notification list \<times> ('v, 'd) tool_state option"
where
  "tool_items mj logger token [] s = ([], Some s)"
| "tool_items mj logger token ((cancelled, item) # items) s =
     (if cancelled then ([], None)
      else if item = Done_item then ([], Some s)
      else (case tool_items mj logger token items (item_state item s) of
              (sent, s') \<Rightarrow> (item_notifications mj logger token item @ sent, s')))"

definition text_content :: "('v, 'd, 'n) mcp_json \<Rightarrow> 'v list \<Rightarrow> string" where
  "text_content mj buffered =
     (case buffered of
        [] \<Rightarrow> ''(no output)''
      | [v] \<Rightarrow> (case mj_string mj v of Some s \<Rightarrow> s | None \<Rightarrow> mj_pretty mj v)
      | _ \<Rightarrow>
          if list_all (\<lambda>v. mj_string mj v \<noteq> None) buffered
          then concat (map (\<lambda>v. the (mj_string mj v)) buffered)
          else mj_pretty_all mj buffered)"

definition tool_answer :: "('v, 'd, 'n) mcp_json \<Rightarrow> ('v, 'd) tool_state \<Rightarrow> 'v tool_result" where
  "tool_answer mj s =
     (case ts_fatal s of
        Some e \<Rightarrow> remote_error_tool_result mj e
      | None \<Rightarrow> \<lparr>tr_is_error = False, tr_text = text_content mj (ts_data s), tr_structured = None\<rparr>)"

definition call_tool ::
  "('v, 'd, 'n) mcp_json \<Rightarrow> ('e \<Rightarrow> rejection) \<Rightarrow> (string \<Rightarrow> (string \<times> string) list) \<Rightarrow>
   ('j, 'x json, 'e, (bool \<times> ('v, 'd) stream_item) list) mcp_bridge \<Rightarrow> request option \<Rightarrow>
   string option \<Rightarrow> string \<Rightarrow> (string \<times> 'x json) list option \<Rightarrow>
   ('v, 'd, 'n) mcp_notification list \<times> ('v mcp_error + 'v tool_result)"
where
  "call_tool mj to_jsonrpc form_pairs b parts token name arguments =
     (case call_activation b name (tool_arguments form_pairs parts arguments) of
        Inl e \<Rightarrow> ([], Inl (plexus_to_mcp_error mj to_jsonrpc e))
      | Inr stream \<Rightarrow>
          (case tool_items mj name token stream \<lparr>ts_fatal = None, ts_data = []\<rparr> of
             (sent, None) \<Rightarrow> (sent, Inl cancelled_error)
           | (sent, Some s) \<Rightarrow> (sent, Inr (tool_answer mj s))))"

section \<open>server.rs\<close>

definition mcp_auth :: "string option \<Rightarrow> request \<Rightarrow> response option" where
  "mcp_auth api_key r =
     (case api_key of
        None \<Rightarrow> None
      | Some key \<Rightarrow>
          if header_str (rq_headers r) ''authorization'' = Some (''Bearer '' @ key) then None
          else Some \<lparr>rp_status = 401,
                     rp_headers = [(''www-authenticate'', bearer_realm)],
                     rp_body = ''Unauthorized''\<rparr>)"

definition json_type :: "string \<times> string" where
  "json_type = (''content-type'', ''application/json'')"

definition quoted :: "string \<Rightarrow> string" where
  "quoted s = CHR 0x22 # s @ [CHR 0x22]"

definition text_lines :: "string list \<Rightarrow> string" where
  "text_lines = join_with [CHR 0x0A]"

text \<open>The \<open>http\<close> crate's text of a request's URI is an argument.\<close>

definition mcp_fallback :: "(request \<Rightarrow> string) \<Rightarrow> request \<Rightarrow> response" where
  "mcp_fallback uri r =
     \<lparr>rp_status = 404, rp_headers = [json_type],
      rp_body = text_lines
        [''{'',
         ''  '' @ quoted ''error'' @ '': '' @ quoted ''Route not found'' @ '','',
         ''  '' @ quoted ''received'' @ '': {'',
         ''    '' @ quoted ''method'' @ '': '' @ quoted (rq_method r) @ '','',
         ''    '' @ quoted ''uri'' @ '': '' @ quoted (uri r) @ '','',
         ''    '' @ quoted ''path'' @ '': '' @ quoted (rq_path r),
         ''  },'',
         ''  '' @ quoted ''hint'' @ '': '' @
           quoted (''MCP endpoint is at /mcp. Send '' @ [CHR 0x27] @ ''initialize'' @ [CHR 0x27] @ '' request first.'') @ '','',
         ''  '' @ quoted ''available_endpoints'' @ '': ['' @ quoted ''/mcp'' @ '', '' @ quoted ''/debug'' @ '']'',
         ''}'']\<rparr>"

definition apostrophes :: "string \<Rightarrow> string" where
  "apostrophes s = CHR 0x27 # s @ [CHR 0x27]"

definition mcp_debug :: response where
  "mcp_debug =
     \<lparr>rp_status = 200, rp_headers = [json_type],
      rp_body = text_lines
        [''{'',
         ''  '' @ quoted ''server'' @ '': '' @ quoted ''plexus-transport'' @ '','',
         ''  '' @ quoted ''mcp_endpoint'' @ '': '' @ quoted ''/mcp'' @ '','',
         ''  '' @ quoted ''mcp_protocol'' @ '': '' @ quoted ''MCP Streamable HTTP'' @ '','',
         ''  '' @ quoted ''notes'' @ '': ['',
         ''    '' @ quoted (''MCP requires '' @ apostrophes ''initialize'' @ '' request before '' @ apostrophes ''tools/list'') @ '','',
         ''    '' @ quoted (''Accept header must include '' @ apostrophes ''application/json, text/event-stream'') @ '','',
         ''    '' @ quoted (''Tool names use format: namespace.method (e.g., '' @ apostrophes ''echo.echo'' @ '')''),
         ''  ]'',
         ''}'']\<rparr>"

text \<open>
  The app: the key's check, then the log, which passes every request on, then the routes. A
  request for the MCP service is rmcp's, which has the allowed hosts of
  \<open>plexus-transport-mcp\<close>'s rule, an argument.
\<close>

datatype mcp_route = To_mcp | To_debug_page | To_fallback

definition mcp_app ::
  "(request \<Rightarrow> string) \<Rightarrow> string option \<Rightarrow> mcp_route \<Rightarrow> request \<Rightarrow> (response + unit)" where
  "mcp_app uri api_key route r =
     (case mcp_auth api_key r of
        Some refusal \<Rightarrow> Inl refusal
      | None \<Rightarrow>
          (case route of
             To_mcp \<Rightarrow> Inr ()
           | To_debug_page \<Rightarrow> Inl mcp_debug
           | To_fallback \<Rightarrow> Inl (mcp_fallback uri r)))"

record ('j, 'p, 'e, 's, 'm) mcp_server =
  mv_bridge :: "('j, 'p, 'e, 's) mcp_bridge"
  mv_sessions :: 'm
  mv_hosts :: "string list"
  mv_api_key :: "string option"
  mv_listening :: axum_listener

definition serve_with_session_manager ::
  "(socket_addr \<Rightarrow> string list \<Rightarrow> string list) \<Rightarrow> (socket_addr \<Rightarrow> string + socket_addr) \<Rightarrow>
   (tls_config \<Rightarrow> string + unit) \<Rightarrow> ('j, 'p, 'e, 's) mcp_bridge \<Rightarrow> 'm \<Rightarrow> mcp_http_config \<Rightarrow>
   string option \<Rightarrow> string + ('j, 'p, 'e, 's, 'm) mcp_server"
where
  "serve_with_session_manager effective_hosts bind load_tls bridge sessions config api_key =
     (case bind (mcp_addr config) of
        Inl e \<Rightarrow> Inl e
      | Inr local_addr \<Rightarrow>
          (case serve_axum load_tls local_addr (mcp_tls config) of
             Inl e \<Rightarrow> Inl e
           | Inr listening \<Rightarrow>
               Inr \<lparr>mv_bridge = bridge, mv_sessions = sessions,
                    mv_hosts = effective_hosts (mcp_addr config) (mcp_allowed_hosts config),
                    mv_api_key = api_key, mv_listening = listening\<rparr>))"

text \<open>\<open>local\<close> is rmcp's own session manager, \<open>sqlite\<close> what opening the database answers.\<close>

definition serve_mcp_http ::
  "(socket_addr \<Rightarrow> string list \<Rightarrow> string list) \<Rightarrow> (socket_addr \<Rightarrow> string + socket_addr) \<Rightarrow>
   (tls_config \<Rightarrow> string + unit) \<Rightarrow> 'm \<Rightarrow> (string \<Rightarrow> string + 'm) \<Rightarrow> ('j, 'p, 'ctx, 'e, 's) activation \<Rightarrow>
   'j plugin_schema list option \<Rightarrow> (string \<Rightarrow> 'p \<Rightarrow> 'e + 's) option \<Rightarrow> mcp_http_config \<Rightarrow>
   string option \<Rightarrow> string + ('j, 'p, 'e, 's, 'm) mcp_server"
where
  "serve_mcp_http effective_hosts bind load_tls local sqlite a flat route_fn config api_key =
     (let b0 = mcp_server_info_and_schemas a (mcp_server_name config) (mcp_server_version config) flat;
          bridge = (case route_fn of Some router \<Rightarrow> mcp_with_router router b0 | None \<Rightarrow> b0)
      in case mcp_session_storage config of
           InMemory \<Rightarrow> serve_with_session_manager effective_hosts bind load_tls bridge local config api_key
         | Sqlite path \<Rightarrow>
             (case sqlite path of
                Inl e \<Rightarrow> Inl (''Failed to initialize SQLite session manager: '' @ e)
              | Inr manager \<Rightarrow>
                  serve_with_session_manager effective_hosts bind load_tls bridge manager config api_key))"

section \<open>service_upstream.rs\<close>

datatype credential = Anonymous_caller | Bearer_token string

datatype 'ctx hub_caller = As_anonymous | As 'ctx

text \<open>The service in this process as the caller a credential names; None is \<open>Unauthorized\<close>.\<close>

definition transport_for :: "'ctx validator option \<Rightarrow> credential \<Rightarrow> 'ctx hub_caller option" where
  "transport_for validator c =
     (case c of
        Anonymous_caller \<Rightarrow> Some As_anonymous
      | Bearer_token token \<Rightarrow>
          (case validator of
             None \<Rightarrow> None
           | Some v \<Rightarrow> map_option As (vl_validate v token)))"

end
