(* ===== verification/Mcp_Properties.thy ===== *)
theory Mcp_Properties
  imports Mcp Rest_Properties
begin

text \<open>
  What the MCP bridge promises: a tool's result and notifications are its whole stream, the
  \<open>_connection\<close> a method sees is the URL's, and a tool that is listed reaches its own method.
\<close>

section \<open>A call's stream\<close>

text \<open>The errors a stream says it cannot recover from, in order.\<close>

definition fatals :: "('v, 'd) stream_item list \<Rightarrow> 'd remote_error list" where
  "fatals its = filter_map (\<lambda>i. case i of Error_item False e \<Rightarrow> Some e | _ \<Rightarrow> None) its"

definition first :: "'a list \<Rightarrow> 'a option" where
  "first xs = (case xs of [] \<Rightarrow> None | x # _ \<Rightarrow> Some x)"

lemma first_simps [simp]: "first [] = None" "first (x # xs) = Some x"
  by (simp_all add: first_def)

lemma fatals_simps [simp]:
  "fatals [] = []"
  "fatals (Data_item t v # its) = fatals its" "fatals (Progress_item t v # its) = fatals its"
  "fatals (Request_item i v ms # its) = fatals its"
  "fatals (Error_item r e # its) = (if r then fatals its else e # fatals its)"
  by (simp_all add: fatals_def filter_map_def)

lemma datas_Error [simp]: "datas (Error_item r e # its) = datas its"
  by (simp add: datas_def filter_map_def)

text \<open>The items a call reads: up to its end, its \<open>done\<close>, or the first that finds it cancelled.\<close>

abbreviation goes_on :: "bool \<times> ('v, 'd) stream_item \<Rightarrow> bool" where
  "goes_on ci \<equiv> \<not> fst ci \<and> snd ci \<noteq> Done_item"

definition stops_cancelled :: "(bool \<times> ('v, 'd) stream_item) list \<Rightarrow> bool" where
  "stops_cancelled rest = (case rest of [] \<Rightarrow> False | ci # _ \<Rightarrow> fst ci)"

lemma stops_cancelled_simps [simp]: "\<not> stops_cancelled []" "stops_cancelled (ci # rest) = fst ci"
  by (simp_all add: stops_cancelled_def)

lemma tool_items_eq:
  "tool_items mj logger token stream s =
     (concat (map (item_notifications mj logger token \<circ> snd) (takeWhile goes_on stream)),
      (if stops_cancelled (dropWhile goes_on stream) then None
       else Some \<lparr>ts_fatal = (case ts_fatal s of Some e \<Rightarrow> Some e
                                 | None \<Rightarrow> first (fatals (map snd (takeWhile goes_on stream)))),
                   ts_data = ts_data s @ datas (map snd (takeWhile goes_on stream))\<rparr>))"
proof (induction stream arbitrary: s)
  case Nil
  then show ?case by (cases "ts_fatal s") (simp_all add: datas_def filter_map_def)
next
  case (Cons ci stream)
  obtain c i where ci: "ci = (c, i)" by (cases ci)
  show ?case
  proof (cases "goes_on ci")
    case False
    then show ?thesis
      by (cases "ts_fatal s") (auto simp: ci datas_def filter_map_def)
  next
    case True
    then have "tool_items mj logger token (ci # stream) s =
        (case tool_items mj logger token stream (item_state i s) of
           (sent, s') \<Rightarrow> (item_notifications mj logger token i @ sent, s'))"
      by (simp add: ci)
    moreover have takes: "takeWhile goes_on (ci # stream) = ci # takeWhile goes_on stream"
      using True by simp
    moreover have "(case ts_fatal (item_state i s) of Some e \<Rightarrow> Some e | None \<Rightarrow> first (fatals its)) =
        (case ts_fatal s of Some e \<Rightarrow> Some e | None \<Rightarrow> first (fatals (i # its)))"
      "ts_data (item_state i s) @ datas its = ts_data s @ datas (i # its)" for its
      using True by (cases i; cases "ts_fatal s"; simp add: ci item_state_def)+
    ultimately show ?thesis
      using True by (cases "ts_fatal s") (simp_all add: Cons.IH ci)
  qed
qed


definition sample_mj :: "(string, unit, unit) mcp_json" where
  "sample_mj =
     \<lparr>mj_parse = (\<lambda>_. None), mj_text = id, mj_pretty = id, mj_pretty_all = concat, mj_string = Some,
      mj_field = (\<lambda>_ _. None), mj_number = (\<lambda>_. None), mj_zero = (), mj_show = (\<lambda>_. ''broke''),
      mj_error = (\<lambda>_. None)\<rparr>"

definition sample_stream :: "(bool \<times> (string, unit) stream_item) list" where
  "sample_stream =
     [(False, Data_item ''t'' ''a''), (False, Error_item True (Execution ''e'')),
      (False, Data_item ''t'' ''b''), (False, Done_item), (True, Data_item ''t'' ''c'')]"

definition sample_bridge ::
  "(unit, unit json, unit, (bool \<times> (string, unit) stream_item) list) mcp_bridge" where
  "sample_bridge =
     mcp_bridge_new
       \<lparr>ac_namespace = ''ns'', ac_version = ''1'', ac_description = [],
        ac_schema = sample_schema ''ns''
          [\<lparr>ms_name = ''do'', ms_description = [], ms_cardinality = One_value, ms_http_method = Post,
            ms_params = None\<rparr>],
        ac_ungated = (\<lambda>m _ (_ :: unit option). if m = ''do'' then Inr sample_stream else Inl ())\<rparr>"

lemma sample_activation:
  "call_activation sample_bridge ''ns.do'' args = Inr sample_stream"
  by (simp add: call_activation_def sample_bridge_def mcp_bridge_new_def mcp_server_info_and_schemas_def
      leaf_method_def)


section \<open>What a method is told of the connection\<close>

lemma connection_meta_get:
  "map_of (foldl (\<lambda>meta (key, v). AList.update (''query.'' @ key) (Str v) meta) acc pairs) (''query.'' @ k) =
     (case map_of (rev pairs) k of Some v \<Rightarrow> Some (Str v) | None \<Rightarrow> map_of acc (''query.'' @ k))"
  by (induction pairs arbitrary: acc) (auto simp: update_conv' map_add_def split: option.splits)

lemma update_not_Nil [simp]: "AList.update k v al \<noteq> []"
  by (cases al) auto

lemma foldl_not_Nil:
  assumes "\<And>acc x. f acc x \<noteq> []" and "acc \<noteq> []"
  shows "foldl f acc xs \<noteq> []"
  using assms(2)
proof (induction xs arbitrary: acc)
  case (Cons x xs)
  show ?case using Cons.IH [OF assms(1)] by simp
qed simp

lemma connection_meta_empty [simp]: "connection_meta [] = []"
  by (simp add: connection_meta_def)

lemma connection_meta_Nil: "connection_meta pairs = [] \<longleftrightarrow> pairs = []"
proof (cases pairs)
  case (Cons p ps)
  then have "connection_meta pairs =
      foldl (\<lambda>meta (key, v). AList.update (''query.'' @ key) (Str v) meta)
        (AList.update (''query.'' @ fst p) (Str (snd p)) []) ps"
    by (simp add: connection_meta_def case_prod_beta)
  also have "\<dots> \<noteq> []"
    by (rule foldl_not_Nil) (auto split: prod.splits)
  finally show ?thesis using Cons by simp
qed (simp add: connection_meta_def)

text \<open>
  C19. Where the request's URL has a query, \<open>_connection\<close> is the bridge's, whatever the client put
  there itself: an entry \<open>query.k\<close> for each of the URL's keys, with the last value it gave; and
  every other argument is passed on as it came. Where it has none, every argument is, a
  \<open>_connection\<close> of the client's own included.
\<close>

theorem the_connection_a_tool_sees_is_the_urls:
  "map_of (tool_arguments form_pairs parts arguments) name =
     (let pairs = (case Option.bind parts rq_query of Some q \<Rightarrow> form_pairs q | None \<Rightarrow> [])
      in if name = ''_connection'' \<and> pairs \<noteq> [] then Some (Obj (connection_meta pairs))
         else map_of (case arguments of Some given \<Rightarrow> given | None \<Rightarrow> []) name) \<and>
   map_of (connection_meta pairs :: (string \<times> 'x json) list) (''query.'' @ k) =
     map_option Str (map_of (rev pairs) k)"
proof
  show "map_of (connection_meta pairs :: (string \<times> 'x json) list) (''query.'' @ k) =
     map_option Str (map_of (rev pairs) k)"
    unfolding connection_meta_def connection_meta_get by (simp split: option.splits)
qed (auto simp: tool_arguments_def Let_def update_conv' connection_meta_Nil
    split: option.splits)

section \<open>Tools and methods\<close>

lemma leaf_method_of_tool:
  assumes "CHR ''.'' \<notin> set ns" and "CHR ''.'' \<notin> set m"
  shows "leaf_method (ns @ ''.'' @ m) = m"
  using assms by (simp add: leaf_method_def split_on_append_sep split_on_no_sep)

text \<open>A name with one more dot reaches another method: the bridge reads only the second piece.\<close>

lemma leaf_method_of_dotted:
  assumes "CHR ''.'' \<notin> set hub" and "CHR ''.'' \<notin> set ns"
  shows "leaf_method (hub @ ''.'' @ ns @ ''.'' @ m) = ns"
  using assms by (simp add: leaf_method_def split_on_append_sep split_on_no_sep)


definition plain_values :: "unit json_read" where
  "plain_values = \<lparr>jr_get = (\<lambda>_ _. None), jr_str = (\<lambda>_. None), jr_object = (\<lambda>_. None)\<rparr>"


end
