(* ===== verification/Session.thy ===== *)
theory Session
  imports Prelude "HOL-Library.AList"
begin

text \<open>
  mcp/session.rs: MCP sessions recorded in SQLite. The manager is the table's rows (an id, when it
  was created and last seen, in seconds) and the handles of the workers alive in this process. A
  statement may fail, and what the database answers to the next ones is part of the state
  (\<open>sm_faults\<close>, a missing answer being success). rmcp's workers are not under src/: a handle
  is a value and what its worker answers is an argument, an error of its own or a receiver. An
  operation runs alone; \<open>now\<close> is the system clock.
\<close>

definition DEFAULT_SESSION_MAX_AGE :: int where
  "DEFAULT_SESSION_MAX_AGE = 30 * 24 * 60 * 60"

record 'c sqlite_session_config =
  sc_db_path :: string
  sc_session_config :: 'c
  sc_max_session_age :: int

definition default_sqlite_session_config :: "'c \<Rightarrow> 'c sqlite_session_config" where
  "default_sqlite_session_config session_default =
     \<lparr>sc_db_path = ''mcp_sessions.db'', sc_session_config = session_default,
      sc_max_session_age = DEFAULT_SESSION_MAX_AGE\<rparr>"

datatype ('w, 'i) sqlite_session_error =
    Session_not_found string
  | Session_error 'w
  | Invalid_event_id 'i
  | Database_error string

type_synonym session_rows = "(string \<times> int \<times> int) list"

record ('h, 'c) session_manager =
  sm_rows :: session_rows
  sm_handles :: "string \<rightharpoonup> 'h"
  sm_session_config :: 'c
  sm_max_age :: int
  sm_faults :: "string option list"

section \<open>Statements\<close>

text \<open>A statement: what it says when the database refuses it, or its effect on the rows.\<close>

definition sql ::
  "string \<Rightarrow> (session_rows \<Rightarrow> session_rows \<times> 'a) \<Rightarrow> ('h, 'c) session_manager \<Rightarrow>
   ('h, 'c) session_manager \<times> (('w, 'i) sqlite_session_error + 'a)"
where
  "sql failed statement m =
     (let later = m\<lparr>sm_faults := tl (sm_faults m)\<rparr>
      in case sm_faults m of
           Some e # _ \<Rightarrow> (later, Err (Database_error (failed @ '': '' @ e)))
         | _ \<Rightarrow> (case statement (sm_rows m) of (rows, a) \<Rightarrow> (later\<lparr>sm_rows := rows\<rparr>, Ok a)))"

definition count_persisted_sessions where
  "count_persisted_sessions m = sql ''Failed to count sessions'' (\<lambda>rows. (rows, length rows)) m"

definition stale :: "int \<Rightarrow> string \<times> int \<times> int \<Rightarrow> bool" where
  "stale cutoff row \<longleftrightarrow> snd (snd row) < cutoff"

definition cleanup_old_sessions where
  "cleanup_old_sessions now m =
     (let cutoff = now - sm_max_age m
      in sql ''Failed to cleanup sessions''
           (\<lambda>rows. (filter (\<lambda>row. \<not> stale cutoff row) rows, length (filter (stale cutoff) rows))) m)"

definition run_migrations where
  "run_migrations m = sql ''Migration failed'' (\<lambda>rows. (rows, ())) m"

definition persist_session where
  "persist_session now i m =
     sql ''Failed to persist session'' (\<lambda>rows. (AList.update i (now, now) rows, ())) m"

definition touch_session where
  "touch_session now i m =
     sql ''Failed to touch session''
       (\<lambda>rows. (map (\<lambda>row. if fst row = i then (i, fst (snd row), now) else row) rows, ())) m"

definition session_exists_in_db where
  "session_exists_in_db i m =
     sql ''Failed to check session'' (\<lambda>rows. (rows, map_of rows i \<noteq> None)) m"

definition remove_session_from_db where
  "remove_session_from_db i m =
     sql ''Failed to remove session'' (\<lambda>rows. (AList.delete i rows, ())) m"

section \<open>The manager\<close>

datatype opened = Bad_url string | No_connection string | Opened session_rows "string option list"

definition sqlite_new ::
  "opened \<Rightarrow> int \<Rightarrow> 'c sqlite_session_config \<Rightarrow>
   ('w, 'i) sqlite_session_error + ('h, 'c) session_manager"
where
  "sqlite_new open_db now config =
     (case open_db of
        Bad_url e \<Rightarrow> Err (Database_error (''Failed to parse DB URL: '' @ e))
      | No_connection e \<Rightarrow> Err (Database_error (''Failed to connect: '' @ e))
      | Opened rows faults \<Rightarrow>
          (let manager = \<lparr>sm_rows = rows, sm_handles = Map.empty,
                          sm_session_config = sc_session_config config,
                          sm_max_age = sc_max_session_age config, sm_faults = faults\<rparr>
           in case try_then (run_migrations manager) (\<lambda>m _.
                     try_then (cleanup_old_sessions now m) (\<lambda>m cleaned.
                       count_persisted_sessions m)) of
                (m, Inl e) \<Rightarrow> Err e
              | (m, Inr persisted) \<Rightarrow> Ok m))"

text \<open>What the worker answered, as the manager's own error.\<close>

definition worker :: "'s \<Rightarrow> 'w + 'a \<Rightarrow> 's \<times> (('w, 'i) sqlite_session_error + 'a)" where
  "worker m answer = (m, (case answer of Inl e \<Rightarrow> Err (Session_error e) | Inr a \<Rightarrow> Ok a))"

definition recreate_session where
  "recreate_session now i handle m = touch_session now i (m\<lparr>sm_handles := (sm_handles m)(i \<mapsto> handle)\<rparr>)"

definition create_session ::
  "int \<Rightarrow> string \<Rightarrow> 'h \<Rightarrow> ('h, 'c) session_manager \<Rightarrow>
   ('h, 'c) session_manager \<times> (('w, 'i) sqlite_session_error + string)"
where
  "create_session now i handle m =
     try_then (persist_session now i m)
       (\<lambda>m _. (m\<lparr>sm_handles := (sm_handles m)(i \<mapsto> handle)\<rparr>, Ok i))"

definition initialize_session ::
  "'w + 'r \<Rightarrow> string \<Rightarrow> ('h, 'c) session_manager \<Rightarrow>
   ('h, 'c) session_manager \<times> (('w, 'i) sqlite_session_error + 'r)"
where
  "initialize_session answer i m =
     (case sm_handles m i of
        Some handle \<Rightarrow> worker m answer
      | None \<Rightarrow>
          try_then (session_exists_in_db i m) (\<lambda>m exists.
            if exists then (m, Err (Session_not_found i)) else (m, Err (Session_not_found i))))"

definition has_session ::
  "string \<Rightarrow> ('h, 'c) session_manager \<Rightarrow>
   ('h, 'c) session_manager \<times> (('w, 'i) sqlite_session_error + bool)"
where
  "has_session i m =
     (if sm_handles m i \<noteq> None then (m, Ok True)
      else try_then (session_exists_in_db i m) (\<lambda>m exists.
             if exists
             then (case remove_session_from_db i m of
                     (m, r :: ('w, 'i) sqlite_session_error + unit) \<Rightarrow> (m, Ok False))
             else (m, Ok False)))"

definition close_session ::
  "'w + unit \<Rightarrow> string \<Rightarrow> ('h, 'c) session_manager \<Rightarrow>
   ('h, 'c) session_manager \<times> (('w, 'i) sqlite_session_error + unit)"
where
  "close_session closed i m =
     try_then
       (case sm_handles m i of
          Some handle \<Rightarrow> worker (m\<lparr>sm_handles := (sm_handles m)(i := None)\<rparr>) closed
        | None \<Rightarrow> (m, Ok ()))
       (\<lambda>m _. remove_session_from_db i m)"

text \<open>\<open>touch_session(id).await.ok()\<close>.\<close>

definition touch_best_effort :: "int \<Rightarrow> string \<Rightarrow> ('h, 'c) session_manager \<Rightarrow> ('h, 'c) session_manager" where
  "touch_best_effort now i m =
     (case touch_session now i m of (m, r :: (unit, unit) sqlite_session_error + unit) \<Rightarrow> m)"

definition with_handle ::
  "string \<Rightarrow> ('h, 'c) session_manager \<Rightarrow>
   ('h, 'c) session_manager \<times> (('w, 'i) sqlite_session_error + 'h)"
where
  "with_handle i m =
     (m, (case sm_handles m i of Some handle \<Rightarrow> Ok handle | None \<Rightarrow> Err (Session_not_found i)))"

definition create_stream ::
  "int \<Rightarrow> 'w + 'r \<Rightarrow> 'w + unit \<Rightarrow> string \<Rightarrow> ('h, 'c) session_manager \<Rightarrow>
   ('h, 'c) session_manager \<times> (('w, 'i) sqlite_session_error + 'r)"
where
  "create_stream now established pushed i m =
     try_then (with_handle i m) (\<lambda>m handle.
     try_then (worker m established) (\<lambda>m receiver.
     try_then (worker m pushed) (\<lambda>m _. (touch_best_effort now i m, Ok receiver))))"

definition create_standalone_stream ::
  "int \<Rightarrow> 'w + 'r \<Rightarrow> string \<Rightarrow> ('h, 'c) session_manager \<Rightarrow>
   ('h, 'c) session_manager \<times> (('w, 'i) sqlite_session_error + 'r)"
where
  "create_standalone_stream now established i m =
     try_then (with_handle i m) (\<lambda>m handle.
     try_then (worker m established) (\<lambda>m receiver. (touch_best_effort now i m, Ok receiver)))"

definition resume ::
  "int \<Rightarrow> 'h \<Rightarrow> 'i + 'ev \<Rightarrow> ('ev \<Rightarrow> 'w + 'r) \<Rightarrow> string \<Rightarrow> ('h, 'c) session_manager \<Rightarrow>
   ('h, 'c) session_manager \<times> (('w, 'i) sqlite_session_error + 'r)"
where
  "resume now fresh event resumed i m =
     (let last_event = (case event of Inl e \<Rightarrow> Err (Invalid_event_id e) | Inr ev \<Rightarrow> Ok ev)
      in case sm_handles m i of
           Some handle \<Rightarrow>
             try_then (m, last_event) (\<lambda>m ev.
             try_then (worker m (resumed ev)) (\<lambda>m receiver. (touch_best_effort now i m, Ok receiver)))
         | None \<Rightarrow>
             try_then (session_exists_in_db i m) (\<lambda>m exists.
               if exists
               then try_then (recreate_session now i fresh m) (\<lambda>m _.
                    try_then (with_handle i m) (\<lambda>m handle.
                    try_then (m, last_event) (\<lambda>m ev. worker m (resumed ev))))
               else (m, Err (Session_not_found i))))"

definition accept_message ::
  "int \<Rightarrow> 'w + unit \<Rightarrow> string \<Rightarrow> ('h, 'c) session_manager \<Rightarrow>
   ('h, 'c) session_manager \<times> (('w, 'i) sqlite_session_error + unit)"
where
  "accept_message now pushed i m =
     try_then (with_handle i m) (\<lambda>m handle.
     try_then (worker m pushed) (\<lambda>m _. (touch_best_effort now i m, Ok ())))"

section \<open>Histories\<close>

text \<open>What rmcp asks of the manager, with what the clock and the workers answer.\<close>

datatype ('h, 'w, 'i) session_op =
    Create int string 'h
  | Initialize string "'w + unit"
  | Has string
  | Close string "'w + unit"
  | Stream int string "'w + unit" "'w + unit"
  | Standalone int string "'w + unit"
  | Resume int string 'h "'i + unit" "'w + unit"
  | Accept int string "'w + unit"

fun session_result ::
  "('h, 'w, 'i) session_op \<Rightarrow> ('h, 'c) session_manager \<Rightarrow>
   ('h, 'c) session_manager \<times> (('w, 'i) sqlite_session_error option)"
where
  "session_result (Create now i h) m = map_prod id (case_sum Some (\<lambda>_. None)) (create_session now i h m)"
| "session_result (Initialize i a) m = map_prod id (case_sum Some (\<lambda>_. None)) (initialize_session a i m)"
| "session_result (Has i) m = map_prod id (case_sum Some (\<lambda>_. None)) (has_session i m)"
| "session_result (Close i a) m = map_prod id (case_sum Some (\<lambda>_. None)) (close_session a i m)"
| "session_result (Stream now i e p) m = map_prod id (case_sum Some (\<lambda>_. None)) (create_stream now e p i m)"
| "session_result (Standalone now i e) m = map_prod id (case_sum Some (\<lambda>_. None)) (create_standalone_stream now e i m)"
| "session_result (Resume now i h ev a) m =
     map_prod id (case_sum Some (\<lambda>_. None)) (resume now h ev (\<lambda>_. a) i m)"
| "session_result (Accept now i a) m = map_prod id (case_sum Some (\<lambda>_. None)) (accept_message now a i m)"

definition session_run ::
  "('h, 'w, 'i) session_op list \<Rightarrow> ('h, 'c) session_manager \<Rightarrow> ('h, 'c) session_manager" where
  "session_run ops m = foldl (\<lambda>m op. fst (session_result op m)) m ops"

definition row_ids :: "('h, 'c) session_manager \<Rightarrow> string set" where
  "row_ids m = fst ` set (sm_rows m)"

text \<open>A session whose worker is alive has its row.\<close>

definition recorded :: "('h, 'c) session_manager \<Rightarrow> bool" where
  "recorded m \<longleftrightarrow> (\<forall>i h. sm_handles m i = Some h \<longrightarrow> i \<in> row_ids m)"

lemma sql_outcome:
  "sql what f m = (m', r) \<Longrightarrow>
     sm_handles m' = sm_handles m \<and>
     ((\<exists>e. r = Err (Database_error e)) \<and> sm_rows m' = sm_rows m \<or>
      r = Ok (snd (f (sm_rows m))) \<and> sm_rows m' = fst (f (sm_rows m)))"
  by (auto simp: sql_def Let_def split: list.splits option.splits prod.splits)

lemma sql_no_faults:
  "sm_faults m = [] \<Longrightarrow> sql what f m = (case f (sm_rows m) of (rows, a) \<Rightarrow> (m\<lparr>sm_rows := rows\<rparr>, Ok a))"
  by (cases m) (simp add: sql_def Let_def split: prod.splits)

lemma row_ids_dom: "row_ids m = dom (map_of (sm_rows m))"
  by (simp add: row_ids_def dom_map_of_conv_image_fst)

lemma row_ids_handles [simp]: "row_ids (m\<lparr>sm_handles := h\<rparr>) = row_ids m"
  by (simp add: row_ids_def)

lemma touched_ids:
  "fst ` set (map (\<lambda>row. if fst row = i then (i, f row) else row) rows) = fst ` set rows"
  by (induction rows) auto

lemma touch_ids:
  "touch_session now i m = (m', r) \<Longrightarrow> sm_handles m' = sm_handles m \<and> row_ids m' = row_ids m"
  unfolding touch_session_def
  by (drule sql_outcome, elim conjE disjE) (simp_all add: row_ids_def touched_ids del: set_map)

lemma best_effort_ids [simp]:
  "sm_handles (touch_best_effort now i m) = sm_handles m" "row_ids (touch_best_effort now i m) = row_ids m"
  by (auto simp: touch_best_effort_def dest: touch_ids split: prod.splits)

lemma exists_in_db:
  "session_exists_in_db i m = (m', r) \<Longrightarrow>
     sm_handles m' = sm_handles m \<and> row_ids m' = row_ids m \<and> (r = Ok True \<longrightarrow> i \<in> row_ids m)"
  unfolding session_exists_in_db_def by (drule sql_outcome) (auto simp: row_ids_dom)

lemma remove_ids:
  "remove_session_from_db i m = (m', r) \<Longrightarrow>
     sm_handles m' = sm_handles m \<and> row_ids m - {i} \<subseteq> row_ids m' \<and>
     (r = Ok () \<longrightarrow> row_ids m' = row_ids m - {i})"
  unfolding remove_session_from_db_def
  by (drule sql_outcome) (auto simp: row_ids_dom delete_conv' split: if_splits)

lemma persist_ids:
  "persist_session now i m = (m', r) \<Longrightarrow>
     sm_handles m' = sm_handles m \<and> row_ids m \<subseteq> row_ids m' \<and> (r = Ok () \<longrightarrow> i \<in> row_ids m')"
  unfolding persist_session_def by (drule sql_outcome) (auto simp: row_ids_dom update_conv')

lemmas session_ops = create_session_def initialize_session_def has_session_def close_session_def
  create_stream_def create_standalone_stream_def resume_def accept_message_def try_then_def worker_def
  with_handle_def recreate_session_def Let_def

lemma recorded_step:
  fixes m :: "('h, 'c) session_manager" and op :: "('h, 'w, 'i) session_op"
  assumes "recorded m"
  shows "recorded (fst (session_result op m))"
proof (cases op)
  case (Create now i h)
  obtain m' and r :: "('w, 'i) sqlite_session_error + unit"
    where p: "persist_session now i m = (m', r)" by fastforce
  from persist_ids [OF p] assms show ?thesis
    unfolding Create by (auto simp: recorded_def create_session_def p try_then_def split: sum.splits if_splits)
next
  case (Initialize i a)
  obtain m' and r :: "('w, 'i) sqlite_session_error + bool"
    where p: "session_exists_in_db i m = (m', r)" by fastforce
  from exists_in_db [OF p] assms show ?thesis
    unfolding Initialize
    by (auto simp: recorded_def initialize_session_def worker_def p try_then_def split: sum.splits option.splits)
next
  case (Has i)
  obtain m' and r :: "('w, 'i) sqlite_session_error + bool"
    where p: "session_exists_in_db i m = (m', r)" by fastforce
  obtain m'' and q :: "('w, 'i) sqlite_session_error + unit"
    where d: "remove_session_from_db i m' = (m'', q)" by fastforce
  from exists_in_db [OF p] remove_ids [OF d] assms show ?thesis
    unfolding Has by (auto simp: recorded_def has_session_def p d try_then_def split: sum.splits)
next
  case (Close i a)
  obtain m' and q :: "('w, 'i) sqlite_session_error + unit"
    where d: "remove_session_from_db i (m\<lparr>sm_handles := (sm_handles m)(i := None)\<rparr>) = (m', q)" by fastforce
  obtain m'' and q' :: "('w, 'i) sqlite_session_error + unit"
    where d': "remove_session_from_db i m = (m'', q')" by fastforce
  from remove_ids [OF d] remove_ids [OF d'] assms show ?thesis
    unfolding Close
    by (auto simp: recorded_def close_session_def worker_def d d' try_then_def
        split: sum.splits option.splits if_splits)
next
  case (Resume now i h ev a)
  obtain m' and r :: "('w, 'i) sqlite_session_error + bool"
    where p: "session_exists_in_db i m = (m', r)" by fastforce
  obtain m'' and q :: "('w, 'i) sqlite_session_error + unit"
    where t: "touch_session now i (m'\<lparr>sm_handles := (sm_handles m)(i \<mapsto> h)\<rparr>) = (m'', q)" by fastforce
  from exists_in_db [OF p] touch_ids [OF t] assms show ?thesis
    unfolding Resume
    by (auto simp: recorded_def resume_def worker_def with_handle_def recreate_session_def p t try_then_def
        Let_def split: sum.splits option.splits if_splits)
qed (use assms in \<open>auto simp: recorded_def session_ops split: sum.splits option.splits\<close>)

lemma recorded_run: "recorded m \<Longrightarrow> recorded (session_run ops m)"
  unfolding session_run_def by (induction ops arbitrary: m) (auto intro: recorded_step)

lemma sqlite_new_Ok:
  assumes "sqlite_new db now config = Ok m"
  shows "\<exists>rows faults. db = Opened rows faults \<and> sm_handles m = Map.empty \<and>
           sm_rows m = filter (\<lambda>row. \<not> stale (now - sc_max_session_age config) row) rows"
  using assms
  by (auto simp: sqlite_new_def try_then_def run_migrations_def cleanup_old_sessions_def
      count_persisted_sessions_def sql_def Let_def
      split: opened.splits list.splits option.splits prod.splits sum.splits)

section \<open>Properties\<close>


definition sample_new :: "(unit, unit) session_manager" where
  "sample_new =
     \<lparr>sm_rows = [(''new'', 100, 100)], sm_handles = Map.empty, sm_session_config = (), sm_max_age = 50,
      sm_faults = []\<rparr>"

lemma sample_new_made:
  "sqlite_new (Opened [(''old'', 10, 20), (''new'', 100, 100)] []) 120
     \<lparr>sc_db_path = ''db'', sc_session_config = (), sc_max_session_age = 50\<rparr> = Ok sample_new"
  by (simp add: sqlite_new_def try_then_def run_migrations_def cleanup_old_sessions_def
      count_persisted_sessions_def sql_def stale_def sample_new_def)




text \<open>
  Closing a session takes it out of the process whatever its worker and the database answer,
  and touches no other; when it succeeds, its row is gone too.
\<close>

theorem a_closed_session_is_gone:
  assumes "close_session closed i m = (m', r)"
  shows "sm_handles m' = (sm_handles m)(i := None) \<and>
         (\<forall>j. j \<noteq> i \<longrightarrow> map_of (sm_rows m') j = map_of (sm_rows m) j) \<and>
         (r = Ok () \<longrightarrow> i \<notin> row_ids m')"
proof -
  have removed: "sm_handles n' = sm_handles n \<and> (\<forall>j. j \<noteq> i \<longrightarrow> map_of (sm_rows n') j = map_of (sm_rows n) j) \<and>
      (q = Ok () \<longrightarrow> i \<notin> row_ids n')"
    if "remove_session_from_db i n = (n', q)"
    for n n' :: "('a, 'b) session_manager" and q :: "('c, 'd) sqlite_session_error + unit"
    using that unfolding remove_session_from_db_def
    by (drule_tac sql_outcome) (auto simp: row_ids_dom delete_conv' split: if_splits)
  show ?thesis
  proof (cases "sm_handles m i")
    case None
    then show ?thesis
      using assms removed [of m m' r] by (auto simp: close_session_def try_then_def)
  next
    case (Some h)
    then show ?thesis
      using assms removed [of "m\<lparr>sm_handles := (sm_handles m)(i := None)\<rparr>" m' r]
      by (auto simp: close_session_def try_then_def worker_def split: sum.splits)
  qed
qed

lemma a_closed_session_is_gone_witness:
  "''new'' \<notin> row_ids (sample_new\<lparr>sm_rows := []\<rparr>)"
proof -
  have "close_session (Ok ()) ''new'' sample_new =
      (sample_new\<lparr>sm_rows := []\<rparr>, Ok () :: (unit, unit) sqlite_session_error + unit)"
    by (simp add: close_session_def remove_session_from_db_def sql_def try_then_def sample_new_def)
  from a_closed_session_is_gone [OF this] show ?thesis by simp
qed

end
