(* ===== verification/Combined.thy ===== *)
theory Combined
  imports Mcp Port
begin

text \<open>
  combined.rs: the WebSocket, the MCP service and the REST bridge on one port, the host's own
  routes beside them (TRANSPORT-26). Each request goes by its path; what axum's nested routers
  make of a bridge's path, and the host's router, are arguments. The socket's checks here are the
  static key and the upgrade: this port has no session validator, origins or quotas. A response holds
  the headers the code names, not those axum adds to a text body.
\<close>

record combined_options =
  co_allowed_hosts :: "string list"
  co_tls :: "tls_config option"
  co_routes :: "host_routes option"

definition default_combined :: combined_options where
  "default_combined = \<lparr>co_allowed_hosts = [], co_tls = None, co_routes = None\<rparr>"

record ('j, 'p, 'ctx, 'e, 's) combined =
  cb_addr :: socket_addr
  cb_key :: "string option"
  cb_mcp :: "('j, 'p, 'e, 's) mcp_bridge"
  cb_mcp_hosts :: "string list"
  cb_rest :: "('p, 'ctx, 'e, 's) rest_state option"
  cb_shared :: shared
  cb_routes :: "string option"
  cb_tls :: bool
  cb_header_timeout :: nat

section \<open>Starting\<close>

text \<open>The bridges and the shared state, then the address, then the TLS pair.\<close>

definition serve_combined_with ::
  "(socket_addr \<Rightarrow> string list \<Rightarrow> string list) \<Rightarrow> (socket_addr \<Rightarrow> string + socket_addr) \<Rightarrow>
   (tls_config \<Rightarrow> string + unit) \<Rightarrow> ('j, 'p, 'ctx, 'e, 's) activation \<Rightarrow>
   'j plugin_schema list option \<Rightarrow> (string \<Rightarrow> 'p \<Rightarrow> 'e + 's) option \<Rightarrow> socket_addr \<Rightarrow> string option \<Rightarrow>
   bool \<Rightarrow> combined_options \<Rightarrow> string + ('j, 'p, 'ctx, 'e, 's) combined"
where
  "serve_combined_with effective_hosts bind load_tls a flat route_fn addr api_key enable_rest options =
     (let m0 = mcp_server_info_and_schemas a None None flat;
          mcp = (case route_fn of Some rf \<Rightarrow> mcp_with_router rf m0 | None \<Rightarrow> m0);
          r0 = with_server_info_and_schemas (ac_ungated a) (ac_schema a) None None flat;
          rest = (if enable_rest
                  then Some (into_router (case route_fn of Some rf \<Rightarrow> with_router rf r0 | None \<Rightarrow> r0))
                  else None)
      in case bind addr of
           Inl e \<Rightarrow> Err e
         | Inr local_addr \<Rightarrow>
             (case (case co_tls options of None \<Rightarrow> Ok () | Some t \<Rightarrow> load_tls t) of
                Inl e \<Rightarrow> Err e
              | Inr _ \<Rightarrow>
                  Ok \<lparr>cb_addr = local_addr, cb_key = api_key, cb_mcp = mcp,
                      cb_mcp_hosts = effective_hosts addr (co_allowed_hosts options), cb_rest = rest,
                      cb_shared = shared_new default_limits (max_connections default_quotas),
                      cb_routes = map_option hr_socket_path (co_routes options),
                      cb_tls = (co_tls options \<noteq> None),
                      cb_header_timeout = header_timeout default_limits\<rparr>))"

definition serve_combined_with_allowed_hosts where
  "serve_combined_with_allowed_hosts effective_hosts bind load_tls a flat route_fn addr api_key enable_rest hosts =
     serve_combined_with effective_hosts bind load_tls a flat route_fn addr api_key enable_rest
       (default_combined\<lparr>co_allowed_hosts := hosts\<rparr>)"

definition serve_combined where
  "serve_combined effective_hosts bind load_tls a flat route_fn addr api_key enable_rest =
     serve_combined_with_allowed_hosts effective_hosts bind load_tls a flat route_fn addr api_key enable_rest []"

section \<open>The port\<close>

text \<open>\<open>Authorization\<close> is exactly the key as a bearer token, where one is set.\<close>

definition key_refused :: "string option \<Rightarrow> request \<Rightarrow> bool" where
  "key_refused api_key r =
     (case api_key of
        None \<Rightarrow> False
      | Some key \<Rightarrow> header_str (rq_headers r) ''authorization'' \<noteq> Some (''Bearer '' @ key))"

definition bridge_refusal :: response where
  "bridge_refusal =
     \<lparr>rp_status = 401, rp_headers = [(''www-authenticate'', bearer_realm)], rp_body = ''Unauthorized''\<rparr>"

definition socket_refusal :: response where
  "socket_refusal =
     \<lparr>rp_status = 401, rp_headers = [(''www-authenticate'', bearer_realm), text_plain],
      rp_body = ''Unauthorized''\<rparr>"

datatype bridge_route = Mcp_service | Rest_method string string | No_bridge

text \<open>Where a request ends: an answer, a bridge, the host's router, or the upgrade's outcome.\<close>

datatype ('p, 'ctx, 'v, 'd) combined_out =
    Combined_answer response
  | In_mcp
  | In_rest "('v, 'd) rest_response + ('p, 'ctx) rest_call \<times> method_info"
  | No_such_bridge
  | In_routes "'ctx extensions"
  | At_socket "'ctx outcome"

text \<open>The bridges' router, behind the layer that checks the key.\<close>

definition bridges_app ::
  "('j, 'p, 'ctx, 'e, 's) combined \<Rightarrow> bridge_route \<Rightarrow> request \<Rightarrow> ('p, 'v, 'd) body_read \<Rightarrow>
   ('p, 'ctx, 'v, 'd) combined_out"
where
  "bridges_app cb route r body =
     (if key_refused (cb_key cb) r then Combined_answer bridge_refusal
      else case (route, cb_rest cb) of
             (Mcp_service, _) \<Rightarrow> In_mcp
           | (Rest_method namespace method, Some st) \<Rightarrow>
               In_rest (fst (rest_checks st namespace method r body))
           | _ \<Rightarrow> No_such_bridge)"

definition combined_request ::
  "('net \<Rightarrow> ip_addr \<Rightarrow> bool) \<Rightarrow> nat \<Rightarrow> (string \<Rightarrow> string) \<Rightarrow> bridge_route \<Rightarrow>
   ('j, 'p, 'ctx, 'e, 's) combined \<Rightarrow> request \<Rightarrow> ('p, 'v, 'd) body_read \<Rightarrow> 'ctx extensions \<Rightarrow>
   ('j, 'p, 'ctx, 'e, 's) combined \<times> ('p, 'ctx, 'v, 'd) combined_out"
where
  "combined_request nc max_batch accept_key route cb r body ext =
     (if starts_with ''/mcp'' (rq_path r) \<or> starts_with ''/rest'' (rq_path r)
      then (cb, bridges_app cb route r body)
      else if (case cb_routes cb of Some socket_path \<Rightarrow> rq_path r \<noteq> socket_path | None \<Rightarrow> False)
      then (cb, In_routes
                  (case ex_connection ext of
                     None \<Rightarrow> ext
                   | Some conn \<Rightarrow>
                       ext\<lparr>ex_client := Some (client_of nc (tp_default :: 'net trusted_proxies) conn (rq_headers r))\<rparr>))
      else if key_refused (cb_key cb) r then (cb, Combined_answer socket_refusal)
      else (case upgrade max_batch accept_key (cb_shared cb) r ext of
              (sh, out) \<Rightarrow> (cb\<lparr>cb_shared := sh\<rparr>, At_socket out)))"

text \<open>
  The accept loop: every socket is a connection, with no bound on its address; an accept error
  is waited out, and the stop ends the loop.
\<close>

datatype combined_accept = Combined_accepted socket_addr | Combined_accept_failed string | Combined_stop

definition combined_connection ::
  "('j, 'p, 'ctx, 'e, 's) combined \<Rightarrow> u64 \<Rightarrow> socket_addr \<Rightarrow> u64 \<times> connection" where
  "combined_connection cb counter peer =
     (case connection_new counter peer CALLS_PER_CONNECTION None of
        (counter', conn) \<Rightarrow> (counter', over_tls (cb_tls cb) conn))"

fun combined_loop ::
  "('j, 'p, 'ctx, 'e, 's) combined \<Rightarrow> u64 \<Rightarrow> combined_accept list \<Rightarrow> u64 \<times> connection list" where
  "combined_loop cb counter [] = (counter, [])"
| "combined_loop cb counter (Combined_accepted peer # es) =
     (case combined_connection cb counter peer of
        (counter', conn) \<Rightarrow>
          (case combined_loop cb counter' es of (final, conns) \<Rightarrow> (final, conn # conns)))"
| "combined_loop cb counter (Combined_accept_failed e # es) = combined_loop cb counter es"
| "combined_loop cb counter (Combined_stop # es) = (counter, [])"

section \<open>Properties\<close>

lemma key_refused_key: "key_refused key r \<Longrightarrow> \<exists>k. key = Some k"
  by (cases key) (simp_all add: key_refused_def)

lemma combined_identity:
  assumes "serve_combined_with eh bind load_tls a flat route_fn addr key enable options = Ok cb"
  shows "cb_key cb = key" and "cb_rest cb \<noteq> None \<longleftrightarrow> enable"
    and "cb_rest cb = Some st \<Longrightarrow> rs_validator st = None \<and> ds_route_as st = None"
    and "cb_shared cb = shared_new default_limits (max_connections default_quotas)"
    and "cb_routes cb = map_option hr_socket_path (co_routes options)"
    and "cb_tls cb = (co_tls options \<noteq> None)"
  using assms
  by (auto simp: serve_combined_with_def Let_def into_router_def schemas_to_rest_routes_def with_router_def
      with_server_info_and_schemas_def split: sum.splits option.splits if_splits)


definition sample_combined_activation :: "(unit, unit, unit, unit, unit) activation" where
  "sample_combined_activation =
     \<lparr>ac_namespace = ''ns'', ac_version = ''1'', ac_description = [],
      ac_schema = \<lparr>ps_namespace = ''ns'', ps_version = ''1'', ps_description = [], ps_hash = ''h'', ps_methods = []\<rparr>,
      ac_ungated = (\<lambda>_ _ _. Inl ())\<rparr>"


text \<open>
  A host's path that only begins like a bridge's is never the host's: \<open>/restaurant\<close> is looked
  for in the bridges' router.
\<close>

lemma a_path_like_a_bridges_is_never_the_hosts:
  assumes "starts_with ''/rest'' (rq_path r)"
  shows "snd (combined_request nc mb ak route cb r body ext) \<noteq> In_routes ext'"
  using assms by (simp add: combined_request_def bridges_app_def split: bridge_route.splits option.splits)

end
