(* ===== verification/Server.thy ===== *)
theory Server
  imports Listener Mcp Registry
begin

text \<open>
  server.rs: the builder that is told what to serve, the checks it makes before it builds
  (RED-4), and the server that starts every transport configured, announces itself to the
  registry, waits for the first of them to end and withdraws. The transports are those of their
  own theories. What the machine answers is the record \<open>world\<close>, an argument: binding each
  listener's address, loading a TLS pair, opening a session database, the environment, the cell
  of the process's trusted proxies. plexus-transport-mcp's mount is what the builder reads of its
  configuration; its router is not under src/.
\<close>

record registry_options =
  ro_enabled :: "bool option"
  ro_url :: "string option"
  ro_name :: "string option"
  ro_host :: "string option"

definition default_registry_options :: registry_options where
  "default_registry_options = \<lparr>ro_enabled = None, ro_url = None, ro_name = None, ro_host = None\<rparr>"

record mcp_mount =
  mm_listen :: "socket_addr option"
  mm_path :: string
  mm_admits_anonymous :: bool

text \<open>A converter is what it makes of the activation: a method table, or its failure.\<close>

record ('j, 'net, 'p, 'ctx, 'e, 's) transport_server =
  srv_activation :: "('j, 'p, 'ctx, 'e, 's) activation"
  srv_config :: "'net transport_config"
  srv_converter :: "(string + unit) option"
  srv_flat :: "'j plugin_schema list option"
  srv_route_fn :: "(string \<Rightarrow> 'p \<Rightarrow> 'e + 's) option"
  srv_route_as_fn :: "(string \<Rightarrow> 'p \<Rightarrow> 'ctx option \<Rightarrow> 'e + 's) option"
  srv_validator :: "'ctx validator option"
  srv_reject :: bool
  srv_origins :: "string list"
  srv_hosts :: "string list"
  srv_quotas :: "connection_quotas option"
  srv_proxies :: "'net trusted_proxies option"
  srv_upgrade :: upgrade_options
  srv_registry :: registry_options
  srv_mcp :: "mcp_mount option"
  srv_tls :: "tls_config option"

text \<open>The builder is the server to be, and what only \<open>build\<close> reads.\<close>

record ('j, 'net, 'p, 'ctx, 'e, 's) server_builder =
  "('j, 'net, 'p, 'ctx, 'e, 's) transport_server" +
  bld_allow_missing_auth :: bool
  bld_bind :: "ip_addr option"

type_synonym ('j, 'net, 'p, 'ctx, 'e, 's) builder_step =
  "('j, 'net, 'p, 'ctx, 'e, 's) server_builder \<Rightarrow> ('j, 'net, 'p, 'ctx, 'e, 's) server_builder"

section \<open>The builder\<close>

definition builder_new ::
  "('j, 'p, 'ctx, 'e, 's) activation \<Rightarrow> string + unit \<Rightarrow> ('j, 'net, 'p, 'ctx, 'e, 's) server_builder"
where
  "builder_new a converter =
     \<lparr>srv_activation = a, srv_config = default_transport_config, srv_converter = Some converter,
      srv_flat = None, srv_route_fn = None, srv_route_as_fn = None, srv_validator = None,
      srv_reject = False, srv_origins = [], srv_hosts = [], srv_quotas = None, srv_proxies = None,
      srv_upgrade = default_options, srv_registry = default_registry_options, srv_mcp = None,
      srv_tls = None, bld_allow_missing_auth = False, bld_bind = None\<rparr>"

definition transport_server_builder where
  "transport_server_builder a converter = builder_new a converter"

definition set_config ::
  "('net transport_config \<Rightarrow> 'net transport_config) \<Rightarrow> ('j, 'net, 'p, 'ctx, 'e, 's) builder_step" where
  "set_config f b = b\<lparr>srv_config := f (srv_config b)\<rparr>"

definition set_registry ::
  "(registry_options \<Rightarrow> registry_options) \<Rightarrow> ('j, 'net, 'p, 'ctx, 'e, 's) builder_step" where
  "set_registry f b = b\<lparr>srv_registry := f (srv_registry b)\<rparr>"

definition set_upgrade ::
  "(upgrade_options \<Rightarrow> upgrade_options) \<Rightarrow> ('j, 'net, 'p, 'ctx, 'e, 's) builder_step" where
  "set_upgrade f b = b\<lparr>srv_upgrade := f (srv_upgrade b)\<rparr>"

definition with_mcp :: "mcp_mount \<Rightarrow> ('j, 'net, 'p, 'ctx, 'e, 's) builder_step" where
  "with_mcp config b = b\<lparr>srv_mcp := Some config\<rparr>"

definition without_registry :: "('j, 'net, 'p, 'ctx, 'e, 's) builder_step" where
  "without_registry b = set_registry (\<lambda>r. r\<lparr>ro_enabled := Some False\<rparr>) b"

definition with_registry_name :: "string \<Rightarrow> ('j, 'net, 'p, 'ctx, 'e, 's) builder_step" where
  "with_registry_name n b = set_registry (\<lambda>r. r\<lparr>ro_name := Some n\<rparr>) b"

definition with_registry_url :: "string \<Rightarrow> ('j, 'net, 'p, 'ctx, 'e, 's) builder_step" where
  "with_registry_url u b = set_registry (\<lambda>r. r\<lparr>ro_url := Some u\<rparr>) b"

definition with_registry_host :: "string \<Rightarrow> ('j, 'net, 'p, 'ctx, 'e, 's) builder_step" where
  "with_registry_host h b = set_registry (\<lambda>r. r\<lparr>ro_host := Some h\<rparr>) b"

definition with_websocket :: "u16 \<Rightarrow> ('j, 'net, 'p, 'ctx, 'e, 's) builder_step" where
  "with_websocket port b = set_config (\<lambda>c. c\<lparr>tc_websocket := Some (websocket_config_new port)\<rparr>) b"

definition with_stdio :: "('j, 'net, 'p, 'ctx, 'e, 's) builder_step" where
  "with_stdio b = set_config (\<lambda>c. c\<lparr>tc_stdio := Some default_stdio\<rparr>) b"

definition with_mcp_http_config :: "mcp_http_config \<Rightarrow> ('j, 'net, 'p, 'ctx, 'e, 's) builder_step" where
  "with_mcp_http_config config b = set_config (\<lambda>c. c\<lparr>tc_mcp_http := Some config\<rparr>) b"

definition with_mcp_http :: "u16 \<Rightarrow> ('j, 'net, 'p, 'ctx, 'e, 's) builder_step" where
  "with_mcp_http port b = set_config (\<lambda>c. c\<lparr>tc_mcp_http := Some (mcp_http_config_new port)\<rparr>) b"

definition with_rest_http_config :: "rest_http_config \<Rightarrow> ('j, 'net, 'p, 'ctx, 'e, 's) builder_step" where
  "with_rest_http_config config b = set_config (\<lambda>c. c\<lparr>tc_rest_http := Some config\<rparr>) b"

definition with_rest_http :: "string \<Rightarrow> u16 \<Rightarrow> ('j, 'net, 'p, 'ctx, 'e, 's) builder_step" where
  "with_rest_http cargo_version port b =
     set_config (\<lambda>c. c\<lparr>tc_rest_http := Some (rest_http_config_new cargo_version port)\<rparr>) b"

definition with_flat_schemas :: "'j plugin_schema list \<Rightarrow> ('j, 'net, 'p, 'ctx, 'e, 's) builder_step" where
  "with_flat_schemas schemas b = b\<lparr>srv_flat := Some schemas\<rparr>"

definition with_route_fn :: "(string \<Rightarrow> 'p \<Rightarrow> 'e + 's) \<Rightarrow> ('j, 'net, 'p, 'ctx, 'e, 's) builder_step" where
  "with_route_fn f b = b\<lparr>srv_route_fn := Some f\<rparr>"

definition with_route_as_fn ::
  "(string \<Rightarrow> 'p \<Rightarrow> 'ctx option \<Rightarrow> 'e + 's) \<Rightarrow> ('j, 'net, 'p, 'ctx, 'e, 's) builder_step" where
  "with_route_as_fn f b = b\<lparr>srv_route_as_fn := Some f\<rparr>"

definition with_mcp_flat_schemas :: "'j plugin_schema list \<Rightarrow> ('j, 'net, 'p, 'ctx, 'e, 's) builder_step" where
  "with_mcp_flat_schemas schemas b = with_flat_schemas schemas b"

definition with_mcp_route_fn :: "(string \<Rightarrow> 'p \<Rightarrow> 'e + 's) \<Rightarrow> ('j, 'net, 'p, 'ctx, 'e, 's) builder_step" where
  "with_mcp_route_fn f b = with_route_fn f b"

definition builder_api_key :: "string option \<Rightarrow> ('j, 'net, 'p, 'ctx, 'e, 's) builder_step" where
  "builder_api_key key b = set_config (\<lambda>c. c\<lparr>tc_api_key := key\<rparr>) b"

definition builder_api_key_header :: "string \<Rightarrow> ('j, 'net, 'p, 'ctx, 'e, 's) builder_step" where
  "builder_api_key_header h b = set_config (\<lambda>c. c\<lparr>tc_api_key_header := h\<rparr>) b"

definition builder_session_validator :: "'ctx validator \<Rightarrow> ('j, 'net, 'p, 'ctx, 'e, 's) builder_step" where
  "builder_session_validator v b = b\<lparr>srv_validator := Some v\<rparr>"

definition reject_upgrade_on_auth_failure :: "('j, 'net, 'p, 'ctx, 'e, 's) builder_step" where
  "reject_upgrade_on_auth_failure b = b\<lparr>srv_reject := True\<rparr>"

definition with_allowed_origins :: "string list \<Rightarrow> ('j, 'net, 'p, 'ctx, 'e, 's) builder_step" where
  "with_allowed_origins origins b = b\<lparr>srv_origins := origins\<rparr>"

definition builder_allowed_hosts :: "string list \<Rightarrow> ('j, 'net, 'p, 'ctx, 'e, 's) builder_step" where
  "builder_allowed_hosts hosts b = b\<lparr>srv_hosts := hosts\<rparr>"

definition with_connection_quotas :: "connection_quotas \<Rightarrow> ('j, 'net, 'p, 'ctx, 'e, 's) builder_step" where
  "with_connection_quotas q b = b\<lparr>srv_quotas := Some q\<rparr>"

definition bind_to :: "ip_addr \<Rightarrow> ('j, 'net, 'p, 'ctx, 'e, 's) builder_step" where
  "bind_to ip b = b\<lparr>bld_bind := Some ip\<rparr>"

definition with_trusted_proxies :: "'net trusted_proxies \<Rightarrow> ('j, 'net, 'p, 'ctx, 'e, 's) builder_step" where
  "with_trusted_proxies p b = b\<lparr>srv_proxies := Some p\<rparr>"

definition builder_trusted_proxies :: "'net list \<Rightarrow> ('j, 'net, 'p, 'ctx, 'e, 's) builder_step" where
  "builder_trusted_proxies nets b = with_trusted_proxies (tp_new nets) b"

definition anonymous_view :: "('j, 'net, 'p, 'ctx, 'e, 's) builder_step" where
  "anonymous_view b = set_upgrade (\<lambda>u. u\<lparr>uo_anonymous_view := True\<rparr>) b"

definition credential_cookies :: "string list \<Rightarrow> ('j, 'net, 'p, 'ctx, 'e, 's) builder_step" where
  "credential_cookies names b = set_upgrade (\<lambda>u. u\<lparr>uo_credential_cookies := names\<rparr>) b"

definition with_protected_resource :: "protected_resource \<Rightarrow> ('j, 'net, 'p, 'ctx, 'e, 's) builder_step" where
  "with_protected_resource r b = set_upgrade (\<lambda>u. u\<lparr>uo_protected_resource := Some r\<rparr>) b"

definition with_socket_limits :: "socket_limits \<Rightarrow> ('j, 'net, 'p, 'ctx, 'e, 's) builder_step" where
  "with_socket_limits l b = set_upgrade (\<lambda>u. u\<lparr>uo_limits := l\<rparr>) b"

definition with_hooks :: "nat \<Rightarrow> ('j, 'net, 'p, 'ctx, 'e, 's) builder_step" where
  "with_hooks h b = set_upgrade (\<lambda>u. u\<lparr>uo_hooks := Some h\<rparr>) b"

definition builder_tls :: "tls_config \<Rightarrow> ('j, 'net, 'p, 'ctx, 'e, 's) builder_step" where
  "builder_tls t b = b\<lparr>srv_tls := Some t\<rparr>"

definition with_host_routes :: "host_routes \<Rightarrow> ('j, 'net, 'p, 'ctx, 'e, 's) builder_step" where
  "with_host_routes r b = set_upgrade (\<lambda>u. u\<lparr>uo_routes := Some r\<rparr>) b"

definition with_routes :: "('j, 'net, 'p, 'ctx, 'e, 's) builder_step" where
  "with_routes b = with_host_routes host_routes_new b"

definition allow_missing_auth_middleware :: "('j, 'net, 'p, 'ctx, 'e, 's) builder_step" where
  "allow_missing_auth_middleware b = b\<lparr>bld_allow_missing_auth := True\<rparr>"

section \<open>Building\<close>

text \<open>Whether a parameter's schema says it comes of the caller's auth.\<close>

definition from_auth :: "'j json_read \<Rightarrow> 'j \<Rightarrow> bool" where
  "from_auth jr prop \<longleftrightarrow>
     Option.bind
       (Option.bind (Option.bind (jr_get jr prop ''x-plexus-source'') (jr_object jr))
          (\<lambda>src. map_of src ''from''))
       (jr_str jr) = Some ''auth''"

definition collect_from_schema :: "'j json_read \<Rightarrow> 'j plugin_schema \<Rightarrow> string list" where
  "collect_from_schema jr schema =
     concat (map (\<lambda>m.
       (case Option.bind (Option.bind (ms_params m) (\<lambda>p. jr_get jr p ''properties'')) (jr_object jr) of
          None \<Rightarrow> []
        | Some props \<Rightarrow>
            if list_ex (\<lambda>(name, prop). from_auth jr prop) props
            then [ps_namespace schema @ ''.'' @ ms_name m] else []))
       (ps_methods schema))"

definition collect_auth_gated_methods :: "'j json_read \<Rightarrow> ('j, 'p, 'ctx, 'e, 's) activation \<Rightarrow> string list" where
  "collect_auth_gated_methods jr a = collect_from_schema jr (ac_schema a)"

definition mount_refusal :: string where
  "mount_refusal =
     ''with_mcp: `.with_api_key(...)` does not gate the MCP mount, and this '' @
     ''McpConfig admits anonymous callers, who would reach the hub without '' @
     ''the key. Set `McpConfig.anonymous = false` (or `oauth`), with '' @
     ''`.with_session_validator(...)` to admit Bearer callers.''"

definition red4_refusal :: "string list \<Rightarrow> string" where
  "red4_refusal gated =
     (let line_end = [CHR 0x0A];
          summary = join_with line_end (map (\<lambda>m. ''  - '' @ m) (take 8 gated));
          extra = (if 8 < length gated
                   then line_end @ ''  ... ('' @ show_nat (length gated - 8) @ '' more)'' else [])
      in ''RED-4: '' @ show_nat (length gated) @
         '' auth-gated method(s) declared but no auth middleware configured. Call '' @
         ''`.with_session_validator(...)` or `.with_api_key(...)` on the builder, or '' @
         ''`.allow_missing_auth_middleware()` to intentionally opt out.'' @ line_end @ line_end @
         ''Auth-gated methods:'' @ line_end @ summary @ extra)"

text \<open>\<open>bind\<close>: every listener keeps its port and takes the address; the registry is told it too.\<close>

definition bind_config :: "ip_addr option \<Rightarrow> 'net transport_config \<Rightarrow> 'net transport_config" where
  "bind_config bound c =
     (case bound of
        None \<Rightarrow> c
      | Some ip \<Rightarrow>
          c\<lparr>tc_websocket := map_option (\<lambda>w. w\<lparr>wsc_addr := set_ip ip (wsc_addr w)\<rparr>) (tc_websocket c),
            tc_mcp_http := map_option (\<lambda>m. m\<lparr>mcp_addr := set_ip ip (mcp_addr m)\<rparr>) (tc_mcp_http c),
            tc_rest_http := map_option (\<lambda>r. r\<lparr>rest_addr := set_ip ip (rest_addr r)\<rparr>) (tc_rest_http c)\<rparr>)"

definition bind_registry :: "ip_addr option \<Rightarrow> registry_options \<Rightarrow> registry_options" where
  "bind_registry bound r =
     (case bound of
        None \<Rightarrow> r
      | Some ip \<Rightarrow>
          if ro_host r = None \<and> \<not> is_unspecified ip \<and> \<not> is_loopback ip
          then r\<lparr>ro_host := Some (show_ip ip)\<rparr> else r)"

definition get_or_insert :: "'a \<Rightarrow> 'a option \<Rightarrow> 'a option" where
  "get_or_insert v cell = (case cell of None \<Rightarrow> Some v | Some w \<Rightarrow> Some w)"

definition tls_everywhere :: "tls_config option \<Rightarrow> 'net transport_config \<Rightarrow> 'net transport_config" where
  "tls_everywhere pair c =
     (case pair of
        None \<Rightarrow> c
      | Some t \<Rightarrow>
          c\<lparr>tc_websocket := map_option (\<lambda>w. w\<lparr>wsc_tls := get_or_insert t (wsc_tls w)\<rparr>) (tc_websocket c),
            tc_mcp_http := map_option (\<lambda>m. m\<lparr>mcp_tls := get_or_insert t (mcp_tls m)\<rparr>) (tc_mcp_http c),
            tc_rest_http := map_option (\<lambda>r. r\<lparr>rest_tls := get_or_insert t (rest_tls r)\<rparr>) (tc_rest_http c)\<rparr>)"

definition bind_mount :: "ip_addr option \<Rightarrow> mcp_mount \<Rightarrow> mcp_mount" where
  "bind_mount bound m =
     (case (bound, mm_listen m) of
        (Some ip, Some listen) \<Rightarrow> m\<lparr>mm_listen := Some (set_ip ip listen)\<rparr>
      | _ \<Rightarrow> m)"

definition build ::
  "'j json_read \<Rightarrow> ('j, 'net, 'p, 'ctx, 'e, 's) server_builder \<Rightarrow>
   string + ('j, 'net, 'p, 'ctx, 'e, 's) transport_server"
where
  "build jr b =
     (let has_api_key = (tc_api_key (srv_config b) \<noteq> None);
          auth_configured = (has_api_key \<or> srv_validator b \<noteq> None);
          gated = collect_auth_gated_methods jr (srv_activation b)
      in if has_api_key \<and> (case srv_mcp b of Some m \<Rightarrow> mm_admits_anonymous m | None \<Rightarrow> False)
         then Err mount_refusal
         else if \<not> auth_configured \<and> \<not> bld_allow_missing_auth b \<and> gated \<noteq> [] then Err (red4_refusal gated)
         else Ok \<lparr>srv_activation = srv_activation b,
                  srv_config = tls_everywhere (srv_tls b) (bind_config (bld_bind b) (srv_config b)),
                  srv_converter = srv_converter b, srv_flat = srv_flat b,
                  srv_route_fn = srv_route_fn b, srv_route_as_fn = srv_route_as_fn b,
                  srv_validator = srv_validator b, srv_reject = srv_reject b,
                  srv_origins = srv_origins b, srv_hosts = srv_hosts b, srv_quotas = srv_quotas b,
                  srv_proxies = srv_proxies b, srv_upgrade = srv_upgrade b,
                  srv_registry = bind_registry (bld_bind b) (srv_registry b),
                  srv_mcp = map_option (bind_mount (bld_bind b)) (srv_mcp b), srv_tls = srv_tls b\<rparr>)"

section \<open>Starting\<close>

datatype transport = Websocket_transport | Mcp_transport | Rest_transport | Mounted_transport

record ('m, 'net) world =
  wd_to_json :: "protected_resource \<Rightarrow> string"
  wd_bind :: "transport \<Rightarrow> socket_addr \<Rightarrow> string + socket_addr"
  wd_load_tls :: "tls_config \<Rightarrow> string + unit"
  wd_counter :: u64
  wd_env :: "string \<Rightarrow> string option"
  wd_hosts :: "socket_addr \<Rightarrow> string list \<Rightarrow> string list"
  wd_sessions :: 'm
  wd_sqlite :: "string \<Rightarrow> string + 'm"
  wd_proxies :: "'net trusted_proxies option"

text \<open>What is running, in the order it was started; \<open>rn_registering\<close> is the spawned task's.\<close>

record ('j, 'net, 'p, 'ctx, 'e, 's, 'm) running =
  rn_proxies :: "'net trusted_proxies option"
  rn_websocket :: "('net listener \<times> ('ctx, 'net) middleware \<times> port_state) option"
  rn_registering :: "registration option"
  rn_mcp :: "('j, 'p, 'e, 's, 'm) mcp_server option"
  rn_rest :: "(('p, 'ctx, 'e, 's) rest_server \<times> axum_listener) option"
  rn_mounted :: "axum_listener option"

definition serve_module :: "('j, 'net, 'p, 'ctx, 'e, 's) transport_server \<Rightarrow> string + unit option" where
  "serve_module srv =
     (if tc_websocket (srv_config srv) \<noteq> None \<or> tc_stdio (srv_config srv) \<noteq> None
      then (case srv_converter srv of
              None \<Rightarrow> Err ''RPC converter required for WebSocket/stdio''
            | Some (Inl e) \<Rightarrow> Err e
            | Some (Inr m) \<Rightarrow> Ok (Some m))
      else Ok None)"

text \<open>The WebSocket's configuration with the builder's settings put in.\<close>

definition merged_websocket ::
  "('j, 'net, 'p, 'ctx, 'e, 's) transport_server \<Rightarrow> 'net websocket_config \<Rightarrow> 'net websocket_config" where
  "merged_websocket srv w =
     w\<lparr>wsc_api_key := (if wsc_api_key w = None then tc_api_key (srv_config srv) else wsc_api_key w),
       wsc_api_key_header := tc_api_key_header (srv_config srv),
       wsc_allowed_origins := (if wsc_allowed_origins w = [] then srv_origins srv else wsc_allowed_origins w),
       wsc_allowed_hosts := (if wsc_allowed_hosts w = [] then srv_hosts srv else wsc_allowed_hosts w),
       wsc_quotas := (case srv_quotas srv of Some q \<Rightarrow> q | None \<Rightarrow> wsc_quotas w),
       wsc_trusted_proxies := (case srv_proxies srv of Some p \<Rightarrow> p | None \<Rightarrow> wsc_trusted_proxies w)\<rparr>"

definition start_websocket ::
  "('m, 'net) world \<Rightarrow> ('j, 'net, 'p, 'ctx, 'e, 's) transport_server \<Rightarrow>
   ('j, 'net, 'p, 'ctx, 'e, 's, 'm) running \<Rightarrow> ('j, 'net, 'p, 'ctx, 'e, 's, 'm) running \<times> (string + unit)"
where
  "start_websocket wd srv rn =
     (case tc_websocket (srv_config srv) of
        None \<Rightarrow> (rn, Ok ())
      | Some w \<Rightarrow>
          (case serve_websocket_with (wd_to_json wd) (wd_bind wd Websocket_transport) (wd_load_tls wd)
                  (wd_counter wd) (merged_websocket srv w) (srv_validator srv)
                  ((srv_upgrade srv)\<lparr>uo_reject_on_session_failure := srv_reject srv\<rparr>) of
             Inl e \<Rightarrow> (rn, Err e)
           | Inr started \<Rightarrow> (rn\<lparr>rn_websocket := Some started\<rparr>, Ok ())))"

text \<open>What the registry is told once the WebSocket is bound.\<close>

definition registration_of ::
  "(string \<Rightarrow> string option) \<Rightarrow> ('j, 'net, 'p, 'ctx, 'e, 's) transport_server \<Rightarrow> socket_addr option \<Rightarrow>
   registration option"
where
  "registration_of env srv bound =
     (case bound of
        None \<Rightarrow> None
      | Some addr \<Rightarrow>
          if (case ro_enabled (srv_registry srv) of None \<Rightarrow> True | Some on \<Rightarrow> on) \<and>
             \<not> registry_disabled_by_env env
          then Some (let reg = srv_registry srv; schema = ac_schema (srv_activation srv)
                     in \<lparr>rg_url = (case ro_url reg of Some u \<Rightarrow> u | None \<Rightarrow> registry_url_from_env env),
                         rg_name = (case ro_name reg of Some n \<Rightarrow> n | None \<Rightarrow> ps_namespace schema),
                         rg_host = (case ro_host reg of Some h \<Rightarrow> h | None \<Rightarrow> ''127.0.0.1''),
                         rg_port = sa_port addr, rg_version = ps_version schema,
                         rg_schema_hash = ps_hash schema\<rparr>)
          else None)"

definition start_registering ::
  "('m, 'net) world \<Rightarrow> ('j, 'net, 'p, 'ctx, 'e, 's) transport_server \<Rightarrow>
   ('j, 'net, 'p, 'ctx, 'e, 's, 'm) running \<Rightarrow> ('j, 'net, 'p, 'ctx, 'e, 's, 'm) running"
where
  "start_registering wd srv rn =
     rn\<lparr>rn_registering :=
          registration_of (wd_env wd) srv (map_option (\<lambda>(ls, _). ls_addr ls) (rn_websocket rn))\<rparr>"

definition start_mcp ::
  "('m, 'net) world \<Rightarrow> ('j, 'net, 'p, 'ctx, 'e, 's) transport_server \<Rightarrow>
   ('j, 'net, 'p, 'ctx, 'e, 's, 'm) running \<Rightarrow> ('j, 'net, 'p, 'ctx, 'e, 's, 'm) running \<times> (string + unit)"
where
  "start_mcp wd srv rn =
     (case tc_mcp_http (srv_config srv) of
        None \<Rightarrow> (rn, Ok ())
      | Some config \<Rightarrow>
          (case serve_mcp_http (wd_hosts wd) (wd_bind wd Mcp_transport) (wd_load_tls wd) (wd_sessions wd)
                  (wd_sqlite wd) (srv_activation srv) (srv_flat srv) (srv_route_fn srv) config
                  (tc_api_key (srv_config srv)) of
             Inl e \<Rightarrow> (rn, Err e)
           | Inr started \<Rightarrow> (rn\<lparr>rn_mcp := Some started\<rparr>, Ok ())))"

definition start_rest ::
  "('m, 'net) world \<Rightarrow> ('j, 'net, 'p, 'ctx, 'e, 's) transport_server \<Rightarrow>
   ('j, 'net, 'p, 'ctx, 'e, 's, 'm) running \<Rightarrow> ('j, 'net, 'p, 'ctx, 'e, 's, 'm) running \<times> (string + unit)"
where
  "start_rest wd srv rn =
     (case tc_rest_http (srv_config srv) of
        None \<Rightarrow> (rn, Ok ())
      | Some config \<Rightarrow>
          (case serve_rest_http_as (wd_bind wd Rest_transport) (wd_load_tls wd)
                  (ac_ungated (srv_activation srv)) (ac_schema (srv_activation srv)) (srv_flat srv)
                  (srv_route_fn srv) (srv_route_as_fn srv) (srv_validator srv) config
                  (tc_api_key (srv_config srv)) of
             Inl e \<Rightarrow> (rn, Err e)
           | Inr started \<Rightarrow> (rn\<lparr>rn_rest := Some started\<rparr>, Ok ())))"

definition listen_required :: string where
  "listen_required =
     ''with_mcp: McpConfig.listen is required '' @ [CHR 0xE2, CHR 0x80, CHR 0x94] @
     '' the mounted bridge has its own listener until TRANSPORT-10 puts /mcp on the WebSocket'' @
     [CHR 0x27] @ ''s router''"

definition start_mounted ::
  "('m, 'net) world \<Rightarrow> ('j, 'net, 'p, 'ctx, 'e, 's) transport_server \<Rightarrow>
   ('j, 'net, 'p, 'ctx, 'e, 's, 'm) running \<Rightarrow> ('j, 'net, 'p, 'ctx, 'e, 's, 'm) running \<times> (string + unit)"
where
  "start_mounted wd srv rn =
     (case srv_mcp srv of
        None \<Rightarrow> (rn, Ok ())
      | Some mount \<Rightarrow>
          (case mm_listen mount of
             None \<Rightarrow> (rn, Err listen_required)
           | Some listen \<Rightarrow>
               (case wd_bind wd Mounted_transport listen of
                  Inl e \<Rightarrow> (rn, Err e)
                | Inr local_addr \<Rightarrow>
                    (case serve_axum (wd_load_tls wd) local_addr (srv_tls srv) of
                       Inl e \<Rightarrow> (rn, Err e)
                     | Inr listening \<Rightarrow> (rn\<lparr>rn_mounted := Some listening\<rparr>, Ok ())))))"

datatype served = On_stdio stdio_config | Nothing_to_serve | Serving

text \<open>The servers, in their order; the first that does not start ends \<open>serve\<close> with its error.\<close>

definition start_servers ::
  "('m, 'net) world \<Rightarrow> ('j, 'net, 'p, 'ctx, 'e, 's) transport_server \<Rightarrow>
   ('j, 'net, 'p, 'ctx, 'e, 's, 'm) running \<Rightarrow>
   ('j, 'net, 'p, 'ctx, 'e, 's, 'm) running \<times> (string + served)"
where
  "start_servers wd srv rn0 =
     try_then (start_websocket wd srv rn0) (\<lambda>rn1 _.
     try_then (start_mcp wd srv (start_registering wd srv rn1)) (\<lambda>rn2 _.
     try_then (start_rest wd srv rn2) (\<lambda>rn3 _.
     try_then (start_mounted wd srv rn3) (\<lambda>rn _.
       if rn_websocket rn = None \<and> rn_mcp rn = None \<and> rn_rest rn = None \<and> rn_mounted rn = None
       then (rn, Ok Nothing_to_serve) else (rn, Ok Serving)))))"

definition believe_proxies ::
  "('j, 'net, 'p, 'ctx, 'e, 's) transport_server \<Rightarrow> ('j, 'net, 'p, 'ctx, 'e, 's, 'm) running \<Rightarrow>
   ('j, 'net, 'p, 'ctx, 'e, 's, 'm) running"
where
  "believe_proxies srv rn =
     (case srv_proxies srv of
        Some p \<Rightarrow> rn\<lparr>rn_proxies := init_once (rn_proxies rn) p\<rparr>
      | None \<Rightarrow> rn)"

text \<open>
  \<open>serve\<close>, up to where it waits: what is running by then, and an error, the stdio transport it
  blocks on, nothing, or the servers it waits for.
\<close>

definition serve_start ::
  "('m, 'net) world \<Rightarrow> ('j, 'net, 'p, 'ctx, 'e, 's) transport_server \<Rightarrow>
   ('j, 'net, 'p, 'ctx, 'e, 's, 'm) running \<times> (string + served)"
where
  "serve_start wd srv =
     try_then
       (\<lparr>rn_proxies = wd_proxies wd, rn_websocket = None, rn_registering = None, rn_mcp = None,
         rn_rest = None, rn_mounted = None\<rparr>,
        serve_module srv)
       (\<lambda>rn module.
         case tc_stdio (srv_config srv) of
           Some config \<Rightarrow> (believe_proxies srv rn, Ok (On_stdio config))
         | None \<Rightarrow> start_servers wd srv (believe_proxies srv rn))"

section \<open>Waiting and leaving\<close>

text \<open>
  \<open>select!\<close> over the servers that run, and a signal where a registration is announced; what
  each says of its end is only logged.
\<close>

datatype ending = Server_ended transport | Signalled

definition awaited :: "('j, 'net, 'p, 'ctx, 'e, 's, 'm) running \<Rightarrow> ending set" where
  "awaited rn =
     (if rn_websocket rn \<noteq> None then {Server_ended Websocket_transport} else {}) \<union>
     (if rn_mcp rn \<noteq> None then {Server_ended Mcp_transport} else {}) \<union>
     (if rn_rest rn \<noteq> None then {Server_ended Rest_transport} else {}) \<union>
     (if rn_mounted rn \<noteq> None then {Server_ended Mounted_transport} else {}) \<union>
     (if rn_registering rn \<noteq> None then {Signalled} else {})"

text \<open>
  The way out: the socket server stopped on a signal, and the registration to withdraw. \<open>task\<close>
  is what the spawned task has come to by then: nothing yet, or whether it registered; the flag
  it sets is all that is read. The withdrawal has three seconds and its answer is only logged.
\<close>

definition DEREGISTER_TIMEOUT :: nat where
  "DEREGISTER_TIMEOUT = 3000"

definition registered_flag :: "bool option \<Rightarrow> bool" where
  "registered_flag task = (task = Some True)"

definition leave ::
  "('j, 'net, 'p, 'ctx, 'e, 's, 'm) running \<Rightarrow> ending \<Rightarrow> bool option \<Rightarrow> bool \<times> registration option" where
  "leave rn e task =
     (e = Signalled \<and> rn_websocket rn \<noteq> None,
      (case rn_registering rn of
         Some reg \<Rightarrow> if registered_flag task then Some reg else None
       | None \<Rightarrow> None))"

end
