(* ===== verification/Server_Properties.thy ===== *)
theory Server_Properties
  imports Server
begin

text \<open>
  What the builder and the server promise: a server is built exactly when its gates are there,
  every listener takes the bind address and the TLS pair, and the registry is told what was
  bound, and told again on the way out only what it was told.
\<close>

section \<open>Building\<close>

text \<open>The reference for RED-4: a method one of whose parameters comes of the caller's auth.\<close>

definition auth_gated :: "'j json_read \<Rightarrow> 'j method_schema \<Rightarrow> bool" where
  "auth_gated jr m \<longleftrightarrow>
     (\<exists>p props src name prop from val.
        ms_params m = Some p \<and> jr_get jr p ''properties'' = Some props \<and>
        (\<exists>entries. jr_object jr props = Some entries \<and> (name, prop) \<in> set entries) \<and>
        jr_get jr prop ''x-plexus-source'' = Some src \<and> jr_object jr src = Some from \<and>
        map_of from ''from'' = Some val \<and> jr_str jr val = Some ''auth'')"

lemma collect_auth_gated:
  "collect_auth_gated_methods jr a =
     map (\<lambda>m. ps_namespace (ac_schema a) @ ''.'' @ ms_name m) (filter (auth_gated jr) (ps_methods (ac_schema a)))"
proof -
  have "(case Option.bind (Option.bind (ms_params m) (\<lambda>p. jr_get jr p ''properties'')) (jr_object jr) of
           None \<Rightarrow> []
         | Some props \<Rightarrow> if list_ex (\<lambda>(name, prop). from_auth jr prop) props then [x] else []) =
        (if auth_gated jr m then [x] else [])" for m :: "'a method_schema" and x :: string
    by (auto simp: auth_gated_def from_auth_def list_ex_iff bind_eq_Some_conv split: option.splits)
      (fastforce simp: bind_eq_None_conv)+
  then have "collect_auth_gated_methods jr a =
      concat (map (\<lambda>m. if auth_gated jr m then [ps_namespace (ac_schema a) @ ''.'' @ ms_name m] else [])
        (ps_methods (ac_schema a)))"
    by (simp add: collect_auth_gated_methods_def collect_from_schema_def)
  then show ?thesis by (simp add: concat_map_if)
qed

text \<open>
  C3. A server is built exactly when its gates are what it needs: a static key is refused beside
  an MCP mount that admits anonymous callers, whatever else is allowed; and an activation with a
  method that reads the caller's auth needs a key, a session validator, or the builder's word
  that none is meant.
\<close>

theorem a_server_is_built_exactly_when_its_gates_are:
  "(\<exists>srv. build jr b = Ok srv) \<longleftrightarrow>
     \<not> (tc_api_key (srv_config b) \<noteq> None \<and> (\<exists>m. srv_mcp b = Some m \<and> mm_admits_anonymous m)) \<and>
     ((\<exists>key. tc_api_key (srv_config b) = Some key) \<or> (\<exists>v. srv_validator b = Some v) \<or>
      bld_allow_missing_auth b \<or>
      {m \<in> set (ps_methods (ac_schema (srv_activation b))). auth_gated jr m} = {})"
proof -
  have "collect_auth_gated_methods jr (srv_activation b) = [] \<longleftrightarrow>
      {m \<in> set (ps_methods (ac_schema (srv_activation b))). auth_gated jr m} = {}"
    by (auto simp: collect_auth_gated filter_empty_conv)
  then show ?thesis
    by (auto simp: build_def Let_def split: option.splits)
qed

section \<open>Starting\<close>

lemma try_then_Ok: "try_then r f = (s, Ok a) \<Longrightarrow> \<exists>t x. r = (t, Ok x) \<and> f t x = (s, Ok a)"
  by (auto simp: try_then_def split: prod.splits sum.splits)

lemma build_Ok:
  assumes "build jr b = Ok srv"
  shows "srv_config srv = tls_everywhere (srv_tls b) (bind_config (bld_bind b) (srv_config b))"
    and "srv_registry srv = bind_registry (bld_bind b) (srv_registry b)"
    and "srv_mcp srv = map_option (bind_mount (bld_bind b)) (srv_mcp b)"
    and "srv_tls srv = srv_tls b" and "srv_activation srv = srv_activation b"
  using assms by (auto simp: build_def Let_def split: if_splits)

lemma tls_bind_websocket:
  "tc_websocket (tls_everywhere t (bind_config i c)) =
     map_option (\<lambda>w. w\<lparr>wsc_addr := (case i of Some ip \<Rightarrow> set_ip ip (wsc_addr w) | None \<Rightarrow> wsc_addr w),
                        wsc_tls := (if wsc_tls w = None then t else wsc_tls w)\<rparr>) (tc_websocket c)"
  by (cases "tc_websocket c"; cases t; cases i)
    (auto simp: tls_everywhere_def bind_config_def get_or_insert_def split: option.splits)

lemma tls_bind_mcp_http:
  "tc_mcp_http (tls_everywhere t (bind_config i c)) =
     map_option (\<lambda>w. w\<lparr>mcp_addr := (case i of Some ip \<Rightarrow> set_ip ip (mcp_addr w) | None \<Rightarrow> mcp_addr w),
                        mcp_tls := (if mcp_tls w = None then t else mcp_tls w)\<rparr>) (tc_mcp_http c)"
  by (cases "tc_mcp_http c"; cases t; cases i)
    (auto simp: tls_everywhere_def bind_config_def get_or_insert_def split: option.splits)

lemma tls_bind_rest_http:
  "tc_rest_http (tls_everywhere t (bind_config i c)) =
     map_option (\<lambda>w. w\<lparr>rest_addr := (case i of Some ip \<Rightarrow> set_ip ip (rest_addr w) | None \<Rightarrow> rest_addr w),
                        rest_tls := (if rest_tls w = None then t else rest_tls w)\<rparr>) (tc_rest_http c)"
  by (cases "tc_rest_http c"; cases t; cases i)
    (auto simp: tls_everywhere_def bind_config_def get_or_insert_def split: option.splits)

text \<open>What each step of the start does to what is running.\<close>

lemma serve_websocket_with_Ok:
  assumes "serve_websocket_with to_json bind load_tls counter c v opts = Ok (ls, mw, st)"
  shows "bind (wsc_addr c) = Ok (ls_addr ls)" and "ls_tls ls = (wsc_tls c \<noteq> None)"
  using assms by (auto simp: serve_websocket_with_def Let_def split: sum.splits)

lemma serve_axum_Ok:
  "serve_axum load_tls addr tls = Ok ax \<Longrightarrow> ax_addr ax = addr \<and> ax_tls ax = (tls \<noteq> None)"
  by (auto simp: serve_axum_def split: option.splits sum.splits)

lemma merged_websocket_keeps [simp]:
  "wsc_addr (merged_websocket srv w) = wsc_addr w" "wsc_tls (merged_websocket srv w) = wsc_tls w"
  by (simp_all add: merged_websocket_def)

lemma start_websocket_Ok:
  assumes "start_websocket wd srv rn = (rn', Ok u)"
  shows "rn_registering rn' = rn_registering rn \<and> rn_mcp rn' = rn_mcp rn \<and>
         rn_rest rn' = rn_rest rn \<and> rn_mounted rn' = rn_mounted rn \<and>
           (case tc_websocket (srv_config srv) of
              None \<Rightarrow> rn_websocket rn' = rn_websocket rn
            | Some w \<Rightarrow> \<exists>ls mw st. rn_websocket rn' = Some (ls, mw, st) \<and>
                wd_bind wd Websocket_transport (wsc_addr w) = Ok (ls_addr ls) \<and> ls_tls ls = (wsc_tls w \<noteq> None))"
proof (cases "tc_websocket (srv_config srv)")
  case None
  with assms show ?thesis by (simp add: start_websocket_def)
next
  case (Some w)
  let ?start = "serve_websocket_with (wd_to_json wd) (wd_bind wd Websocket_transport) (wd_load_tls wd)
    (wd_counter wd) (merged_websocket srv w) (srv_validator srv)
    ((srv_upgrade srv)\<lparr>uo_reject_on_session_failure := srv_reject srv\<rparr>)"
  from assms Some obtain ls mw st where start: "?start = Ok (ls, mw, st)"
      and rn': "rn' = rn\<lparr>rn_websocket := Some (ls, mw, st)\<rparr>"
    by (auto simp: start_websocket_def split: sum.splits)
  from serve_websocket_with_Ok [OF start] Some rn' show ?thesis by simp
qed

lemma start_mcp_Ok:
  assumes "start_mcp wd srv rn = (rn', Ok u)"
  shows "rn_websocket rn' = rn_websocket rn \<and> rn_registering rn' = rn_registering rn \<and>
         rn_rest rn' = rn_rest rn \<and> rn_mounted rn' = rn_mounted rn \<and>
           (case tc_mcp_http (srv_config srv) of
              None \<Rightarrow> rn_mcp rn' = rn_mcp rn
            | Some w \<Rightarrow> \<exists>mv. rn_mcp rn' = Some mv \<and>
                wd_bind wd Mcp_transport (mcp_addr w) = Ok (ax_addr (mv_listening mv)) \<and>
                ax_tls (mv_listening mv) = (mcp_tls w \<noteq> None))"
  using assms
  by (auto simp: start_mcp_def serve_mcp_http_def serve_with_session_manager_def Let_def
      split: option.splits sum.splits session_storage.splits dest: serve_axum_Ok)

lemma start_rest_Ok:
  assumes "start_rest wd srv rn = (rn', Ok u)"
  shows "rn_websocket rn' = rn_websocket rn \<and> rn_registering rn' = rn_registering rn \<and>
         rn_mcp rn' = rn_mcp rn \<and> rn_mounted rn' = rn_mounted rn \<and>
           (case tc_rest_http (srv_config srv) of
              None \<Rightarrow> rn_rest rn' = rn_rest rn
            | Some w \<Rightarrow> \<exists>sv ax. rn_rest rn' = Some (sv, ax) \<and>
                wd_bind wd Rest_transport (rest_addr w) = Ok (ax_addr ax) \<and> ax_tls ax = (rest_tls w \<noteq> None))"
  using assms
  by (auto simp: start_rest_def serve_rest_http_as_def split: option.splits sum.splits dest: serve_axum_Ok)

lemma start_mounted_Ok:
  assumes "start_mounted wd srv rn = (rn', Ok u)"
  shows "rn_websocket rn' = rn_websocket rn \<and> rn_registering rn' = rn_registering rn \<and>
         rn_mcp rn' = rn_mcp rn \<and> rn_rest rn' = rn_rest rn \<and>
           (case srv_mcp srv of
              None \<Rightarrow> rn_mounted rn' = rn_mounted rn
            | Some m \<Rightarrow> \<exists>listen ax. rn_mounted rn' = Some ax \<and> mm_listen m = Some listen \<and>
                wd_bind wd Mounted_transport listen = Ok (ax_addr ax) \<and> ax_tls ax = (srv_tls srv \<noteq> None))"
  using assms
  by (auto simp: start_mounted_def split: option.splits sum.splits dest: serve_axum_Ok)

lemma serve_start_Serving:
  fixes rn :: "('j, 'net, 'p, 'ctx, 'e, 's, 'm) running"
  assumes "serve_start wd srv = (rn, Ok Serving)"
  shows "tc_stdio (srv_config srv) = None \<and>
         (\<exists>r0 r1 r2 r3. rn_websocket r0 = None \<and> rn_mcp r0 = None \<and> rn_rest r0 = None \<and>
            rn_mounted r0 = None \<and> start_websocket wd srv r0 = (r1, Ok ()) \<and>
            start_mcp wd srv (start_registering wd srv r1) = (r2, Ok ()) \<and>
            start_rest wd srv r2 = (r3, Ok ()) \<and> start_mounted wd srv r3 = (rn, Ok ()))"
proof -
  define r :: "('j, 'net, 'p, 'ctx, 'e, 's, 'm) running" where
    "r = \<lparr>rn_proxies = wd_proxies wd, rn_websocket = None, rn_registering = None, rn_mcp = None,
          rn_rest = None, rn_mounted = None\<rparr>"
  then have r: "rn_websocket r = None" "rn_mcp r = None" "rn_rest r = None" "rn_mounted r = None" by simp_all
  from try_then_Ok [OF assms [unfolded serve_start_def, folded r_def]]
  have c: "(case tc_stdio (srv_config srv) of Some config \<Rightarrow> (believe_proxies srv r, Ok (On_stdio config))
              | None \<Rightarrow> start_servers wd srv (believe_proxies srv r)) = (rn, Ok Serving)"
    by auto
  from r have r0: "rn_websocket (believe_proxies srv r) = None" "rn_mcp (believe_proxies srv r) = None"
      "rn_rest (believe_proxies srv r) = None" "rn_mounted (believe_proxies srv r) = None"
    by (simp_all add: believe_proxies_def split: option.splits)
  from c have stdio: "tc_stdio (srv_config srv) = None"
    and start: "start_servers wd srv (believe_proxies srv r) = (rn, Ok Serving)"
    by (simp_all split: option.splits)
  from start have "\<exists>r1 r2 r3. start_websocket wd srv (believe_proxies srv r) = (r1, Ok ()) \<and>
      start_mcp wd srv (start_registering wd srv r1) = (r2, Ok ()) \<and>
      start_rest wd srv r2 = (r3, Ok ()) \<and> start_mounted wd srv r3 = (rn, Ok ())"
    unfolding start_servers_def by (auto dest!: try_then_Ok split: if_splits)
  with r0 stdio show ?thesis by blast
qed

text \<open>The address a listener is told to take: the builder's in place of its own, at its port.\<close>

definition bound_at :: "ip_addr option \<Rightarrow> socket_addr \<Rightarrow> socket_addr" where
  "bound_at bound a = (case bound of Some ip \<Rightarrow> a\<lparr>sa_ip := ip\<rparr> | None \<Rightarrow> a)"

text \<open>
  C11. A server that is serving has every transport it was told of, and each bound the builder's
  address in place of its own where one was given, its own port kept, and speaks TLS exactly when
  its configuration or the builder names a pair: the WebSocket, MCP, REST and the mounted bridge,
  whose only pair is the builder's.
\<close>

theorem every_listener_takes_the_bind_address_and_the_pair:
  assumes "build jr b = Ok srv" and "serve_start wd srv = (rn, Ok Serving)"
  shows "(\<forall>w. tc_websocket (srv_config b) = Some w \<longrightarrow> (\<exists>ls mw st. rn_websocket rn = Some (ls, mw, st) \<and>
            wd_bind wd Websocket_transport (bound_at (bld_bind b) (wsc_addr w)) = Ok (ls_addr ls) \<and>
            (ls_tls ls \<longleftrightarrow> wsc_tls w \<noteq> None \<or> srv_tls b \<noteq> None))) \<and>
         (\<forall>w. tc_mcp_http (srv_config b) = Some w \<longrightarrow> (\<exists>mv. rn_mcp rn = Some mv \<and>
            wd_bind wd Mcp_transport (bound_at (bld_bind b) (mcp_addr w)) = Ok (ax_addr (mv_listening mv)) \<and>
            (ax_tls (mv_listening mv) \<longleftrightarrow> mcp_tls w \<noteq> None \<or> srv_tls b \<noteq> None))) \<and>
         (\<forall>w. tc_rest_http (srv_config b) = Some w \<longrightarrow> (\<exists>sv ax. rn_rest rn = Some (sv, ax) \<and>
            wd_bind wd Rest_transport (bound_at (bld_bind b) (rest_addr w)) = Ok (ax_addr ax) \<and>
            (ax_tls ax \<longleftrightarrow> rest_tls w \<noteq> None \<or> srv_tls b \<noteq> None))) \<and>
         (\<forall>m. srv_mcp b = Some m \<longrightarrow> (\<exists>listen ax. rn_mounted rn = Some ax \<and> mm_listen m = Some listen \<and>
            wd_bind wd Mounted_transport (bound_at (bld_bind b) listen) = Ok (ax_addr ax) \<and>
            (ax_tls ax \<longleftrightarrow> srv_tls b \<noteq> None)))"
proof -
  note built = build_Ok [OF assms(1)]
  from serve_start_Serving [OF assms(2)] obtain r0 r1 r2 r3 where steps:
      "start_websocket wd srv r0 = (r1, Ok ())" "start_mcp wd srv (start_registering wd srv r1) = (r2, Ok ())"
      "start_rest wd srv r2 = (r3, Ok ())" "start_mounted wd srv r3 = (rn, Ok ())"
    by blast
  note ws = start_websocket_Ok [OF steps(1)] and mcp = start_mcp_Ok [OF steps(2)]
    and rest = start_rest_Ok [OF steps(3)] and mounted = start_mounted_Ok [OF steps(4)]
  from ws mcp rest mounted have kept: "rn_websocket rn = rn_websocket r1" "rn_mcp rn = rn_mcp r2"
      "rn_rest rn = rn_rest r3"
    by (simp_all add: start_registering_def)
  have at: "bound_at i a = (case i of Some ip \<Rightarrow> set_ip ip a | None \<Rightarrow> a)" for i a
    by (simp add: bound_at_def set_ip_def split: option.splits)
  show ?thesis
  proof (intro conjI allI impI)
    fix w assume "tc_websocket (srv_config b) = Some w"
    with ws show "\<exists>ls mw st. rn_websocket rn = Some (ls, mw, st) \<and>
        wd_bind wd Websocket_transport (bound_at (bld_bind b) (wsc_addr w)) = Ok (ls_addr ls) \<and>
        (ls_tls ls \<longleftrightarrow> wsc_tls w \<noteq> None \<or> srv_tls b \<noteq> None)"
      unfolding kept built(1) tls_bind_websocket at by (auto split: if_splits)
  next
    fix w assume "tc_mcp_http (srv_config b) = Some w"
    with mcp show "\<exists>mv. rn_mcp rn = Some mv \<and>
        wd_bind wd Mcp_transport (bound_at (bld_bind b) (mcp_addr w)) = Ok (ax_addr (mv_listening mv)) \<and>
        (ax_tls (mv_listening mv) \<longleftrightarrow> mcp_tls w \<noteq> None \<or> srv_tls b \<noteq> None)"
      unfolding kept built(1) tls_bind_mcp_http at by (auto split: if_splits)
  next
    fix w assume "tc_rest_http (srv_config b) = Some w"
    with rest show "\<exists>sv ax. rn_rest rn = Some (sv, ax) \<and>
        wd_bind wd Rest_transport (bound_at (bld_bind b) (rest_addr w)) = Ok (ax_addr ax) \<and>
        (ax_tls ax \<longleftrightarrow> rest_tls w \<noteq> None \<or> srv_tls b \<noteq> None)"
      unfolding kept built(1) tls_bind_rest_http at by (auto split: if_splits)
  next
    fix m assume "srv_mcp b = Some m"
    with mounted show "\<exists>listen ax. rn_mounted rn = Some ax \<and> mm_listen m = Some listen \<and>
        wd_bind wd Mounted_transport (bound_at (bld_bind b) listen) = Ok (ax_addr ax) \<and> (ax_tls ax \<longleftrightarrow> srv_tls b \<noteq> None)"
      unfolding built(3,4) at by (auto simp: bind_mount_def split: option.splits)
  qed
qed

definition sample_world :: "(unit, nat) world" where
  "sample_world =
     \<lparr>wd_to_json = (\<lambda>_. []), wd_bind = (\<lambda>t a. if t = Rest_transport then Err ''in use'' else Ok a),
      wd_load_tls = (\<lambda>_. Ok ()), wd_counter = 1, wd_env = (\<lambda>_. None), wd_hosts = (\<lambda>_ hosts. hosts),
      wd_sessions = (), wd_sqlite = (\<lambda>_. Ok ()), wd_proxies = None\<rparr>"

definition sample_activation :: "(unit, unit, unit, unit, unit) activation" where
  "sample_activation =
     \<lparr>ac_namespace = ''hub'', ac_version = ''1'', ac_description = [],
      ac_schema = \<lparr>ps_namespace = ''hub'', ps_version = ''1'', ps_description = [], ps_hash = ''h'', ps_methods = []\<rparr>,
      ac_ungated = (\<lambda>_ _ _. Inl ())\<rparr>"

definition sample_builder :: "(unit, nat, unit, unit, unit, unit) server_builder" where
  "sample_builder = bind_to (ipv4 10 0 0 7) (with_websocket 4444 (builder_new sample_activation (Ok ())))"

definition sample_server :: "(unit, nat, unit, unit, unit, unit) transport_server" where
  "sample_server = projr (build \<lparr>jr_get = (\<lambda>_ _. None), jr_str = (\<lambda>_. None), jr_object = (\<lambda>_. None)\<rparr> sample_builder)"

lemma sample_built:
  "build \<lparr>jr_get = (\<lambda>_ _. None), jr_str = (\<lambda>_. None), jr_object = (\<lambda>_. None)\<rparr> sample_builder = Ok sample_server"
proof -
  have "\<exists>srv. build \<lparr>jr_get = (\<lambda>_ _. None), jr_str = (\<lambda>_. None), jr_object = (\<lambda>_. None)\<rparr> sample_builder = Ok srv"
    by (simp add: build_def sample_builder_def bind_to_def with_websocket_def set_config_def builder_new_def
        default_transport_config_def sample_activation_def collect_auth_gated_methods_def
        collect_from_schema_def Let_def)
  then show ?thesis by (auto simp: sample_server_def)
qed

lemma sample_ip:
  "\<not> is_unspecified (ipv4 10 0 0 7)" "\<not> is_loopback (ipv4 10 0 0 7)" "show_ip (ipv4 10 0 0 7) = ''10.0.0.7''"
proof -
  show "\<not> is_unspecified (ipv4 10 0 0 7)" "\<not> is_loopback (ipv4 10 0 0 7)"
    by (simp_all add: ipv4_def drop_bit_eq_div)
  have "octets 167772167 = [10, 0, 0, 7]" by (simp add: octets_def)
  moreover have "show_nat 10 = ''10''" "show_nat 0 = ''0''" "show_nat 7 = ''7''"
    by (simp_all add: show_nat.simps digit_char_def char_of_def bit_iff_odd)
  ultimately show "show_ip (ipv4 10 0 0 7) = ''10.0.0.7''" by (simp add: ipv4_def show_ipv4_def)
qed

lemma sample_config:
  "tc_websocket (srv_config sample_builder) = Some (websocket_config_new 4444)"
  "tc_stdio (srv_config sample_server) = None" "tc_mcp_http (srv_config sample_server) = None"
  "tc_rest_http (srv_config sample_server) = None" "srv_mcp sample_server = None"
  "tc_websocket (srv_config sample_server) =
     Some ((websocket_config_new 4444)\<lparr>wsc_addr := \<lparr>sa_ip = ipv4 10 0 0 7, sa_port = 4444\<rparr>\<rparr>)"
  "srv_converter sample_server = Some (Ok ())" "srv_proxies sample_server = None"
  "srv_registry sample_server = default_registry_options\<lparr>ro_host := Some ''10.0.0.7''\<rparr>"
  "bld_bind sample_builder = Some (ipv4 10 0 0 7)"
  by (simp_all add: sample_server_def sample_builder_def bind_to_def with_websocket_def set_config_def
      builder_new_def default_transport_config_def sample_activation_def collect_auth_gated_methods_def
      collect_from_schema_def build_def tls_everywhere_def bind_config_def websocket_config_new_def
      loopback_addr_def set_ip_def bind_registry_def default_registry_options_def sample_ip)

lemma sample_serving:
  "\<exists>rn. serve_start sample_world sample_server = (rn, Ok Serving) \<and> rn_websocket rn \<noteq> None"
  by (simp add: serve_start_def serve_module_def try_then_def sample_config believe_proxies_def
      start_servers_def start_websocket_def serve_websocket_with_def merged_websocket_def Let_def
      sample_world_def websocket_config_new_def start_registering_def start_mcp_def start_rest_def
      start_mounted_def)

lemma every_listener_takes_the_bind_address_and_the_pair_witness:
  "\<exists>rn ls mw st. serve_start sample_world sample_server = (rn, Ok Serving) \<and>
     rn_websocket rn = Some (ls, mw, st) \<and> ls_addr ls = \<lparr>sa_ip = ipv4 10 0 0 7, sa_port = 4444\<rparr>"
proof -
  from sample_serving obtain rn where rn: "serve_start sample_world sample_server = (rn, Ok Serving)"
    by blast
  have "wd_bind sample_world Websocket_transport a = Ok a" for a
    by (simp add: sample_world_def)
  with every_listener_takes_the_bind_address_and_the_pair [OF sample_built rn, THEN conjunct1]
  have "\<exists>ls mw st. rn_websocket rn = Some (ls, mw, st) \<and>
      \<lparr>sa_ip = ipv4 10 0 0 7, sa_port = 4444\<rparr> = ls_addr ls"
    by (fastforce simp: sample_config websocket_config_new_def loopback_addr_def bound_at_def)
  with rn show ?thesis by metis
qed

section \<open>The registry\<close>

text \<open>No server started after the announcement changes what was announced, started or not.\<close>

lemma later_starts_keep:
  "start_mcp wd srv rn = (rn', r) \<Longrightarrow> rn_websocket rn' = rn_websocket rn \<and> rn_registering rn' = rn_registering rn"
  "start_rest wd srv rn = (rn', r) \<Longrightarrow> rn_websocket rn' = rn_websocket rn \<and> rn_registering rn' = rn_registering rn"
  "start_mounted wd srv rn = (rn', r) \<Longrightarrow> rn_websocket rn' = rn_websocket rn \<and> rn_registering rn' = rn_registering rn"
  by (auto simp: start_mcp_def start_rest_def start_mounted_def split: option.splits sum.splits)

lemma try_then_keeps:
  assumes "try_then r f = (s, x)" and "P (fst r)" and "\<And>t a s x. P t \<Longrightarrow> f t a = (s, x) \<Longrightarrow> P s"
  shows "P s"
  using assms by (auto simp: try_then_def split: prod.splits sum.splits)

definition announced ::
  "('m, 'net) world \<Rightarrow> ('j, 'net, 'p, 'ctx, 'e, 's) transport_server \<Rightarrow>
   ('j, 'net, 'p, 'ctx, 'e, 's, 'm) running \<Rightarrow> bool"
where
  "announced wd srv rn \<longleftrightarrow>
     rn_registering rn = registration_of (wd_env wd) srv (map_option (\<lambda>(ls, _). ls_addr ls) (rn_websocket rn))"

lemma later_starts_announced:
  "announced wd srv rn \<Longrightarrow> announced wd srv (fst (start_mcp wd srv rn))"
  "announced wd srv rn \<Longrightarrow> announced wd srv (fst (start_rest wd srv rn))"
  "announced wd srv rn \<Longrightarrow> announced wd srv (fst (start_mounted wd srv rn))"
  using later_starts_keep unfolding announced_def by (metis prod.collapse)+

lemma start_servers_announced:
  assumes "start_servers wd srv r = (rn, x)" and "rn_websocket r = None" and "rn_registering r = None"
  shows "announced wd srv rn"
proof -
  have none: "announced wd srv (fst (start_websocket wd srv r))"
    if "start_websocket wd srv r = (r1, Inl e)" for r1 e
    using that assms(2,3)
    by (auto simp: announced_def registration_of_def start_websocket_def split: option.splits sum.splits)
  have told: "announced wd srv (start_registering wd srv r1)" for r1 :: "('a, 'b, 'c, 'd, 'e, 'f, 'g) running"
    by (simp add: announced_def start_registering_def)
  show ?thesis
  proof (cases "start_websocket wd srv r")
    case (Pair r1 y)
    show ?thesis
    proof (cases y)
      case (Inl e)
      with Pair none [of r1 e] assms(1) show ?thesis by (simp add: start_servers_def try_then_def)
    next
      case (Inr u)
      with Pair assms(1) have "try_then (start_mcp wd srv (start_registering wd srv r1)) (\<lambda>rn2 _.
          try_then (start_rest wd srv rn2) (\<lambda>rn3 _.
          try_then (start_mounted wd srv rn3) (\<lambda>rn _.
            if rn_websocket rn = None \<and> rn_mcp rn = None \<and> rn_rest rn = None \<and> rn_mounted rn = None
            then (rn, Ok Nothing_to_serve) else (rn, Ok Serving)))) = (rn, x)"
        by (simp add: start_servers_def try_then_def)
      then show ?thesis
      proof (rule try_then_keeps)
        show "announced wd srv (fst (start_mcp wd srv (start_registering wd srv r1)))"
          by (rule later_starts_announced(1) [OF told])
      qed (erule try_then_keeps, erule later_starts_announced, erule try_then_keeps,
          erule later_starts_announced, auto split: if_splits)
    qed
  qed
qed

lemma serve_start_announced:
  assumes "serve_start wd srv = (rn, x)"
  shows "announced wd srv rn"
proof -
  have fresh: "announced wd srv r" if "rn_websocket r = None" "rn_registering r = None"
    for r :: "('a, 'b, 'c, 'd, 'e, 'f, 'g) running"
    using that by (simp add: announced_def registration_of_def)
  have proxies: "rn_websocket (believe_proxies srv r) = rn_websocket r \<and>
      rn_registering (believe_proxies srv r) = rn_registering r" for r :: "('a, 'b, 'c, 'd, 'e, 'f, 'g) running"
    by (simp add: believe_proxies_def split: option.splits)
  show ?thesis
    using assms fresh proxies unfolding serve_start_def
    by (auto simp: try_then_def split: sum.splits option.splits intro: start_servers_announced)
qed

text \<open>
  C20. The registry is told of a server exactly when its WebSocket was started and neither the
  builder nor the environment said no, whatever starts or fails after it: under the builder's
  name or the activation's namespace, at the port really bound, with the schema's version and
  hash, and at the host the builder says, or else the bind address where that can be reached, or
  else 127.0.0.1. On the way out it is told again only if the task had registered by then.
\<close>

theorem the_registry_is_told_what_was_bound:
  assumes "build jr b = Ok srv" and "serve_start wd srv = (rn, x)"
  shows "(case rn_registering rn of
            None \<Rightarrow> rn_websocket rn = None \<or> ro_enabled (srv_registry b) = Some False \<or>
                    registry_disabled_by_env (wd_env wd)
          | Some reg \<Rightarrow>
              (\<exists>ls mw st. rn_websocket rn = Some (ls, mw, st) \<and> rg_port reg = sa_port (ls_addr ls)) \<and>
              ro_enabled (srv_registry b) \<noteq> Some False \<and> \<not> registry_disabled_by_env (wd_env wd) \<and>
              rg_name reg = (case ro_name (srv_registry b) of Some n \<Rightarrow> n
                             | None \<Rightarrow> ps_namespace (ac_schema (srv_activation b))) \<and>
              rg_version reg = ps_version (ac_schema (srv_activation b)) \<and>
              rg_schema_hash reg = ps_hash (ac_schema (srv_activation b)) \<and>
              rg_url reg = (case ro_url (srv_registry b) of Some u \<Rightarrow> u
                            | None \<Rightarrow> registry_url_from_env (wd_env wd)) \<and>
              rg_host reg = (case (ro_host (srv_registry b), bld_bind b) of
                               (Some h, _) \<Rightarrow> h
                             | (None, Some ip) \<Rightarrow>
                                 if is_unspecified ip \<or> is_loopback ip then ''127.0.0.1'' else show_ip ip
                             | (None, None) \<Rightarrow> ''127.0.0.1'')) \<and>
         snd (leave rn e task) = (if task = Some True then rn_registering rn else None)"
proof -
  have keeps: "ro_enabled (bind_registry i r) = ro_enabled r" "ro_name (bind_registry i r) = ro_name r"
      "ro_url (bind_registry i r) = ro_url r"
      "(case ro_host (bind_registry i r) of Some h \<Rightarrow> h | None \<Rightarrow> ''127.0.0.1'') =
         (case (ro_host r, i) of
            (Some h, _) \<Rightarrow> h
          | (None, Some ip) \<Rightarrow> if is_unspecified ip \<or> is_loopback ip then ''127.0.0.1'' else show_ip ip
          | (None, None) \<Rightarrow> ''127.0.0.1'')" for i r
    by (auto simp: bind_registry_def split: option.splits)
  note built = build_Ok [OF assms(1)]
  from serve_start_announced [OF assms(2)] have told: "rn_registering rn =
      registration_of (wd_env wd) srv (map_option (\<lambda>(ls, _). ls_addr ls) (rn_websocket rn))"
    by (simp add: announced_def)
  have "snd (leave rn e task) = (if task = Some True then rn_registering rn else None)"
    by (simp add: leave_def registered_flag_def split: option.splits)
  moreover have enabled: "(case ro_enabled r of None \<Rightarrow> True | Some on \<Rightarrow> on) \<longleftrightarrow> ro_enabled r \<noteq> Some False" for r
    by (auto split: option.splits)
  ultimately show ?thesis
    by (auto simp: told registration_of_def built keeps enabled Let_def simp del: option.case_eq_if
        split: option.split)
qed

lemma the_registry_is_told_what_was_bound_witness:
  "\<exists>rn reg. serve_start sample_world sample_server = (rn, Ok Serving) \<and>
     rn_registering rn = Some reg \<and> rg_host reg = ''10.0.0.7''"
proof -
  from sample_serving obtain rn where rn: "serve_start sample_world sample_server = (rn, Ok Serving)"
      and ws: "rn_websocket rn \<noteq> None"
    by blast
  from the_registry_is_told_what_was_bound [OF sample_built rn, THEN conjunct1] ws
  have "\<exists>reg. rn_registering rn = Some reg \<and> rg_host reg = ''10.0.0.7''"
    by (auto simp: sample_config sample_ip sample_world_def sample_builder_def bind_to_def with_websocket_def
        set_config_def builder_new_def default_registry_options_def registry_disabled_by_env_def
        split: option.splits)
  with rn show ?thesis by blast
qed

text \<open>
  A server that ends with an error after its WebSocket was bound has been announced all the same,
  and that path withdraws nothing.
\<close>

lemma a_failed_start_is_announced_all_the_same:
  assumes "serve_start wd srv = (rn, Err e)" and "rn_websocket rn \<noteq> None"
    and "ro_enabled (srv_registry srv) \<noteq> Some False" and "\<not> registry_disabled_by_env (wd_env wd)"
  shows "rn_registering rn \<noteq> None"
proof -
  obtain ls y where ws: "rn_websocket rn = Some (ls, y)" using assms(2) by auto
  have "(case ro_enabled (srv_registry srv) of None \<Rightarrow> True | Some on \<Rightarrow> on)"
    using assms(3) by (auto split: option.splits)
  with serve_start_announced [OF assms(1)] assms(4) show ?thesis
    by (simp add: announced_def registration_of_def ws Let_def)
qed

end
