(* ===== verification/Server_Key.thy ===== *)
theory Server_Key
  imports Server_Properties Port
begin

text \<open>
  The builder's static key on every port at once: what each transport of a running server asks of
  a request before anything of it is served. The builder (server.rs) hands the key to the
  WebSocket's checks (websocket.rs, module \<open>auth\<close>), to the MCP app and to the REST app; the mounted
  bridge does not ask it, and is only built where it admits no anonymous caller.
\<close>

section \<open>What each transport is started with\<close>

lemma started_websocket_checks:
  assumes "start_websocket wd srv rn = (rn', Ok u)" and "rn_websocket rn = None"
    and "rn_websocket rn' = Some (ls, mw, pt)"
  shows "\<exists>w. tc_websocket (srv_config srv) = Some w \<and>
           mw_api_key mw = (if wsc_api_key w = None then tc_api_key (srv_config srv) else wsc_api_key w) \<and>
           mw_api_key_header mw = tc_api_key_header (srv_config srv) \<and> mw_validator mw = srv_validator srv"
proof (cases "tc_websocket (srv_config srv)")
  case None
  with assms show ?thesis by (simp add: start_websocket_def)
next
  case (Some w)
  let ?opts = "(srv_upgrade srv)\<lparr>uo_reject_on_session_failure := srv_reject srv\<rparr>"
  from assms(1,3) Some have "serve_websocket_with (wd_to_json wd) (wd_bind wd Websocket_transport) (wd_load_tls wd)
      (wd_counter wd) (merged_websocket srv w) (srv_validator srv) ?opts = Ok (ls, mw, pt)"
    by (auto simp: start_websocket_def split: sum.splits)
  then have "mw = middleware_of (wd_to_json wd) (merged_websocket srv w) (srv_validator srv) ?opts"
    by (auto simp: serve_websocket_with_def Let_def split: sum.splits)
  with Some show ?thesis by (simp add: middleware_of_def merged_websocket_def)
qed

lemma started_mcp_key:
  assumes "start_mcp wd srv rn = (rn', Ok u)" and "rn_mcp rn = None" and "rn_mcp rn' = Some mv"
  shows "mv_api_key mv = tc_api_key (srv_config srv)"
  using assms
  by (auto simp: start_mcp_def serve_mcp_http_def serve_with_session_manager_def Let_def
      split: option.splits sum.splits session_storage.splits)

lemma started_rest_key:
  assumes "start_rest wd srv rn = (rn', Ok u)" and "rn_rest rn = None" and "rn_rest rn' = Some (sv, ax)"
  shows "sv_api_key sv = tc_api_key (srv_config srv)"
  using assms
  by (auto simp: start_rest_def serve_rest_http_as_def rest_server_of_def Let_def
      split: option.splits sum.splits)

lemma started_mount:
  assumes "start_mounted wd srv rn = (rn', Ok u)" and "rn_mounted rn = None" and "rn_mounted rn' \<noteq> None"
  shows "srv_mcp srv \<noteq> None"
  using assms by (auto simp: start_mounted_def split: option.splits)

lemma built_key:
  assumes "build jr b = Ok srv"
  shows "tc_api_key (srv_config srv) = tc_api_key (srv_config b)"
    and "tc_api_key_header (srv_config srv) = tc_api_key_header (srv_config b)"
    and "srv_validator srv = srv_validator b"
    and "map_option wsc_api_key (tc_websocket (srv_config srv)) = map_option wsc_api_key (tc_websocket (srv_config b))"
  using assms
  by (auto simp: build_def tls_everywhere_def bind_config_def Let_def option.map_comp comp_def
      split: if_splits option.split)

lemma built_mount:
  assumes "build jr b = Ok srv" and "tc_api_key (srv_config b) = Some key" and "srv_mcp srv \<noteq> None"
  shows "\<exists>m. srv_mcp b = Some m \<and> \<not> mm_admits_anonymous m"
  using assms by (auto simp: build_def Let_def split: if_splits option.splits)

section \<open>What each app asks\<close>

lemma mcp_app_without_the_key:
  assumes "header_str (rq_headers r) ''authorization'' \<noteq> Some (''Bearer '' @ key)"
  shows "\<exists>resp. mcp_app uri (Some key) route r = Inl resp \<and> rp_status resp = 401"
  using assms by (simp add: mcp_app_def mcp_auth_def)

lemma rest_app_without_the_key:
  assumes "header_str (rq_headers r) ''authorization'' \<noteq> Some (''Bearer '' @ key)"
    and "sv_api_key sv = Some key"
  shows "\<exists>resp. rest_app cv sv route r body = (Inl resp, []) \<and> rr_status resp \<in> {401, 421}"
  using assms by (auto simp: rest_app_def rest_auth_def rest_host_def split: option.splits)

lemma socket_with_the_key:
  assumes "serve_port nc ok mb ak mw st r ext0 = (st', Switch resp conn ext n)"
    and "mw_api_key mw = Some k"
  shows "header_str (rq_headers r) (mw_api_key_header mw) = Some k \<or>
         mw_validator mw = None \<and> bearer_token (rq_headers r) = Some k"
proof -
  obtain q e w where "fst (checks nc ok mw (pt_quotas st) r ext0) = (q, Passed e w)"
    using serve_port_Switch [OF assms(1)] by blast
  from key_gate_passed [OF checks_Passed(4) [OF this] assms(2)] show ?thesis by blast
qed

section \<open>The property\<close>

text \<open>
  C4. A static key on the builder guards every port of a server that is serving: the WebSocket opens
  a socket only with the key in the builder's header, or, where no session validator is set, as a
  bearer token (the WebSocket's own key in its place, where its configuration has one); the MCP
  app answers everything else 401; the REST app makes no call without the key as the bearer token
  and asks the validator nothing; and an MCP bridge mounted beside it admits no anonymous caller.
\<close>

theorem a_builders_key_guards_every_port:
  assumes "build jr b = Ok srv" and "serve_start wd srv = (rn, Ok Serving)"
    and "tc_api_key (srv_config b) = Some key"
  shows "(\<forall>ls mw pt. rn_websocket rn = Some (ls, mw, pt) \<longrightarrow>
            (\<exists>w k. tc_websocket (srv_config b) = Some w \<and>
               k = (case wsc_api_key w of Some own \<Rightarrow> own | None \<Rightarrow> key) \<and>
               (\<forall>nc ok mb ak st r ext0 st' resp conn ext n.
                  serve_port nc ok mb ak mw st r ext0 = (st', Switch resp conn ext n) \<longrightarrow>
                  header_str (rq_headers r) (tc_api_key_header (srv_config b)) = Some k \<or>
                  srv_validator b = None \<and> bearer_token (rq_headers r) = Some k))) \<and>
         (\<forall>mv uri route r. rn_mcp rn = Some mv \<and>
            header_str (rq_headers r) ''authorization'' \<noteq> Some (''Bearer '' @ key) \<longrightarrow>
            (\<exists>resp. mcp_app uri (mv_api_key mv) route r = Inl resp \<and> rp_status resp = 401)) \<and>
         (\<forall>sv ax cv route r (body :: ('p, 'v, 'd) body_read). rn_rest rn = Some (sv, ax) \<and>
            header_str (rq_headers r) ''authorization'' \<noteq> Some (''Bearer '' @ key) \<longrightarrow>
            (\<exists>resp. rest_app cv sv route r body = (Inl resp, []) \<and> rr_status resp \<in> {401, 421})) \<and>
         (rn_mounted rn \<noteq> None \<longrightarrow> (\<exists>m. srv_mcp b = Some m \<and> \<not> mm_admits_anonymous m))"
proof -
  note built = built_key [OF assms(1)]
  have key: "tc_api_key (srv_config srv) = Some key" using built(1) assms(3) by simp
  from serve_start_Serving [OF assms(2)] obtain r0 r1 r2 r3 where start:
      "rn_websocket r0 = None" "rn_mcp r0 = None" "rn_rest r0 = None" "rn_mounted r0 = None"
      "start_websocket wd srv r0 = (r1, Ok ())" "start_mcp wd srv (start_registering wd srv r1) = (r2, Ok ())"
      "start_rest wd srv r2 = (r3, Ok ())" "start_mounted wd srv r3 = (rn, Ok ())"
    by blast
  note kept = start_websocket_Ok [OF start(5), THEN conjunct1] start_websocket_Ok [OF start(5)]
    start_mcp_Ok [OF start(6)] start_rest_Ok [OF start(7)] start_mounted_Ok [OF start(8)]
  have same: "rn_websocket rn = rn_websocket r1" "rn_mcp rn = rn_mcp r2" "rn_rest rn = rn_rest r3"
      "rn_mcp (start_registering wd srv r1) = None" "rn_rest r2 = None" "rn_mounted r3 = None"
    using kept start(2-4) by (simp_all add: start_registering_def)
  show ?thesis
  proof (intro conjI allI impI, goal_cases)
    case (1 ls mw pt)
    then obtain w where w: "tc_websocket (srv_config srv) = Some w"
        "mw_api_key mw = (if wsc_api_key w = None then Some key else wsc_api_key w)"
        "mw_api_key_header mw = tc_api_key_header (srv_config srv)" "mw_validator mw = srv_validator srv"
      using started_websocket_checks [OF start(5,1)] same key by auto
    then obtain w' where w': "tc_websocket (srv_config b) = Some w'" "wsc_api_key w' = wsc_api_key w"
      using built(4) by (cases "tc_websocket (srv_config b)") auto
    with w have "mw_api_key mw = Some (case wsc_api_key w' of Some own \<Rightarrow> own | None \<Rightarrow> key)"
      by (auto split: option.splits)
    with w w' socket_with_the_key [of _ _ _ _ mw] built(2,3) show ?case by metis
  next
    case (2 mv uri route r)
    then show ?case
      using started_mcp_key [OF start(6) same(4)] same(2) key mcp_app_without_the_key by fastforce
  next
    case (3 sv ax cv route r body)
    then have "sv_api_key sv = Some key" using started_rest_key [OF start(7) same(5)] same(3) key by simp
    with 3 show ?case using rest_app_without_the_key by blast
  next
    case 4
    then show ?case using started_mount [OF start(8) same(6)] built_mount [OF assms(1,3)] by simp
  qed
qed

definition keyed_builder :: "(unit, nat, unit, unit, unit, unit) server_builder" where
  "keyed_builder =
     builder_api_key (Some ''k'') (with_websocket 4444 (builder_new sample_activation (Ok ())))"

definition keyed_server :: "(unit, nat, unit, unit, unit, unit) transport_server" where
  "keyed_server = projr (build \<lparr>jr_get = (\<lambda>_ _. None), jr_str = (\<lambda>_. None), jr_object = (\<lambda>_. None)\<rparr> keyed_builder)"

lemma keyed_built:
  "build \<lparr>jr_get = (\<lambda>_ _. None), jr_str = (\<lambda>_. None), jr_object = (\<lambda>_. None)\<rparr> keyed_builder = Ok keyed_server"
proof -
  have "\<exists>srv. build \<lparr>jr_get = (\<lambda>_ _. None), jr_str = (\<lambda>_. None), jr_object = (\<lambda>_. None)\<rparr> keyed_builder = Ok srv"
    by (simp add: build_def keyed_builder_def builder_api_key_def with_websocket_def set_config_def builder_new_def
        default_transport_config_def sample_activation_def collect_auth_gated_methods_def
        collect_from_schema_def Let_def)
  then show ?thesis by (auto simp: keyed_server_def)
qed

lemma keyed_config:
  "tc_websocket (srv_config keyed_builder) = Some (websocket_config_new 4444)"
  "tc_api_key (srv_config keyed_builder) = Some ''k''"
  "tc_api_key_header (srv_config keyed_builder) = ''x-plexus-api-key''" "srv_validator keyed_builder = None"
  "tc_stdio (srv_config keyed_server) = None" "tc_mcp_http (srv_config keyed_server) = None"
  "tc_rest_http (srv_config keyed_server) = None" "srv_mcp keyed_server = None"
  "tc_websocket (srv_config keyed_server) = Some (websocket_config_new 4444)"
  "srv_converter keyed_server = Some (Ok ())" "srv_proxies keyed_server = None"
  by (simp_all add: keyed_server_def keyed_builder_def builder_api_key_def with_websocket_def set_config_def
      builder_new_def default_transport_config_def sample_activation_def collect_auth_gated_methods_def
      collect_from_schema_def build_def tls_everywhere_def bind_config_def)

lemma keyed_serving:
  "\<exists>rn. serve_start sample_world keyed_server = (rn, Ok Serving) \<and> rn_websocket rn \<noteq> None"
  by (simp add: serve_start_def serve_module_def try_then_def keyed_config believe_proxies_def
      start_servers_def start_websocket_def serve_websocket_with_def merged_websocket_def Let_def
      sample_world_def websocket_config_new_def start_registering_def start_mcp_def start_rest_def
      start_mounted_def)

lemma a_builders_key_guards_every_port_witness:
  "\<exists>rn ls mw pt. serve_start sample_world keyed_server = (rn, Ok Serving) \<and>
     rn_websocket rn = Some (ls, mw, pt) \<and>
     \<not> (\<exists>st' resp conn ext n. serve_port (\<lambda>_ _. False) (\<lambda>_. True) 4 id mw pt (upgrade_request [])
            (no_extensions\<lparr>ex_connection := Some sample_connection\<rparr>) = (st', Switch resp conn ext n))"
proof -
  from keyed_serving obtain rn ls mw pt where rn: "serve_start sample_world keyed_server = (rn, Ok Serving)"
      "rn_websocket rn = Some (ls, mw, pt)" by auto
  from a_builders_key_guards_every_port [OF keyed_built rn(1) keyed_config(2), THEN conjunct1] rn(2)
  have "header_str (rq_headers (upgrade_request [])) ''x-plexus-api-key'' = Some ''k'' \<or>
      bearer_token (rq_headers (upgrade_request [])) = Some ''k''"
    if "serve_port (\<lambda>_ _. False) (\<lambda>_. True) 4 id mw pt (upgrade_request [])
      (no_extensions\<lparr>ex_connection := Some sample_connection\<rparr>) = (st', Switch resp conn ext n)" for st' resp conn ext n
    using that by (fastforce simp: keyed_config websocket_config_new_def)
  then show ?thesis
    using rn
    by (auto simp: upgrade_request_def upgrade_headers_def header_str_def header_get_def bearer_token_def)
qed

end
