(* ===== verification/Server_Stop.thy ===== *)
theory Server_Stop
  imports Connection
begin

text \<open>
  The tasks of a served WebSocket and the server's stop they hold (ws/stop.rs): the accept loop
  (websocket.rs), the handshake and the HTTP connection (tls.rs, \<open>serve_http\<close> of ws/http.rs), the
  task the upgrade spawns and the socket's loop (ws/conn.rs). Each holds watches of the stop,
  as clones of a handle, as the future of \<open>shutdown()\<close>, or in the service it is given; a task counts
  here as one watcher from its first watch to its last. What follows is what \<open>stopped()\<close>
  says of them.
\<close>

text \<open>
  Where a task is. A socket's loop gives its only watch to the future of \<open>shutdown()\<close>, which lets go of it
  when it resolves: \<open>Told_to_stop\<close> is a socket that has seen the stop and is still sending its
  close. One that ends for another reason (\<open>Closing\<close>) keeps the watch to its end, and so does an
  HTTP connection, in its service, while it shuts down (\<open>Http_shutting\<close>).
\<close>

datatype task =
    Accept_loop
  | Shaking_hands
  | Http_serving
  | Http_shutting
  | Switching
  | Socket_running
  | Closing
  | Told_to_stop
  | Gone

fun watches :: "task \<Rightarrow> bool" where
  "watches Told_to_stop = False"
| "watches Gone = False"
| "watches _ = True"

record serving_state =
  sr_stop :: server_stop
  sr_tasks :: "task list"

text \<open>\<open>serve_websocket_with\<close>: the channel is made, and its watch is the accept loop's.\<close>

definition serving_new :: serving_state where
  "serving_new = \<lparr>sr_stop = stop_channel, sr_tasks = [Accept_loop]\<rparr>"

definition spawned :: "task \<Rightarrow> serving_state \<Rightarrow> serving_state" where
  "spawned t s = \<lparr>sr_stop = stop_step (sr_stop s) Watch_clone, sr_tasks = sr_tasks s @ [t]\<rparr>"

text \<open>A task goes on to another place, and drops its last watch where that place holds none.\<close>

definition moved :: "nat \<Rightarrow> task \<Rightarrow> serving_state \<Rightarrow> serving_state" where
  "moved i t s =
     \<lparr>sr_stop = (if watches (sr_tasks s ! i) \<and> \<not> watches t then stop_step (sr_stop s) Watch_drop else sr_stop s),
      sr_tasks = (sr_tasks s)[i := t]\<rparr>"

definition at :: "nat \<Rightarrow> task \<Rightarrow> serving_state \<Rightarrow> bool" where
  "at i t s \<longleftrightarrow> i < length (sr_tasks s) \<and> sr_tasks s ! i = t"

text \<open>\<open>spawn_accept_loop\<close>: each connection's task is given the stop and the service, after a handshake
  where the port has TLS; the loop ends at the stop.\<close>

inductive listens :: "bool \<Rightarrow> serving_state \<Rightarrow> serving_state \<Rightarrow> bool" for tls :: bool where
  accepts: "at i Accept_loop s \<Longrightarrow> listens tls s (spawned (if tls then Shaking_hands else Http_serving) s)"
| accept_stops: "at i Accept_loop s \<Longrightarrow> shutdown_ready (sr_stop s) \<Longrightarrow> listens tls s (moved i Gone s)"
| hands_shaken: "at i Shaking_hands s \<Longrightarrow> listens tls s (moved i Http_serving s)"
| hands_refused: "at i Shaking_hands s \<Longrightarrow> listens tls s (moved i Gone s)"

text \<open>\<open>serve_http\<close>: the connection runs out, or shuts down at the stop or its own close.\<close>

inductive serves_http :: "serving_state \<Rightarrow> serving_state \<Rightarrow> bool" where
  http_runs_out: "at i Http_serving s \<Longrightarrow> serves_http s (moved i Gone s)"
| http_stops: "at i Http_serving s \<Longrightarrow> shutdown_ready (sr_stop s) \<or> closed \<Longrightarrow> serves_http s (moved i Http_shutting s)"
| http_shut: "at i Http_shutting s \<Longrightarrow> serves_http s (moved i Gone s)"

text \<open>\<open>Upgrade::upgrade\<close>: a request of the connection spawns the socket's task, with a watch of its own.\<close>

inductive upgrades :: "serving_state \<Rightarrow> serving_state \<Rightarrow> bool" where
  http_upgrades: "at i Http_serving s \<or> at i Http_shutting s \<Longrightarrow> upgrades s (spawned Switching s)"
| upgrade_done: "at i Switching s \<Longrightarrow> upgrades s (moved i Socket_running s)"
| upgrade_lost: "at i Switching s \<Longrightarrow> upgrades s (moved i Gone s)"

text \<open>\<open>run\<close>: the loop ends, by the stop or for another reason, and then \<open>end\<close> closes the socket.\<close>

inductive runs_socket :: "serving_state \<Rightarrow> serving_state \<Rightarrow> bool" where
  socket_told: "at i Socket_running s \<Longrightarrow> shutdown_ready (sr_stop s) \<Longrightarrow> runs_socket s (moved i Told_to_stop s)"
| socket_ends: "at i Socket_running s \<Longrightarrow> runs_socket s (moved i Closing s)"
| socket_over: "at i Closing s \<or> at i Told_to_stop s \<Longrightarrow> runs_socket s (moved i Gone s)"

inductive serving :: "bool \<Rightarrow> serving_state \<Rightarrow> serving_state \<Rightarrow> bool" for tls :: bool where
  listener_acts: "listens tls s s' \<Longrightarrow> serving tls s s'"
| http_acts: "serves_http s s' \<Longrightarrow> serving tls s s'"
| upgrade_acts: "upgrades s s' \<Longrightarrow> serving tls s s'"
| socket_acts: "runs_socket s s' \<Longrightarrow> serving tls s s'"
| owner_acts: "e \<in> {Handle_clone, Handle_drop, Stop_call} \<Longrightarrow> serving tls s (s\<lparr>sr_stop := stop_step (sr_stop s) e\<rparr>)"

lemmas task_steps = listens.intros serves_http.intros upgrades.intros runs_socket.intros

lemmas task_cases = listens.cases serves_http.cases upgrades.cases runs_socket.cases

section \<open>The watchers are the tasks\<close>

definition counted :: "serving_state \<Rightarrow> bool" where
  "counted s \<longleftrightarrow>
     ss_watchers (sr_stop s) = length (filter watches (sr_tasks s)) \<and>
     (Told_to_stop \<in> set (sr_tasks s) \<longrightarrow> shutdown_ready (sr_stop s))"

lemma stop_step_watchers:
  "ss_watchers (stop_step s Handle_clone) = ss_watchers s" "ss_watchers (stop_step s Handle_drop) = ss_watchers s"
  "ss_watchers (stop_step s Stop_call) = ss_watchers s"
  by (simp_all add: stop_def)

lemma shutdown_ready_step: "shutdown_ready s \<Longrightarrow> shutdown_ready (stop_step s e)"
  using shutdown_stays [of s "[e]"] by simp

lemma shutdown_ready_watchers [simp]: "shutdown_ready (s\<lparr>ss_watchers := n\<rparr>) = shutdown_ready s"
  by (simp add: shutdown_ready_def)

lemma filter_update:
  "i < length ts \<Longrightarrow> length (filter P (ts[i := t])) + (if P (ts ! i) then 1 else 0) =
     length (filter P ts) + (if P t then 1 else 0)"
proof (induction ts arbitrary: i)
  case (Cons u ts)
  show ?case
  proof (cases i)
    case (Suc j)
    then show ?thesis using Cons.IH [of j] Cons.prems by simp
  qed simp
qed simp

lemma spawned_counted:
  assumes "counted s" and "at i u s" and "watches u" and "watches t"
  shows "counted (spawned t s)"
proof -
  have "u \<in> set (sr_tasks s)" using assms(2) by (auto simp: at_def)
  then have "filter watches (sr_tasks s) \<noteq> []" using assms(3) by (auto simp: filter_empty_conv)
  then have "ss_watchers (sr_stop s) \<noteq> 0" using assms(1) by (simp add: counted_def)
  then show ?thesis
    using assms(1,4) shutdown_ready_step by (auto simp: counted_def spawned_def)
qed

lemma moved_counted:
  assumes "counted s" and "at i u s" and "watches t \<longrightarrow> watches u"
    and "t = Told_to_stop \<longrightarrow> shutdown_ready (sr_stop s)"
  shows "counted (moved i t s)"
proof -
  have i: "i < length (sr_tasks s)" "sr_tasks s ! i = u" using assms(2) by (simp_all add: at_def)
  have "set ((sr_tasks s)[i := t]) \<subseteq> insert t (set (sr_tasks s))" by (rule set_update_subset_insert)
  then show ?thesis
    using assms(1,3,4) filter_update [OF i(1), of watches t] i(2) shutdown_ready_step
    by (auto simp: counted_def moved_def)
qed

lemma serving_counted: "serving tls s s' \<Longrightarrow> counted s \<Longrightarrow> counted s'"
proof (induction rule: serving.induct)
  case (owner_acts e s)
  then show ?case using stop_step_watchers shutdown_ready_step by (auto simp: counted_def)
qed (auto elim!: task_cases intro: spawned_counted moved_counted)

lemma stopped_iff_counted: "counted s \<Longrightarrow> is_stopped (sr_stop s) \<longleftrightarrow> set (sr_tasks s) \<subseteq> {Gone, Told_to_stop}"
proof -
  have "watches t \<longleftrightarrow> t \<notin> {Gone, Told_to_stop}" for t by (cases t) auto
  then show "counted s \<Longrightarrow> ?thesis" by (auto simp: counted_def is_stopped_def filter_empty_conv)
qed

lemma stopped_goes_on:
  assumes "serving tls s s'" and "set (sr_tasks s) \<subseteq> {Gone, Told_to_stop}"
  shows "set (sr_tasks s') \<subseteq> {Gone, Told_to_stop} \<and> length (sr_tasks s') = length (sr_tasks s)"
proof -
  have none: "at i t s \<Longrightarrow> t = Gone \<or> t = Told_to_stop" for i t
    using assms(2) by (auto simp: at_def dest: nth_mem)
  show ?thesis
    using assms(1)
    by cases
      (use assms(2) none in \<open>auto elim!: task_cases simp: moved_def dest!: set_update_subset_insert [THEN subsetD]\<close>)
qed

section \<open>The property\<close>

lemma serving_reach: "(serving tls)\<^sup>*\<^sup>* s s' \<Longrightarrow> counted s \<Longrightarrow> counted s'"
  by (induction rule: rtranclp_induct) (auto intro: serving_counted)

lemma serving_new_counted: "counted serving_new"
  by (simp add: counted_def serving_new_def stop_channel_def)

text \<open>
  C28. \<open>stopped()\<close> resolves exactly when every task of the server, the accept loop, each
  handshake, HTTP connection and socket, has ended, but for the sockets that have been told of the
  stop and are still sending their close: none of those is waited for. From then on nothing
  begins, and the server stays stopped.
\<close>

theorem stopped_waits_for_all_but_the_closing_sockets:
  assumes "(serving tls)\<^sup>*\<^sup>* serving_new s"
  shows "(is_stopped (sr_stop s) \<longleftrightarrow> (\<forall>t \<in> set (sr_tasks s). t = Gone \<or> t = Told_to_stop)) \<and>
         (Told_to_stop \<in> set (sr_tasks s) \<longrightarrow> shutdown_ready (sr_stop s)) \<and>
         (\<forall>s'. is_stopped (sr_stop s) \<and> (serving tls)\<^sup>*\<^sup>* s s' \<longrightarrow>
            is_stopped (sr_stop s') \<and> length (sr_tasks s') = length (sr_tasks s))"
proof -
  have c: "counted s" using serving_reach [OF assms serving_new_counted] .
  have "is_stopped (sr_stop s') \<and> length (sr_tasks s') = length (sr_tasks s)"
    if "is_stopped (sr_stop s)" "(serving tls)\<^sup>*\<^sup>* s s'" for s'
  proof -
    have "set (sr_tasks s') \<subseteq> {Gone, Told_to_stop} \<and> length (sr_tasks s') = length (sr_tasks s)"
      using that(2)
    proof (induction rule: rtranclp_induct)
      case base
      then show ?case using that(1) stopped_iff_counted [OF c] by simp
    next
      case (step s1 s2)
      then show ?case using stopped_goes_on by metis
    qed
    then show ?thesis using stopped_iff_counted [OF serving_reach [OF that(2) c]] by simp
  qed
  moreover have "is_stopped (sr_stop s) \<longleftrightarrow> (\<forall>t \<in> set (sr_tasks s). t = Gone \<or> t = Told_to_stop)"
    using stopped_iff_counted [OF c] by blast
  moreover have "Told_to_stop \<in> set (sr_tasks s) \<longrightarrow> shutdown_ready (sr_stop s)"
    using c by (simp add: counted_def)
  ultimately show ?thesis by blast
qed

text \<open>A socket opened, the server stopped: \<open>stopped()\<close> has resolved, and the socket is still closing.\<close>

definition stopped_early :: serving_state where
  "stopped_early =
     \<lparr>sr_stop = \<lparr>ss_stopped = True, ss_handles = 1, ss_watchers = 0\<rparr>, sr_tasks = [Gone, Gone, Told_to_stop]\<rparr>"

lemma stopped_early_reached: "(serving False)\<^sup>*\<^sup>* serving_new stopped_early"
proof -
  let ?open = "\<lambda>n st ts. \<lparr>sr_stop = \<lparr>ss_stopped = st, ss_handles = 1, ss_watchers = n\<rparr>, sr_tasks = ts\<rparr>"
  note eval = spawned_def moved_def at_def serving_new_def stop_channel_def stop_def shutdown_ready_def eval_nat_numeral
  have "serving False serving_new (?open 2 False [Accept_loop, Http_serving])"
    using listener_acts [OF accepts [of 0 serving_new False]] by (simp add: eval)
  moreover have "serving False \<dots> (?open 3 False [Accept_loop, Http_serving, Switching])"
    using upgrade_acts [OF http_upgrades [of 1 "?open 2 False [Accept_loop, Http_serving]"]] by (simp add: eval)
  moreover have "serving False \<dots> (?open 2 False [Accept_loop, Gone, Switching])"
    using http_acts [OF http_runs_out [of 1 "?open 3 False [Accept_loop, Http_serving, Switching]"]] by (simp add: eval)
  moreover have "serving False \<dots> (?open 2 False [Accept_loop, Gone, Socket_running])"
    using upgrade_acts [OF upgrade_done [of 2 "?open 2 False [Accept_loop, Gone, Switching]"]] by (simp add: eval)
  moreover have "serving False \<dots> (?open 2 True [Accept_loop, Gone, Socket_running])"
    using owner_acts [of Stop_call False "?open 2 False [Accept_loop, Gone, Socket_running]"] by (simp add: eval)
  moreover have "serving False \<dots> (?open 1 True [Gone, Gone, Socket_running])"
    using listener_acts [OF accept_stops [of 0 "?open 2 True [Accept_loop, Gone, Socket_running]" False]] by (simp add: eval)
  moreover have "serving False \<dots> stopped_early"
    using socket_acts [OF socket_told [of 2 "?open 1 True [Gone, Gone, Socket_running]"]]
    by (simp add: eval stopped_early_def)
  ultimately show ?thesis by (meson converse_rtranclp_into_rtranclp rtranclp.rtrancl_refl)
qed

lemma stopped_waits_for_all_but_the_closing_sockets_witness:
  "is_stopped (sr_stop stopped_early) \<and> Told_to_stop \<in> set (sr_tasks stopped_early)"
  using stopped_waits_for_all_but_the_closing_sockets [OF stopped_early_reached]
  by (simp add: stopped_early_def)

end
