(* ===== verification/Request_Spike.thy ===== *)
theory Request_Spike
  imports Schema
begin

text \<open>
  The experiments the request fields came of (spike/req): the extraction of a request's fields
  from its cookies and headers (s02, s03), and the field trait with its blanket implementation for
  \<open>Option\<close> (s04). They read lists of name and value where the crate reads a header map. Their own
  assertions are lemmas here; the other experiments are schemas and macro expansions, which are
  schemars' and plexus-macros'.
\<close>

type_synonym pairs = "(string \<times> string) list"

section \<open>Cookies and headers\<close>

fun find_map :: "('a \<Rightarrow> 'b option) \<Rightarrow> 'a list \<Rightarrow> 'b option" where
  "find_map f [] = None"
| "find_map f (x # xs) = (case f x of Some y \<Rightarrow> Some y | None \<Rightarrow> find_map f xs)"

definition parse_cookie :: "string \<Rightarrow> string \<Rightarrow> string option" where
  "parse_cookie cookie_str name =
     find_map (\<lambda>part. Option.bind (strip_prefix name (trim part)) (strip_prefix ''=''))
       (split_on CHR '';'' cookie_str)"

definition find_header :: "pairs \<Rightarrow> string \<Rightarrow> string option" where
  "find_header headers name = map_option snd (find (\<lambda>(k, _). eq_ignore_ascii_case k name) headers)"

record auth_req =
  ar_auth_token :: string
  ar_origin :: "string option"

definition extract_auth_req :: "string \<Rightarrow> pairs \<Rightarrow> string + auth_req" where
  "extract_auth_req cookies headers =
     (case parse_cookie cookies ''access_token'' of
        None \<Rightarrow> Err ''Authentication required: access_token cookie missing''
      | Some auth_token \<Rightarrow> Ok \<lparr>ar_auth_token = auth_token, ar_origin = find_header headers ''origin''\<rparr>)"

record clients_request = auth_req +
  cr_peer_addr :: "string option"

definition extract_clients_request :: "string \<Rightarrow> pairs \<Rightarrow> string option \<Rightarrow> string + clients_request" where
  "extract_clients_request cookies headers peer =
     (case parse_cookie cookies ''access_token'' of
        None \<Rightarrow> Err ''access_token cookie required''
      | Some auth_token \<Rightarrow>
          Ok \<lparr>ar_auth_token = auth_token, ar_origin = find_header headers ''origin'', cr_peer_addr = peer\<rparr>)"

section \<open>The field trait\<close>

record ('x, 'a) request_field =
  rf_source_annotation :: "'x json"
  rf_extract_from :: "pairs \<Rightarrow> string option \<Rightarrow> string + 'a"

text \<open>\<open>str::contains\<close>.\<close>

definition str_contains :: "string \<Rightarrow> string \<Rightarrow> bool" where
  "str_contains s word \<longleftrightarrow> list_ex (\<lambda>i. starts_with word (drop i s)) [0..<length s + 1]"

definition says_absent :: "string \<Rightarrow> bool" where
  "says_absent e \<longleftrightarrow> str_contains e ''absent'' \<or> str_contains e ''missing'' \<or> str_contains e ''not present''"

definition option_field :: "('x, 'a) request_field \<Rightarrow> ('x, 'a option) request_field" where
  "option_field f =
     \<lparr>rf_source_annotation = rf_source_annotation f,
      rf_extract_from = (\<lambda>headers peer.
        case rf_extract_from f headers peer of
          Inr v \<Rightarrow> Ok (Some v)
        | Inl e \<Rightarrow> if says_absent e then Ok None else Err e)\<rparr>"

definition ALLOWED :: "string list" where
  "ALLOWED = [''https://app.example.com'', ''http://localhost:5173'']"

definition spike_valid_origin :: "('x, string) request_field" where
  "spike_valid_origin =
     \<lparr>rf_source_annotation = Obj [(''from'', Str ''header''), (''key'', Str ''origin'')],
      rf_extract_from = (\<lambda>headers _.
        case find_header headers ''origin'' of
          None \<Rightarrow> Err ''origin header not present''
        | Some v \<Rightarrow>
            if List.member ALLOWED v then Ok v
            else Err (''Origin '' @ [CHR 0x27] @ v @ [CHR 0x27] @ '' not allowed''))\<rparr>"

section \<open>What they do\<close>

lemma strip_two: "Option.bind (strip_prefix p s) (strip_prefix q) = Some t \<longleftrightarrow> s = p @ q @ t"
proof
  assume "Option.bind (strip_prefix p s) (strip_prefix q) = Some t"
  then obtain s' where "strip_prefix p s = Some s'" "strip_prefix q s' = Some t"
    by (auto simp: bind_eq_Some_conv)
  then show "s = p @ q @ t" by (simp add: strip_prefix_Some)
qed simp

lemma find_map_found: "(\<exists>y. find_map f xs = Some y) \<longleftrightarrow> (\<exists>x \<in> set xs. \<exists>y. f x = Some y)"
  by (induction xs) (auto split: option.split)

text \<open>A required field gates: a request is made of an access token, the first the cookies carry.\<close>

theorem a_required_cookie_gates:
  "(\<exists>r. extract_auth_req cookies headers = Ok r) \<longleftrightarrow>
     (\<exists>part \<in> set (split_on CHR '';'' cookies). \<exists>token. trim part = ''access_token='' @ token)"
proof -
  have "(Option.bind (strip_prefix ''access_token'' s) (strip_prefix ''='') = Some token) =
      (s = ''access_token='' @ token)" for s token
    using strip_two [of "''access_token''" s "''=''" token] by simp
  then have "(\<exists>token. parse_cookie cookies ''access_token'' = Some token) \<longleftrightarrow>
      (\<exists>part \<in> set (split_on CHR '';'' cookies). \<exists>token. trim part = ''access_token='' @ token)"
    unfolding parse_cookie_def find_map_found by simp
  then show ?thesis by (auto simp: extract_auth_req_def split: option.splits)
qed

lemma str_contains_iff: "str_contains s word \<longleftrightarrow> (\<exists>us vs. s = us @ word @ vs)"
proof
  assume "str_contains s word"
  then obtain i where "starts_with word (drop i s)" unfolding str_contains_def list_ex_iff by blast
  then have "drop i s = word @ drop (length word) (drop i s)"
    by (metis append_take_drop_id starts_with_def)
  then show "\<exists>us vs. s = us @ word @ vs" by (metis append_take_drop_id)
next
  assume "\<exists>us vs. s = us @ word @ vs"
  then obtain us vs where s: "s = us @ word @ vs" by blast
  then have "starts_with word (drop (length us) s)" "length us \<in> set [0..<length s + 1]"
    by (simp_all del: upt_Suc)
  then show "str_contains s word" unfolding str_contains_def list_ex_iff by blast
qed

text \<open>
  An optional field is taken for an absent one by the words of its error. The words of a refused
  origin name the origin, so a client that sends one holding \<open>missing\<close> or \<open>absent\<close> is
  let through as if it had sent none; any other origin that is not allowed is refused.
\<close>

theorem an_optional_origin_is_read_by_its_errors_words:
  "rf_extract_from (option_field spike_valid_origin) headers peer =
     (case find_header headers ''origin'' of
        None \<Rightarrow> Ok None
      | Some v \<Rightarrow>
          if v \<in> set ALLOWED then Ok (Some v)
          else let e = ''Origin '' @ [CHR 0x27] @ v @ [CHR 0x27] @ '' not allowed''
               in if says_absent e then Ok None else Err e)"
proof -
  have "''origin header not present'' = ''origin header '' @ ''not present'' @ []" by simp
  then have "says_absent ''origin header not present''"
    unfolding says_absent_def str_contains_iff by metis
  then show ?thesis
    by (simp add: option_field_def spike_valid_origin_def Let_def split: option.split)
qed

theorem a_refused_origin_can_pass_as_absent:
  assumes "find_header headers ''origin'' = Some (us @ word @ vs)" and "us @ word @ vs \<notin> set ALLOWED"
    and "word \<in> {''absent'', ''missing'', ''not present''}"
  shows "rf_extract_from (option_field spike_valid_origin) headers peer = Ok None"
proof -
  let ?e = "''Origin '' @ [CHR 0x27] @ (us @ word @ vs) @ [CHR 0x27] @ '' not allowed''"
  have "?e = (''Origin '' @ [CHR 0x27] @ us) @ word @ (vs @ [CHR 0x27] @ '' not allowed'')" by simp
  then have "str_contains ?e word" unfolding str_contains_iff by metis
  then have "says_absent ?e" using assms(3) by (auto simp: says_absent_def)
  then show ?thesis
    using assms(1,2) by (simp add: an_optional_origin_is_read_by_its_errors_words Let_def)
qed

lemma a_refused_origin_can_pass_as_absent_witness:
  "rf_extract_from (option_field spike_valid_origin) [(''origin'', ''https://missing.evil.com'')] None = Ok None"
proof (rule a_refused_origin_can_pass_as_absent)
  show "find_header [(''origin'', ''https://missing.evil.com'')] ''origin'' =
      Some (''https://'' @ ''missing'' @ ''.evil.com'')"
    by (simp add: find_header_def eq_ignore_ascii_case_def)
qed (simp_all add: ALLOWED_def)

text \<open>The experiments' own assertions.\<close>

lemma s03_assertions:
  "extract_auth_req ''other=val'' [] = Err ''Authentication required: access_token cookie missing''"
  "extract_auth_req ''access_token=tok123'' [(''origin'', ''https://app.example.com'')] =
     Ok \<lparr>ar_auth_token = ''tok123'', ar_origin = Some ''https://app.example.com''\<rparr>"
  "extract_auth_req ''session=abc; access_token=tok456; other=xyz'' [] =
     Ok \<lparr>ar_auth_token = ''tok456'', ar_origin = None\<rparr>"
  by code_simp+

lemma s04_assertions:
  "rf_extract_from spike_valid_origin [(''origin'', ''https://app.example.com'')] None = Ok ''https://app.example.com''"
  "rf_extract_from (option_field spike_valid_origin) [(''origin'', ''https://evil.com'')] None =
     Err (''Origin '' @ [CHR 0x27] @ ''https://evil.com'' @ [CHR 0x27] @ '' not allowed'')"
  "rf_extract_from (option_field spike_valid_origin) [] None = Ok None"
  by code_simp+

end
