(* ===== verification/Spec2Isabelle.thy ===== *)
theory Spec2Isabelle
imports Guard_Contract Socket_Typing Socket_Clock Port Listener RequestFields Tls_Listener Calls Config
  Rest_Properties Registry Stdio Mcp_Properties Session Combined Server_Key Server_Stop Request_Spike
begin

text \<open>
  A verification development for plexus-transport, the Rust crate that serves a Plexus RPC server
  over WebSocket, REST, MCP and stdio (src/src). It follows the code's own parts; each theory
  opens with what it holds.

  The parts, and how they meet. A builder (Server, server.rs) is told what to serve, checks that
  what needs a gate has one, and starts every transport configured, each on its own listener; it
  announces what the WebSocket bound to the registry (Registry, registry.rs) and withdraws it on
  the way out. The transports are the WebSocket, the REST gateway (Rest, http/), MCP over HTTP
  (Mcp, mcp/), with its sessions in memory or in SQLite (Session, mcp/session.rs), and stdio
  (Stdio, stdio.rs); combined.rs puts the WebSocket and both bridges on one port (Combined).

  A TCP connection accepted on the WebSocket's listener (Listener, websocket.rs) takes a place
  among its address's sockets not yet upgraded (Quotas, \<open>Pending\<close>), completes a TLS handshake
  where a certificate is configured (Tls, tls.rs) and becomes a \<open>Connection\<close> (Connection). Each
  request on it passes the port's checks (Auth, module \<open>auth\<close> of websocket.rs): the client behind
  the trusted proxies is resolved (Proxy, proxy.rs), the host list read (Host, host.rs), the RFC
  9728 metadata answered (Resource, protected_resource.rs), then the origin, the static key, the
  session validator and the connection quotas (Quotas). What passes is upgraded (Upgrade,
  ws/http.rs), where it takes a place among all the server's sockets, and its socket handed to the
  loop (SocketLoop, ws/conn.rs), which reads through the guard (Guard, ws/guard.rs) and whose calls
  take places in the connection's count (Calls, calls.rs). Host routes beside the socket go through
  \<open>Routed\<close> (Listener); a handler's request fields (RequestFields, request/) read the same proxies
  and the TLS peers. The configuration of all of them is Config (config.rs and the limits of
  ws/mod.rs).

  A REST request passes the host list and the static key, finds its method in the schemas'
  registry, is given a caller by the same validator the WebSocket asks, and its call's stream is
  answered as one JSON body or as server-sent events. An MCP tool call goes to the router or to
  the activation alone, and its stream becomes notifications and one result. On stdio the answers
  and the streams' items of all calls go out through one bounded queue and one writer.

  The theories, in the order they build.
  \<^item> Prelude: text as Rust's \<open>str\<close> operations read it, numbers as text, the \<open>?\<close> operator, maps
    from keys to counts with their \<open>up\<close> and \<open>down\<close>, and the collections of simplification rules.
  \<^item> Places: the interface of everything that hands out places, as two locales. \<open>gauged\<close> is a
    resource whose places are taken and given back and whose gauges say how many are taken;
    \<open>limited\<close> extends it with limits a take keeps. What their lemmas show, over any history of
    takes and returns, is that the gauges count exactly the places held, and that a take is
    refused exactly when a gauge it is charged to is full. Calls, Quotas (twice), Upgrade and Tls
    interpret them on the code's own operations.
  \<^item> Net, Http, Schema: the standard library's addresses, with their parsers and printers, HTTP
    messages as the crate reads and writes them, and plexus-core's schemas, errors and stream items.
  \<^item> Host, Resource, Proxy, Tls, Config, Calls, Quotas: one source file or module each.
  \<^item> Tls_Listener: the listener that hands on finished handshakes, as steps in any interleaving;
    that each is handed on once, and that the secure peers are those of the streams still open.
  \<^item> Guard, Guard_Stream, Guard_Frames, Guard_Contract: the reader of ws/guard.rs as it is
    written, over a socket that answers its reads one after the other; then, by refinement, the
    same over a stream that arrived whole, over frames, and over messages; then its contract.
  \<^item> Connection, Upgrade, Auth, Port: an accepted connection and the watches on it, the upgrade,
    the checks of the port, and the properties of the port as a whole.
  \<^item> SocketLoop, Socket_Properties: one socket's loop, and what holds of it at each wakeup.
  \<^item> Writer, Socket_Life: the handle this side writes its own frames through and the connection's
    hook (ws/mod.rs); the life of a socket over all its wakeups, in any interleaving with whoever
    fills its queues: each queue goes out whole and in its own order, and the end is told once.
  \<^item> Socket_Typing: what the loop keeps of its own state in all that: its counters' ranges, what it
    was set up with, and which messages it can write.
  \<^item> Socket_Clock: a clock beside that life; how long a socket outlives a peer that has gone silent,
    or its last call, and that it is ended for neither before.
  \<^item> RequestFields, Listener: the fields of a handler's request; the listener and its accept loop.
  \<^item> Rest, Rest_Properties: the REST gateway; that one JSON body is its whole stream, what a call
    proved before it is made, and whom it names.
  \<^item> Mcp, Mcp_Properties: the MCP bridge and its app; that a tool's result is its whole stream, what
    a method is told of the connection, and that a listed tool reaches its method.
  \<^item> Session: the session manager over its rows and its live handles; that a live session has its
    row, and that no session outlives its process.
  \<^item> Stdio: the reader, the streams and the writer as steps in any interleaving; that stdout is the
    queued lines, whole and in order, and each call's answer before its items.
  \<^item> Registry: one conversation with the registry and its retries; when a server is registered.
  \<^item> Combined: the port the WebSocket shares with both bridges, and what its key stands before.
  \<^item> Server, Server_Properties: the builder, the start, the wait and the way out; when a server is
    built, where its listeners are, and what the registry is told.
  \<^item> Server_Key: the builder's static key on every port at once.
  \<^item> Server_Stop: the tasks of a served WebSocket and the watches of its stop they hold; what it
    means that the server has stopped.
  \<^item> Request_Spike: the experiments the request fields came of (spike/req), and how an optional
    origin is read.

  How the state is modelled. A struct is a record, an enum a datatype, and a shared atomic, lock
  or map the field of a state that its operations return updated. A \<open>Drop\<close> that gives a place
  back is an operation of its own, and what a task does at its end is the operation its end runs.
  Where tasks race the model is a step over any interleaving: of the threads' loads and
  compare-and-exchanges (the count of \<open>calls.rs\<close>), of handshakes, sends and streams that end (the
  TLS listener), of a loop's wakeups and its queues' senders (\<open>Socket_Life\<close>), of the server's tasks
  and its owner (\<open>Server_Stop\<close>), or of what the reader, the streams and the writer do next
  (\<open>stdio.rs\<close>, a list of events). A \<open>u64\<close> whose wrap-around matters (the guard's
  lengths) is a 64-bit word; counts and durations (milliseconds) are naturals. Errors are values:
  \<open>Err\<close> and \<open>Ok\<close> of a sum, or an option.

  What is a parameter. Code that is not under src/ is an argument of the definitions that use it:
  the network type of the \<open>ipnet\<close> crate and its parser, whether header bytes are text, rustls and
  the file system, the session validator, jsonrpsee's method table, batch builder and client, serde,
  the connection hook and plexus-core's input table and dispatch, tungstenite's frames as they are
  read, axum's routing, rmcp's sessions and protocol, the SQLite database's failures, the reader of
  a URL's query, and the environment. Nothing is assumed of them but what a property's own
  hypotheses say. tokio's channels, semaphores and intervals are modelled as they are documented: in
  Socket_Clock a tick that is not ready is not yet due.

  Bounds. Nothing runs on fuel where the code's loop ends by itself: the guard's and the writer's
  recursions have measures. A socket's reads, a queue's frames and a call's items are finite lists
  of what the next polls answer; where a list is over, the peer has nothing more to say at that
  poll, and a REST stream says besides whether and when its end comes.

  What is not modelled: plexus-transport-mcp's bridge behind the mounted MCP (a crate of its own;
  the service it reaches and the builder's checks of it are), the logging, the signal handlers, the
  futures' wake-ups, the calls a wrapper passes on unchanged (the write halves of the guard and of a
  TLS stream, tower's \<open>poll_ready\<close>), races inside one operation of the session manager, and the
  experiments of spike/req that print what schemars and plexus-macros generate.
\<close>

end
